theory Spec2Isabelle
  imports Complex_Main
begin

section \<open>Blockforge voxel core: chunk store, world queries and block writes\<close>

text \<open>
  Python integers are modelled as \<open>int\<close>, lists as HOL lists, dictionaries as maps. A
  Python exception is a value \<open>Inl e\<close> of a sum type; a normal return is \<open>Inr v\<close>.
  Mutation of an object is explicit state passing: a function takes the old object
  and returns the new one.

  A Python float is modelled by the real number it denotes. In the world queries, the
  collision sweep and the player's physics step every operation that yields a float
  rounds its exact result to the nearest float, ties to even (\<open>f64\<close>, 53 significant
  bits; \<open>f32\<close>, 24 bits, for a value stored in a component of a panda3d \<open>Vec3\<close>). The
  exponent range is not bounded in the model, so a result that overflows to infinity,
  a \<open>NaN\<close>, and a product or a 24-bit value that underflows to a subnormal are outside
  it; the properties of the sweep and of the physics step bound their inputs so that no
  such value arises. The mesher and the noise functions keep exact real arithmetic: what
  is shown of them are counts, equalities between runs and bounds enforced by integer
  clamps.
\<close>

subsection \<open>settings.py\<close>

definition CHUNK_SIZE_X :: int where "CHUNK_SIZE_X = 8"
definition CHUNK_SIZE_Y :: int where "CHUNK_SIZE_Y = 128"
definition CHUNK_SIZE_Z :: int where "CHUNK_SIZE_Z = 8"

subsection \<open>chunk.py: block ids\<close>

definition BLOCK_AIR :: int where "BLOCK_AIR = 0"
definition BLOCK_GRASS :: int where "BLOCK_GRASS = 1"
definition BLOCK_DIRT :: int where "BLOCK_DIRT = 2"
definition BLOCK_STONE :: int where "BLOCK_STONE = 3"
definition BLOCK_BEDROCK :: int where "BLOCK_BEDROCK = 4"

definition is_block_solid :: "int \<Rightarrow> bool" where
  "is_block_solid block_id = (block_id \<noteq> BLOCK_AIR)"

subsection \<open>util.py: packed index\<close>

definition index_3d :: "int \<Rightarrow> int \<Rightarrow> int \<Rightarrow> int" where
  "index_3d lx y lz = (y * CHUNK_SIZE_Z + lz) * CHUNK_SIZE_X + lx"

subsection \<open>Errors\<close>

datatype error = IndexError | OverflowError | ZeroDivisionError

subsection \<open>Floats\<close>

text \<open>
  Rounding to the nearest integer, ties to the even one; the power \<open>2 ^ k\<close> for an
  integer exponent; and rounding to \<open>p\<close> significant bits: a number \<open>x\<close> with
  \<open>2 ^ e \<le> |x| < 2 ^ (e + 1)\<close> is rounded to the nearest multiple of \<open>2 ^ (e - p + 1)\<close>.
\<close>

definition round_half_even :: "real \<Rightarrow> int" where
  "round_half_even v =
     (let f = \<lfloor>v\<rfloor>; d = v - of_int f
      in if d < 1 / 2 then f else if d > 1 / 2 then f + 1 else if even f then f else f + 1)"

definition pow2 :: "int \<Rightarrow> real" where
  "pow2 k = (if k \<ge> 0 then 2 ^ nat k else 1 / 2 ^ nat (- k))"

definition rnd :: "nat \<Rightarrow> real \<Rightarrow> real" where
  "rnd p x =
     (if x = 0 then 0
      else (let e = \<lfloor>log 2 \<bar>x\<bar>\<rfloor>; u = pow2 (e - int p + 1)
            in of_int (round_half_even (x / u)) * u))"

text \<open>
  \<open>f64\<close>: the float that a Python operation with exact result \<open>x\<close> returns, and the
  float an integer \<open>x\<close> is converted to when it meets a float. \<open>f32\<close>: the value a
  \<open>Vec3\<close> component holds after \<open>x\<close> is assigned to it.
\<close>

definition f64 :: "real \<Rightarrow> real" where
  "f64 x = rnd 53 x"

definition f32 :: "real \<Rightarrow> real" where
  "f32 x = rnd 24 x"

text \<open>
  \<open>a / b\<close> on two Python ints: the quotient rounded once to a float;
  \<open>ZeroDivisionError\<close> for \<open>b = 0\<close>, \<open>OverflowError\<close> when the rounded quotient is
  beyond the largest float.
\<close>

definition int_true_div :: "int \<Rightarrow> int \<Rightarrow> error + real" where
  "int_true_div a b =
     (if b = 0 then Inl ZeroDivisionError
      else (let q = f64 (of_int a / of_int b)
            in if \<bar>q\<bar> \<ge> 2 ^ 1024 then Inl OverflowError else Inr q))"

subsection \<open>chunk.py: class Chunk\<close>

text \<open>
  The geometry handle \<open>node\<close> of the source belongs to the renderer and is left out;
  the mesh a chunk builds is modelled separately below.
\<close>

record Chunk =
  chunk_cx :: int
  chunk_cz :: int
  blocks :: "int list"
  dirty :: bool

text \<open>\<open>Chunk.__init__\<close>: an all-air grid of \<open>SX * SY * SZ\<close> cells, dirty.\<close>

definition new_Chunk :: "int \<Rightarrow> int \<Rightarrow> Chunk" where
  "new_Chunk cx cz =
     \<lparr> chunk_cx = cx, chunk_cz = cz,
       blocks = replicate (nat (CHUNK_SIZE_X * CHUNK_SIZE_Y * CHUNK_SIZE_Z)) BLOCK_AIR,
       dirty = True \<rparr>"

definition in_chunk_bounds :: "int \<Rightarrow> int \<Rightarrow> int \<Rightarrow> bool" where
  "in_chunk_bounds lx y lz =
     (0 \<le> lx \<and> lx < CHUNK_SIZE_X \<and> 0 \<le> y \<and> y < CHUNK_SIZE_Y \<and> 0 \<le> lz \<and> lz < CHUNK_SIZE_Z)"

text \<open>
  \<open>self.blocks[i] = v\<close> and \<open>self.blocks[i]\<close> raise \<open>IndexError\<close> when \<open>i\<close> is past
  the end of the list (the index is never negative inside the bounds check).
\<close>

definition set_block_local :: "Chunk \<Rightarrow> int \<Rightarrow> int \<Rightarrow> int \<Rightarrow> int \<Rightarrow> error + Chunk" where
  "set_block_local c lx y lz block_id =
     (if in_chunk_bounds lx y lz then
        (let i = nat (index_3d lx y lz) in
         if i < length (blocks c)
         then Inr (c\<lparr> blocks := (blocks c)[i := block_id], dirty := True \<rparr>)
         else Inl IndexError)
      else Inr c)"

definition get_block_local :: "Chunk \<Rightarrow> int \<Rightarrow> int \<Rightarrow> int \<Rightarrow> error + int" where
  "get_block_local c lx y lz =
     (if in_chunk_bounds lx y lz then
        (let i = nat (index_3d lx y lz) in
         if i < length (blocks c) then Inr (blocks c ! i) else Inl IndexError)
      else Inr BLOCK_AIR)"

subsection \<open>world.py: class World\<close>

text \<open>
  \<open>save_system\<close> is \<open>None\<close> or an object whose \<open>load_chunk cx cz\<close> returns the
  \<open>blocks\<close> entry of the chunk's file, or \<open>None\<close> when there is no file or reading it
  failed. The scene-graph fields (\<open>render\<close>, \<open>root\<close>, \<open>chunk_nodes\<close>) are left out.
\<close>

record World =
  chunks :: "(int \<times> int) \<rightharpoonup> Chunk"
  save_system :: "(int \<Rightarrow> int \<Rightarrow> int list option) option"

text \<open>
  \<open>floor(wx / settings.CHUNK_SIZE_X)\<close>: true division of two ints, which gives a
  float, followed by \<open>math.floor\<close>.
\<close>

definition chunk_coord_x :: "int \<Rightarrow> error + int" where
  "chunk_coord_x wx =
     (case int_true_div wx CHUNK_SIZE_X of Inl e \<Rightarrow> Inl e | Inr q \<Rightarrow> Inr \<lfloor>q\<rfloor>)"

definition chunk_coord_z :: "int \<Rightarrow> error + int" where
  "chunk_coord_z wz =
     (case int_true_div wz CHUNK_SIZE_Z of Inl e \<Rightarrow> Inl e | Inr q \<Rightarrow> Inr \<lfloor>q\<rfloor>)"

text \<open>
  \<open>World.block_id_at\<close>. The height function \<open>terrain_height\<close> of util.py is passed in
  as \<open>th\<close> (called with its default biome and weight).
\<close>

definition block_id_at :: "(int \<Rightarrow> int \<Rightarrow> int) \<Rightarrow> int \<Rightarrow> int \<Rightarrow> int \<Rightarrow> int" where
  "block_id_at th wx wy wz =
     (if wy < 0 then BLOCK_BEDROCK
      else if wy = 0 then BLOCK_BEDROCK
      else if wy \<ge> CHUNK_SIZE_Y then BLOCK_AIR
      else (let h = th wx wz in
            if wy > h then BLOCK_AIR
            else if wy = h then BLOCK_GRASS
            else if wy \<ge> h - 3 then BLOCK_DIRT
            else BLOCK_STONE))"

definition is_solid :: "World \<Rightarrow> int \<Rightarrow> int \<Rightarrow> int \<Rightarrow> error + bool" where
  "is_solid w wx wy wz =
     (if wy < 0 then Inr True
      else if wy \<ge> CHUNK_SIZE_Y then Inr False
      else (case chunk_coord_x wx of Inl e \<Rightarrow> Inl e | Inr cx \<Rightarrow>
            case chunk_coord_z wz of Inl e \<Rightarrow> Inl e | Inr cz \<Rightarrow>
            (case chunks w (cx, cz) of
               Some chunk \<Rightarrow>
                 (let lx = wx - cx * CHUNK_SIZE_X; lz = wz - cz * CHUNK_SIZE_Z in
                  case get_block_local chunk lx wy lz of
                    Inl e \<Rightarrow> Inl e
                  | Inr block_id \<Rightarrow> Inr (is_block_solid block_id))
             | None \<Rightarrow> Inr False)))"

definition get_block :: "(int \<Rightarrow> int \<Rightarrow> int) \<Rightarrow> World \<Rightarrow> int \<Rightarrow> int \<Rightarrow> int \<Rightarrow> error + int" where
  "get_block th w wx wy wz =
     (if wy < 0 then Inr BLOCK_BEDROCK
      else if wy \<ge> CHUNK_SIZE_Y then Inr BLOCK_AIR
      else (case chunk_coord_x wx of Inl e \<Rightarrow> Inl e | Inr cx \<Rightarrow>
            case chunk_coord_z wz of Inl e \<Rightarrow> Inl e | Inr cz \<Rightarrow>
            (case chunks w (cx, cz) of
               Some chunk \<Rightarrow>
                 (let lx = wx - cx * CHUNK_SIZE_X; lz = wz - cz * CHUNK_SIZE_Z in
                  get_block_local chunk lx wy lz)
             | None \<Rightarrow> Inr (block_id_at th wx wy wz))))"

text \<open>
  \<open>World._populate_chunk_blocks\<close> fills a fresh chunk from the terrain, cave, ore,
  tree and cactus passes. It reads the chunk through \<open>get_block_local\<close> and changes it
  only through \<open>set_block_local\<close>; the sequence of writes \<open>(lx, y, lz, block_id)\<close> it
  performs for chunk \<open>(cx, cz)\<close> is passed in as \<open>gen cx cz\<close>.
\<close>

fun apply_writes :: "Chunk \<Rightarrow> (int \<times> int \<times> int \<times> int) list \<Rightarrow> error + Chunk" where
  "apply_writes c [] = Inr c"
| "apply_writes c ((lx, y, lz, block_id) # ws) =
     (case set_block_local c lx y lz block_id of
        Inl e \<Rightarrow> Inl e
      | Inr c' \<Rightarrow> apply_writes c' ws)"

definition populate_chunk_blocks ::
  "(int \<Rightarrow> int \<Rightarrow> (int \<times> int \<times> int \<times> int) list) \<Rightarrow> Chunk \<Rightarrow> int \<Rightarrow> int \<Rightarrow> error + Chunk" where
  "populate_chunk_blocks gen chunk cx cz = apply_writes chunk (gen cx cz)"

text \<open>
  \<open>World._apply_saved_modifications\<close>: when the save system has block data for the
  chunk, the chunk's list is replaced by it as it is.
\<close>

definition apply_saved_modifications :: "World \<Rightarrow> Chunk \<Rightarrow> int \<Rightarrow> int \<Rightarrow> Chunk" where
  "apply_saved_modifications w chunk cx cz =
     (case save_system w of
        None \<Rightarrow> chunk
      | Some load_chunk \<Rightarrow>
          (case load_chunk cx cz of
             Some saved_blocks \<Rightarrow> chunk\<lparr> blocks := saved_blocks, dirty := True \<rparr>
           | None \<Rightarrow> chunk))"

definition ensure_chunk ::
  "(int \<Rightarrow> int \<Rightarrow> (int \<times> int \<times> int \<times> int) list) \<Rightarrow> World \<Rightarrow> int \<Rightarrow> int
     \<Rightarrow> error + (Chunk \<times> World)" where
  "ensure_chunk gen w cx cz =
     (case chunks w (cx, cz) of
        Some ch \<Rightarrow> Inr (ch, w)
      | None \<Rightarrow>
          (case populate_chunk_blocks gen (new_Chunk cx cz) cx cz of
             Inl e \<Rightarrow> Inl e
           | Inr ch \<Rightarrow>
               (let ch' = apply_saved_modifications w ch cx cz
                in Inr (ch', w\<lparr> chunks := (chunks w)((cx, cz) \<mapsto> ch') \<rparr>))))"

text \<open>\<open>neighbor = self.chunks.get(key); if neighbor: neighbor.dirty = True\<close>\<close>

definition mark_dirty :: "World \<Rightarrow> int \<times> int \<Rightarrow> World" where
  "mark_dirty w key =
     (case chunks w key of
        Some neighbor \<Rightarrow> w\<lparr> chunks := (chunks w)(key \<mapsto> neighbor\<lparr> dirty := True \<rparr>) \<rparr>
      | None \<Rightarrow> w)"

definition mark_neighbors_dirty :: "World \<Rightarrow> int \<Rightarrow> int \<Rightarrow> int \<Rightarrow> int \<Rightarrow> int \<Rightarrow> World" where
  "mark_neighbors_dirty w wx wy wz cx cz =
     (let lx = wx - cx * CHUNK_SIZE_X;
          lz = wz - cz * CHUNK_SIZE_Z;
          w1 = (if lx = 0 then mark_dirty w (cx - 1, cz)
                else if lx = CHUNK_SIZE_X - 1 then mark_dirty w (cx + 1, cz)
                else w)
      in (if lz = 0 then mark_dirty w1 (cx, cz - 1)
          else if lz = CHUNK_SIZE_Z - 1 then mark_dirty w1 (cx, cz + 1)
          else w1))"

text \<open>
  A block write returns the boolean result and the world after the call. The chunk
  object is shared with the dictionary, so a change of the chunk is a change of the
  dictionary entry.
\<close>

definition remove_block :: "World \<Rightarrow> int \<Rightarrow> int \<Rightarrow> int \<Rightarrow> error + (bool \<times> World)" where
  "remove_block w wx wy wz =
     (if wy \<le> 0 \<or> wy \<ge> CHUNK_SIZE_Y then Inr (False, w)
      else (case chunk_coord_x wx of Inl e \<Rightarrow> Inl e | Inr cx \<Rightarrow>
            case chunk_coord_z wz of Inl e \<Rightarrow> Inl e | Inr cz \<Rightarrow>
            (case chunks w (cx, cz) of
               None \<Rightarrow> Inr (False, w)
             | Some chunk \<Rightarrow>
                 (let lx = wx - cx * CHUNK_SIZE_X; lz = wz - cz * CHUNK_SIZE_Z in
                  case get_block_local chunk lx wy lz of
                    Inl e \<Rightarrow> Inl e
                  | Inr b \<Rightarrow>
                      if b = BLOCK_AIR then Inr (False, w)
                      else (case set_block_local chunk lx wy lz BLOCK_AIR of
                              Inl e \<Rightarrow> Inl e
                            | Inr chunk' \<Rightarrow>
                                Inr (True,
                                     mark_neighbors_dirty
                                       (w\<lparr> chunks := (chunks w)((cx, cz) \<mapsto> chunk') \<rparr>)
                                       wx wy wz cx cz))))))"

definition place_block ::
  "(int \<Rightarrow> int \<Rightarrow> (int \<times> int \<times> int \<times> int) list) \<Rightarrow> World \<Rightarrow> int \<Rightarrow> int \<Rightarrow> int \<Rightarrow> int
     \<Rightarrow> error + (bool \<times> World)" where
  "place_block gen w wx wy wz block_type =
     (if wy \<le> 0 \<or> wy \<ge> CHUNK_SIZE_Y then Inr (False, w)
      else (case chunk_coord_x wx of Inl e \<Rightarrow> Inl e | Inr cx \<Rightarrow>
            case chunk_coord_z wz of Inl e \<Rightarrow> Inl e | Inr cz \<Rightarrow>
            (case ensure_chunk gen w cx cz of
               Inl e \<Rightarrow> Inl e
             | Inr (chunk, w1) \<Rightarrow>
                 (let lx = wx - cx * CHUNK_SIZE_X; lz = wz - cz * CHUNK_SIZE_Z in
                  case get_block_local chunk lx wy lz of
                    Inl e \<Rightarrow> Inl e
                  | Inr b \<Rightarrow>
                      if b \<noteq> BLOCK_AIR then Inr (False, w1)
                      else (case set_block_local chunk lx wy lz block_type of
                              Inl e \<Rightarrow> Inl e
                            | Inr chunk' \<Rightarrow>
                                Inr (True,
                                     mark_neighbors_dirty
                                       (w1\<lparr> chunks := (chunks w1)((cx, cz) \<mapsto> chunk') \<rparr>)
                                       wx wy wz cx cz))))))"

section \<open>Collision: axis-aligned boxes and the per-axis sweep\<close>

subsection \<open>util.py: class AABB\<close>

text \<open>
  The six fields hold Python numbers: floats in a box built from a position, and in the
  lower corner of a block's box the integer block coordinates themselves. Comparisons
  between Python numbers are exact.
\<close>

record AABB =
  min_x :: real
  min_y :: real
  min_z :: real
  max_x :: real
  max_y :: real
  max_z :: real

definition intersects :: "AABB \<Rightarrow> AABB \<Rightarrow> bool" where
  "intersects self other =
     (\<not> (max_x self \<le> min_x other
         \<or> min_x self \<ge> max_x other
         \<or> max_y self \<le> min_y other
         \<or> min_y self \<ge> max_y other
         \<or> max_z self \<le> min_z other
         \<or> min_z self \<ge> max_z other))"

text \<open>\<open>AABB.moved\<close>: six float additions.\<close>

definition moved :: "AABB \<Rightarrow> real \<Rightarrow> real \<Rightarrow> real \<Rightarrow> AABB" where
  "moved self dx dy dz =
     \<lparr> min_x = f64 (min_x self + dx), min_y = f64 (min_y self + dy), min_z = f64 (min_z self + dz),
       max_x = f64 (max_x self + dx), max_y = f64 (max_y self + dy), max_z = f64 (max_z self + dz) \<rparr>"

text \<open>
  \<open>AABB(bx, by, bz, bx + 1.0, by + 1.0, bz + 1.0)\<close>: the lower corner is the three
  ints; for the upper corner each int is converted to a float and \<open>1.0\<close> is added.
\<close>

definition block_aabb :: "int \<Rightarrow> int \<Rightarrow> int \<Rightarrow> AABB" where
  "block_aabb bx by bz =
     \<lparr> min_x = of_int bx, min_y = of_int by, min_z = of_int bz,
       max_x = f64 (f64 (of_int bx) + 1.0), max_y = f64 (f64 (of_int by) + 1.0),
       max_z = f64 (f64 (of_int bz) + 1.0) \<rparr>"

subsection \<open>player.py: \<open>Player._sweep_axis\<close>\<close>

text \<open>The literal \<open>0.001\<close> of settings.py, as the float it denotes.\<close>

definition EPSILON :: real where "EPSILON = f64 0.001"

text \<open>
  The three nested \<open>for\<close> loops over \<open>range(lo, hi + 1)\<close>, outermost \<open>bx\<close>, then
  \<open>by\<close>, then \<open>bz\<close>.
\<close>

definition sweep_coords :: "int \<Rightarrow> int \<Rightarrow> int \<Rightarrow> int \<Rightarrow> int \<Rightarrow> int \<Rightarrow> (int \<times> int \<times> int) list" where
  "sweep_coords x0 x1 y0 y1 z0 z1 =
     concat (map (\<lambda>bx. concat (map (\<lambda>by. map (\<lambda>bz. (bx, by, bz)) [z0..z1]) [y0..y1])) [x0..x1])"

text \<open>
  The loop bodies: one block coordinate, the running pair \<open>(allowed, hit)\<close>. The
  world's \<open>solid_at\<close> is passed in as a total function; an exception raised by it would
  leave the sweep and is not modelled here. In \<open>blk.min_x - aabb.max_x - eps\<close> the
  int \<open>blk.min_x\<close> is converted to a float, then come two float subtractions; in
  \<open>aabb.max_x + delta > blk.min_x\<close> the float sum is compared with the int exactly.
\<close>

definition sweep_step_x ::
  "(int \<Rightarrow> int \<Rightarrow> int \<Rightarrow> bool) \<Rightarrow> AABB \<Rightarrow> real \<Rightarrow> real \<times> bool \<Rightarrow> int \<times> int \<times> int \<Rightarrow> real \<times> bool" where
  "sweep_step_x solid_at aabb delta acc b =
     (case b of (bx, by, bz) \<Rightarrow>
        if \<not> solid_at bx by bz then acc
        else (let blk = block_aabb bx by bz in
              if max_y aabb \<le> min_y blk \<or> min_y aabb \<ge> max_y blk then acc
              else if max_z aabb \<le> min_z blk \<or> min_z aabb \<ge> max_z blk then acc
              else if delta > 0.0 then
                (if max_x aabb \<le> min_x blk \<and> f64 (max_x aabb + delta) > min_x blk
                 then (min (fst acc) (f64 (f64 (f64 (min_x blk) - max_x aabb) - EPSILON)), True)
                 else acc)
              else
                (if min_x aabb \<ge> max_x blk \<and> f64 (min_x aabb + delta) < max_x blk
                 then (max (fst acc) (f64 (f64 (max_x blk - min_x aabb) + EPSILON)), True)
                 else acc)))"

definition sweep_step_y ::
  "(int \<Rightarrow> int \<Rightarrow> int \<Rightarrow> bool) \<Rightarrow> AABB \<Rightarrow> real \<Rightarrow> real \<times> bool \<Rightarrow> int \<times> int \<times> int \<Rightarrow> real \<times> bool" where
  "sweep_step_y solid_at aabb delta acc b =
     (case b of (bx, by, bz) \<Rightarrow>
        if \<not> solid_at bx by bz then acc
        else (let blk = block_aabb bx by bz in
              if max_x aabb \<le> min_x blk \<or> min_x aabb \<ge> max_x blk then acc
              else if max_z aabb \<le> min_z blk \<or> min_z aabb \<ge> max_z blk then acc
              else if delta > 0.0 then
                (if max_y aabb \<le> min_y blk \<and> f64 (max_y aabb + delta) > min_y blk
                 then (min (fst acc) (f64 (f64 (f64 (min_y blk) - max_y aabb) - EPSILON)), True)
                 else acc)
              else
                (if min_y aabb \<ge> max_y blk \<and> f64 (min_y aabb + delta) < max_y blk
                 then (max (fst acc) (f64 (f64 (max_y blk - min_y aabb) + EPSILON)), True)
                 else acc)))"

definition sweep_step_z ::
  "(int \<Rightarrow> int \<Rightarrow> int \<Rightarrow> bool) \<Rightarrow> AABB \<Rightarrow> real \<Rightarrow> real \<times> bool \<Rightarrow> int \<times> int \<times> int \<Rightarrow> real \<times> bool" where
  "sweep_step_z solid_at aabb delta acc b =
     (case b of (bx, by, bz) \<Rightarrow>
        if \<not> solid_at bx by bz then acc
        else (let blk = block_aabb bx by bz in
              if max_x aabb \<le> min_x blk \<or> min_x aabb \<ge> max_x blk then acc
              else if max_y aabb \<le> min_y blk \<or> min_y aabb \<ge> max_y blk then acc
              else if delta > 0.0 then
                (if max_z aabb \<le> min_z blk \<and> f64 (max_z aabb + delta) > min_z blk
                 then (min (fst acc) (f64 (f64 (f64 (min_z blk) - max_z aabb) - EPSILON)), True)
                 else acc)
              else
                (if min_z aabb \<ge> max_z blk \<and> f64 (min_z aabb + delta) < max_z blk
                 then (max (fst acc) (f64 (f64 (max_z blk - min_z aabb) + EPSILON)), True)
                 else acc)))"

text \<open>The block coordinates each branch of \<open>_sweep_axis\<close> visits, in order.\<close>

definition sweep_range :: "AABB \<Rightarrow> real \<Rightarrow> string \<Rightarrow> (int \<times> int \<times> int) list" where
  "sweep_range aabb delta axis =
     (if axis = ''x'' then
        (let sweep_min_x = (if delta > 0.0 then \<lfloor>min_x aabb\<rfloor> else \<lfloor>f64 (min_x aabb + delta)\<rfloor>);
             sweep_max_x = (if delta > 0.0 then \<lfloor>f64 (max_x aabb + delta)\<rfloor> + 1 else \<lfloor>max_x aabb\<rfloor> + 1);
             sweep_min_y = \<lfloor>min_y aabb\<rfloor>;
             sweep_max_y = \<lfloor>max_y aabb\<rfloor> + 1;
             sweep_min_z = \<lfloor>min_z aabb\<rfloor>;
             sweep_max_z = \<lfloor>max_z aabb\<rfloor> + 1
         in sweep_coords sweep_min_x sweep_max_x sweep_min_y sweep_max_y sweep_min_z sweep_max_z)
      else if axis = ''y'' then
        (let sweep_min_x = \<lfloor>min_x aabb\<rfloor>;
             sweep_max_x = \<lfloor>max_x aabb\<rfloor> + 1;
             sweep_min_y = (if delta > 0.0 then \<lfloor>min_y aabb\<rfloor> else \<lfloor>f64 (min_y aabb + delta)\<rfloor>);
             sweep_max_y = (if delta > 0.0 then \<lfloor>f64 (max_y aabb + delta)\<rfloor> + 1 else \<lfloor>max_y aabb\<rfloor> + 1);
             sweep_min_z = \<lfloor>min_z aabb\<rfloor>;
             sweep_max_z = \<lfloor>max_z aabb\<rfloor> + 1
         in sweep_coords sweep_min_x sweep_max_x sweep_min_y sweep_max_y sweep_min_z sweep_max_z)
      else
        (let sweep_min_x = \<lfloor>min_x aabb\<rfloor>;
             sweep_max_x = \<lfloor>max_x aabb\<rfloor> + 1;
             sweep_min_y = \<lfloor>min_y aabb\<rfloor>;
             sweep_max_y = \<lfloor>max_y aabb\<rfloor> + 1;
             sweep_min_z = (if delta > 0.0 then \<lfloor>min_z aabb\<rfloor> else \<lfloor>f64 (min_z aabb + delta)\<rfloor>);
             sweep_max_z = (if delta > 0.0 then \<lfloor>f64 (max_z aabb + delta)\<rfloor> + 1 else \<lfloor>max_z aabb\<rfloor> + 1)
         in sweep_coords sweep_min_x sweep_max_x sweep_min_y sweep_max_y sweep_min_z sweep_max_z))"

definition sweep_step ::
  "string \<Rightarrow> (int \<Rightarrow> int \<Rightarrow> int \<Rightarrow> bool) \<Rightarrow> AABB \<Rightarrow> real \<Rightarrow> real \<times> bool \<Rightarrow> int \<times> int \<times> int \<Rightarrow> real \<times> bool" where
  "sweep_step axis =
     (if axis = ''x'' then sweep_step_x else if axis = ''y'' then sweep_step_y else sweep_step_z)"

text \<open>\<open>_sweep_axis(aabb, delta, axis)\<close> returns \<open>(allowed_delta, hit)\<close>.\<close>

definition sweep_axis ::
  "(int \<Rightarrow> int \<Rightarrow> int \<Rightarrow> bool) \<Rightarrow> AABB \<Rightarrow> real \<Rightarrow> string \<Rightarrow> real \<times> bool" where
  "sweep_axis solid_at aabb delta axis =
     (if delta = 0.0 then (0.0, False)
      else foldl (sweep_step axis solid_at aabb delta) (delta, False) (sweep_range aabb delta axis))"

text \<open>The box after the caller applies the allowed displacement along the swept axis.\<close>

definition moved_along :: "string \<Rightarrow> AABB \<Rightarrow> real \<Rightarrow> AABB" where
  "moved_along axis aabb d =
     (if axis = ''x'' then moved aabb d 0.0 0.0
      else if axis = ''y'' then moved aabb 0.0 d 0.0
      else moved aabb 0.0 0.0 d)"

section \<open>player.py: the player's physics step\<close>

subsection \<open>settings.py: player constants\<close>

text \<open>Each constant is the float its literal denotes.\<close>

definition PLAYER_WIDTH :: real where "PLAYER_WIDTH = f64 0.6"
definition PLAYER_DEPTH :: real where "PLAYER_DEPTH = f64 0.6"
definition PLAYER_HEIGHT :: real where "PLAYER_HEIGHT = f64 1.8"
definition MOVE_SPEED :: real where "MOVE_SPEED = 6.0"
definition AIR_CONTROL :: real where "AIR_CONTROL = 0.25"
definition ACCEL_GROUND :: real where "ACCEL_GROUND = 40.0"
definition ACCEL_AIR :: real where "ACCEL_AIR = f64 (ACCEL_GROUND * AIR_CONTROL)"
definition FRICTION :: real where "FRICTION = 20.0"
definition GRAVITY :: real where "GRAVITY = 26.0"
definition JUMP_SPEED :: real where "JUMP_SPEED = 8.5"

subsection \<open>class Player\<close>

text \<open>
  A panda3d \<open>Vec3\<close>: three single-precision components. Reading a component gives
  its value as a Python float; assigning \<open>v\<close> to a component stores \<open>f32 v\<close>.
\<close>

record Vec3 =
  vec_x :: real
  vec_y :: real
  vec_z :: real

text \<open>
  The fields of \<open>Player\<close> that the physics step reads or writes. The camera, the
  smoothed camera position and the block-breaking state are left out: \<open>update\<close>
  changes them only through \<open>_update_camera\<close>, which does not touch the fields below.
\<close>

record Player =
  game_mode :: string
  yaw :: real
  position :: Vec3
  velocity :: Vec3
  on_ground :: bool
  is_flying :: bool
  last_jump_time :: real
  fly_speed_multiplier :: real
  max_health :: real
  health :: real
  max_hunger :: real
  hunger :: real
  saturation :: real
  fall_start_y :: real
  last_on_ground :: bool
  regen_timer :: real
  hunger_timer :: real
  keys_prev_jump :: bool

text \<open>
  \<open>math.sin\<close> and \<open>math.cos\<close> are the platform's C library functions, whose last
  bit is not fixed by the language; they are parameters of the model.
\<close>

record libm =
  lib_sin :: "real \<Rightarrow> real"
  lib_cos :: "real \<Rightarrow> real"

text \<open>Python's \<open>int(x)\<close> on a float: truncation towards zero.\<close>

definition py_int :: "real \<Rightarrow> int" where
  "py_int v = (if v \<ge> 0 then \<lfloor>v\<rfloor> else \<lceil>v\<rceil>)"

definition take_damage :: "Player \<Rightarrow> real \<Rightarrow> Player" where
  "take_damage p amount =
     (if game_mode p = ''Creative'' then p
      else (let h = f64 (health p - amount) in p\<lparr> health := (if h < 0 then 0 else h) \<rparr>))"

definition heal :: "Player \<Rightarrow> real \<Rightarrow> Player" where
  "heal p amount =
     (let h = f64 (health p + amount) in p\<lparr> health := (if h > max_health p then max_health p else h) \<rparr>)"

definition consume_hunger :: "Player \<Rightarrow> real \<Rightarrow> Player" where
  "consume_hunger p amount =
     (let (sat, amount1) =
            (if saturation p > 0 then
               (let s = f64 (saturation p - amount) in if s < 0 then (0, - s) else (s, 0))
             else (saturation p, amount));
          hun = (if amount1 > 0 then
                   (let h = f64 (hunger p - amount1) in if h < 0 then 0 else h)
                 else hunger p)
      in p\<lparr> saturation := sat, hunger := hun \<rparr>)"

text \<open>\<open>respawn\<close>; \<open>th\<close> is \<open>terrain_height\<close> of util.py.\<close>

definition respawn :: "(int \<Rightarrow> int \<Rightarrow> int) \<Rightarrow> Player \<Rightarrow> Player" where
  "respawn th p =
     (let ground_h = th 0 0;
          pos = \<lparr> vec_x = 0.0, vec_y = f32 (f64 (of_int (ground_h + 3))), vec_z = 0.0 \<rparr>
      in p\<lparr> position := pos,
             velocity := \<lparr> vec_x = 0, vec_y = 0, vec_z = 0 \<rparr>,
             health := max_health p,
             hunger := max_hunger p,
             fall_start_y := vec_y pos \<rparr>)"

definition update_survival :: "(int \<Rightarrow> int \<Rightarrow> int) \<Rightarrow> Player \<Rightarrow> real \<Rightarrow> Player" where
  "update_survival th p dt =
     (if game_mode p = ''Creative'' then p
      else
        (let p1 = (if hunger p > 16 \<and> health p < max_health p then
                     (let q = p\<lparr> regen_timer := f64 (regen_timer p + dt) \<rparr> in
                      if regen_timer q \<ge> 4.0
                      then (consume_hunger (heal q 1.0) 0.25)\<lparr> regen_timer := 0.0 \<rparr>
                      else q)
                   else p);
             p2 = p1\<lparr> hunger_timer := f64 (hunger_timer p1 + dt) \<rparr>;
             p3 = (if hunger_timer p2 \<ge> 30.0
                   then (consume_hunger p2 0.5)\<lparr> hunger_timer := 0.0 \<rparr>
                   else p2)
         in if health p3 \<le> 0 then respawn th p3 else p3))"

definition approach :: "real \<Rightarrow> real \<Rightarrow> real \<Rightarrow> real" where
  "approach current target delta =
     (if current < target then min target (f64 (current + delta))
      else if current > target then max target (f64 (current - delta))
      else current)"

definition player_aabb :: "Player \<Rightarrow> AABB" where
  "player_aabb p =
     (let half_w = f64 (PLAYER_WIDTH * 0.5); half_d = f64 (PLAYER_DEPTH * 0.5) in
      \<lparr> min_x = f64 (vec_x (position p) - half_w),
        min_y = vec_y (position p),
        min_z = f64 (vec_z (position p) - half_d),
        max_x = f64 (vec_x (position p) + half_w),
        max_y = f64 (vec_y (position p) + PLAYER_HEIGHT),
        max_z = f64 (vec_z (position p) + half_d) \<rparr>)"

text \<open>
  \<open>Player.update(keys, dt, move_vec)\<close> in the order of the source. \<open>keys\<close> maps a key
  name to whether it is held (\<open>keys.get(name, False)\<close>), \<open>now\<close> is the value of
  \<open>time.time()\<close> read when jump is newly pressed, \<open>solid_at\<close> is the world's solidity
  query, \<open>lm\<close> the C library's sine and cosine.
\<close>

text \<open>Movement intent and the horizontal velocity (wish direction, friction or acceleration).\<close>

definition update_horizontal ::
  "libm \<Rightarrow> Player \<Rightarrow> (string \<Rightarrow> bool) \<Rightarrow> real \<Rightarrow> (real \<times> real) option \<Rightarrow> Player" where
  "update_horizontal lm p keys dt move_vec =
     (let (move_x, move_y) =
            (case move_vec of
               Some mv \<Rightarrow> (fst mv, snd mv)
             | None \<Rightarrow>
                 (let fwd = (if keys ''forward'' then 1.0 else 0.0);
                      back = (if keys ''back'' then 1.0 else 0.0);
                      left = (if keys ''left'' then 1.0 else 0.0);
                      right = (if keys ''right'' then 1.0 else (0.0 :: real))
                  in (f64 (right - left), f64 (fwd - back))));
          (wish_x, wish_z) =
            (if move_x \<noteq> 0.0 \<or> move_y \<noteq> 0.0 then
               (let yaw_rad = f64 (yaw p * f64 (f64 pi / 180));
                    fwd_x = - lib_sin lm yaw_rad;
                    fwd_z = lib_cos lm yaw_rad;
                    right_x = lib_cos lm yaw_rad;
                    right_z = lib_sin lm yaw_rad;
                    wx = f64 (f64 (fwd_x * move_y) + f64 (right_x * move_x));
                    wz = f64 (f64 (fwd_z * move_y) + f64 (right_z * move_x));
                    len = f64 (sqrt (f64 (f64 (wx * wx) + f64 (wz * wz))))
                in if len > 0.0 then (f64 (wx / len), f64 (wz / len)) else (wx, wz))
             else (0.0, 0.0));
          speed_mult = (if is_flying p then fly_speed_multiplier p else 1.0);
          desired_xz_x = f64 (f64 (wish_x * MOVE_SPEED) * speed_mult);
          desired_xz_z = f64 (f64 (wish_z * MOVE_SPEED) * speed_mult);
          ax = (if on_ground p then ACCEL_GROUND else ACCEL_AIR)
      in if on_ground p \<and> move_x = 0.0 \<and> move_y = 0.0 then
           (let vx = vec_x (velocity p);
                vz = vec_z (velocity p);
                speed = f64 (sqrt (f64 (f64 (vx * vx) + f64 (vz * vz))));
                drop = f64 (FRICTION * dt);
                new_speed = max 0.0 (f64 (speed - drop))
            in if speed > 0.0
               then (let scale = f64 (new_speed / speed) in
                     p\<lparr> velocity := (velocity p)\<lparr> vec_x := f32 (f64 (vx * scale)),
                                                   vec_z := f32 (f64 (vz * scale)) \<rparr> \<rparr>)
               else p)
         else
           p\<lparr> velocity := (velocity p)\<lparr>
                  vec_x := f32 (approach (vec_x (velocity p)) desired_xz_x (f64 (ax * dt))),
                  vec_z := f32 (approach (vec_z (velocity p)) desired_xz_z (f64 (ax * dt))) \<rparr> \<rparr>)"

text \<open>Jump, flight toggle, flight descent, key memory and gravity.\<close>

definition update_vertical :: "Player \<Rightarrow> (string \<Rightarrow> bool) \<Rightarrow> real \<Rightarrow> real \<Rightarrow> Player" where
  "update_vertical p keys dt now =
     (let p1 =
            (if keys ''jump'' then
               (if \<not> keys_prev_jump p then
                  (let q = (if game_mode p = ''Creative'' then
                              (if f64 (now - last_jump_time p) < f64 0.3
                               then p\<lparr> is_flying := \<not> is_flying p,
                                       velocity := (velocity p)\<lparr> vec_y := 0 \<rparr>,
                                       last_jump_time := 0.0 \<rparr>
                               else p\<lparr> last_jump_time := now \<rparr>)
                            else p)
                   in if is_flying q then q\<lparr> velocity := (velocity q)\<lparr> vec_y := f32 JUMP_SPEED \<rparr> \<rparr>
                      else if on_ground q
                      then q\<lparr> velocity := (velocity q)\<lparr> vec_y := f32 JUMP_SPEED \<rparr>, on_ground := False \<rparr>
                      else q)
                else p)
             else (if is_flying p then p\<lparr> velocity := (velocity p)\<lparr> vec_y := 0.0 \<rparr> \<rparr> else p));
          p2 = (if is_flying p1 \<and> keys ''crouch''
                then p1\<lparr> velocity := (velocity p1)\<lparr> vec_y := f32 (- JUMP_SPEED) \<rparr> \<rparr>
                else p1);
          p3 = p2\<lparr> keys_prev_jump := keys ''jump'' \<rparr>
      in if \<not> is_flying p3
         then p3\<lparr> velocity := (velocity p3)\<lparr>
                     vec_y := f32 (f64 (vec_y (velocity p3) - f64 (GRAVITY * dt))) \<rparr> \<rparr>
         else p3)"

text \<open>Integration with collision, one axis after the other: x, then y, then z.\<close>

definition integrate_x :: "(int \<Rightarrow> int \<Rightarrow> int \<Rightarrow> bool) \<Rightarrow> Player \<Rightarrow> AABB \<Rightarrow> real \<Rightarrow> Player \<times> AABB" where
  "integrate_x solid_at p aabb dx =
     (let (allowed_dx, hit_x) = sweep_axis solid_at aabb dx ''x'';
          p1 = (if allowed_dx \<noteq> dx then p\<lparr> velocity := (velocity p)\<lparr> vec_x := 0.0 \<rparr> \<rparr> else p)
      in (p1\<lparr> position := (position p1)\<lparr> vec_x := f32 (f64 (vec_x (position p1) + allowed_dx)) \<rparr> \<rparr>,
          moved aabb allowed_dx 0.0 0.0))"

definition integrate_y :: "(int \<Rightarrow> int \<Rightarrow> int \<Rightarrow> bool) \<Rightarrow> Player \<Rightarrow> AABB \<Rightarrow> real \<Rightarrow> Player \<times> AABB" where
  "integrate_y solid_at p aabb dy =
     (let (allowed_dy, hit_y) = sweep_axis solid_at aabb dy ''y'';
          p1 =
            (if allowed_dy \<noteq> dy then
               (let q =
                      (if dy < 0.0 then
                         (let q1 =
                                (if \<not> on_ground p then
                                   (let fall_distance =
                                          f64 (f64 (fall_start_y p - vec_y (position p)) - allowed_dy) in
                                    if fall_distance > 0 then
                                      (let damage_points = max 0 (py_int (f64 (fall_distance - 3))) in
                                       if damage_points > 0 then take_damage p (f64 (of_int damage_points))
                                       else p)
                                    else p)
                                 else p)
                          in q1\<lparr> on_ground := True,
                                  fall_start_y := f64 (vec_y (position q1) + allowed_dy) \<rparr>)
                       else p)
                in q\<lparr> velocity := (velocity q)\<lparr> vec_y := 0.0 \<rparr> \<rparr>)
             else (if dy > 0.0 then p\<lparr> on_ground := False \<rparr> else p));
          p2 = (if vec_y (velocity p1) > 0
                then p1\<lparr> fall_start_y := max (fall_start_y p1) (f64 (vec_y (position p1) + allowed_dy)) \<rparr>
                else p1);
          p3 = p2\<lparr> position := (position p2)\<lparr> vec_y := f32 (f64 (vec_y (position p2) + allowed_dy)) \<rparr> \<rparr>;
          p4 = (if \<not> on_ground p3 \<and> vec_y (velocity p3) \<le> 0 \<and> last_on_ground p3
                then p3\<lparr> fall_start_y := vec_y (position p3) \<rparr>
                else p3)
      in (p4\<lparr> last_on_ground := on_ground p4 \<rparr>, moved aabb 0.0 allowed_dy 0.0))"

definition integrate_z :: "(int \<Rightarrow> int \<Rightarrow> int \<Rightarrow> bool) \<Rightarrow> Player \<Rightarrow> AABB \<Rightarrow> real \<Rightarrow> Player \<times> AABB" where
  "integrate_z solid_at p aabb dz =
     (let (allowed_dz, hit_z) = sweep_axis solid_at aabb dz ''z'';
          p1 = (if allowed_dz \<noteq> dz then p\<lparr> velocity := (velocity p)\<lparr> vec_z := 0.0 \<rparr> \<rparr> else p)
      in (p1\<lparr> position := (position p1)\<lparr> vec_z := f32 (f64 (vec_z (position p1) + allowed_dz)) \<rparr> \<rparr>,
          moved aabb 0.0 0.0 allowed_dz))"

definition update ::
  "libm \<Rightarrow> (int \<Rightarrow> int \<Rightarrow> int) \<Rightarrow> (int \<Rightarrow> int \<Rightarrow> int \<Rightarrow> bool) \<Rightarrow> real \<Rightarrow> Player
     \<Rightarrow> (string \<Rightarrow> bool) \<Rightarrow> real \<Rightarrow> (real \<times> real) option \<Rightarrow> Player" where
  "update lm th solid_at now p keys dt move_vec =
     (let p1 = update_survival th p dt;
          p2 = update_horizontal lm p1 keys dt move_vec;
          p3 = update_vertical p2 keys dt now;
          dx = f64 (vec_x (velocity p3) * dt);
          dy = f64 (vec_y (velocity p3) * dt);
          dz = f64 (vec_z (velocity p3) * dt);
          aabb = player_aabb p3;
          (p4, aabb1) = integrate_x solid_at p3 aabb dx;
          (p5, aabb2) = integrate_y solid_at p4 aabb1 dy;
          (p6, aabb3) = integrate_z solid_at p5 aabb2 dz
      in p6)"

section \<open>chunk.py: building the mesh of a chunk\<close>

text \<open>
  The vertex writers and the triangle primitive of the source are one growing vertex
  table (position, normal, colour, texture coordinate per row) and one list of index
  triples.
\<close>

record vertex =
  v_pos :: "real \<times> real \<times> real"
  v_normal :: "real \<times> real \<times> real"
  v_color :: "real \<times> real \<times> real \<times> real"
  v_texcoord :: "real \<times> real"

record mesh =
  vertices :: "vertex list"
  triangles :: "(nat \<times> nat \<times> nat) list"

definition empty_mesh :: mesh where
  "empty_mesh = \<lparr> vertices = [], triangles = [] \<rparr>"

text \<open>
  What the mesher takes from other modules: the biome of a column (\<open>get_biome\<close> of
  util.py, here the field \<open>biome_at\<close>), the
  colour table (\<open>face_color\<close>), the texture name of a block face and the atlas lookup
  \<open>tm.get_uvs\<close>, which yields nothing for an unknown texture.
\<close>

record mesh_env =
  biome_at :: "int \<Rightarrow> int \<Rightarrow> string"
  face_color :: "int \<Rightarrow> string \<Rightarrow> string \<Rightarrow> real \<times> real \<times> real \<times> real"
  get_block_texture_name :: "int \<Rightarrow> string \<Rightarrow> string"
  get_uvs :: "string \<Rightarrow> (real \<times> real \<times> real \<times> real) option"

text \<open>\<open>add_quad\<close> of \<open>_make_quad_adder\<close>; a corner is given as \<open>(x, z, y)\<close>.\<close>

definition add_quad ::
  "mesh \<Rightarrow> int \<times> int \<times> int \<Rightarrow> int \<times> int \<times> int \<Rightarrow> int \<times> int \<times> int \<Rightarrow> int \<times> int \<times> int
     \<Rightarrow> real \<times> real \<times> real \<Rightarrow> real \<times> real \<times> real \<times> real \<Rightarrow> real \<times> real \<times> real \<times> real \<Rightarrow> mesh" where
  "add_quad m v0 v1 v2 v3 normal color uvs =
     (let base = length (vertices m);
          (nx, ny, nz) = normal;
          shade_factor = (if nz > 0.5 then 1.0
                          else if nz < - 0.5 then 0.5
                          else if \<bar>nx\<bar> > 0.5 then 0.75
                          else 0.85);
          (r, g, b, a) = color;
          col = (r * shade_factor, g * shade_factor, b * shade_factor, a);
          offset = 0.001;
          (u_min, v_min, u_max, v_max) = uvs;
          quad_uvs = [(u_min, v_min), (u_max, v_min), (u_max, v_max), (u_min, v_max)];
          rows = map (\<lambda>(uv, (x, z, y)).
                        \<lparr> v_pos = (of_int x + nx * offset, of_int z + ny * offset, of_int y + nz * offset),
                          v_normal = (nx, ny, nz),
                          v_color = col,
                          v_texcoord = uv \<rparr>)
                     (zip quad_uvs [v0, v1, v2, v3])
      in \<lparr> vertices = vertices m @ rows,
           triangles = triangles m @ [(base + 0, base + 1, base + 2), (base + 0, base + 2, base + 3)] \<rparr>)"

text \<open>
  The texture rectangle of a face: the named texture, else the stone texture, else the
  whole atlas.
\<close>

definition lookup_uvs :: "mesh_env \<Rightarrow> string \<Rightarrow> real \<times> real \<times> real \<times> real" where
  "lookup_uvs env tex_name =
     (case get_uvs env tex_name of
        Some uvs \<Rightarrow> uvs
      | None \<Rightarrow> (case get_uvs env ''stone'' of Some uvs \<Rightarrow> uvs | None \<Rightarrow> (0, 0, 1, 1)))"

text \<open>
  The body of the three nested loops of \<open>Chunk.build_mesh\<close> for one local coordinate.
\<close>

definition mesh_cell ::
  "mesh_env \<Rightarrow> (int \<Rightarrow> int \<Rightarrow> int \<Rightarrow> bool) \<Rightarrow> Chunk \<Rightarrow> int \<times> int \<times> int \<Rightarrow> mesh \<Rightarrow> error + mesh" where
  "mesh_cell env is_world_solid c cell m =
     (case cell of (lx, y, lz) \<Rightarrow>
      case get_block_local c lx y lz of
        Inl e \<Rightarrow> Inl e
      | Inr block_id \<Rightarrow>
          if \<not> is_block_solid block_id then Inr m
          else
            (let wx = chunk_cx c * CHUNK_SIZE_X + lx;
                 wz = chunk_cz c * CHUNK_SIZE_Z + lz;
                 biome = (if block_id = BLOCK_GRASS then biome_at env wx wz else ''plains'')
             in if is_world_solid wx (y + 1) wz
                   \<and> (y = 0 \<or> is_world_solid wx (y - 1) wz)
                   \<and> is_world_solid (wx + 1) y wz
                   \<and> is_world_solid (wx - 1) y wz
                   \<and> is_world_solid wx y (wz + 1)
                   \<and> is_world_solid wx y (wz - 1)
                then Inr m
                else
                  (let m1 = (if \<not> is_world_solid wx (y + 1) wz then
                               add_quad m (lx, lz, y + 1) (lx + 1, lz, y + 1)
                                 (lx + 1, lz + 1, y + 1) (lx, lz + 1, y + 1)
                                 (0.0, 0.0, 1.0)
                                 (face_color env block_id ''top'' biome)
                                 (lookup_uvs env (get_block_texture_name env block_id ''top''))
                             else m);
                       m2 = (if y = 0 \<or> \<not> is_world_solid wx (y - 1) wz then
                               add_quad m1 (lx, lz + 1, y) (lx + 1, lz + 1, y)
                                 (lx + 1, lz, y) (lx, lz, y)
                                 (0.0, 0.0, - 1.0)
                                 (face_color env block_id ''bottom'' biome)
                                 (lookup_uvs env (get_block_texture_name env block_id ''bottom''))
                             else m1);
                       m3 = (if \<not> is_world_solid (wx + 1) y wz then
                               add_quad m2 (lx + 1, lz, y) (lx + 1, lz + 1, y)
                                 (lx + 1, lz + 1, y + 1) (lx + 1, lz, y + 1)
                                 (1.0, 0.0, 0.0)
                                 (face_color env block_id ''side'' biome)
                                 (lookup_uvs env (get_block_texture_name env block_id ''side''))
                             else m2);
                       m4 = (if \<not> is_world_solid (wx - 1) y wz then
                               add_quad m3 (lx, lz + 1, y) (lx, lz, y)
                                 (lx, lz, y + 1) (lx, lz + 1, y + 1)
                                 (- 1.0, 0.0, 0.0)
                                 (face_color env block_id ''side'' biome)
                                 (lookup_uvs env (get_block_texture_name env block_id ''side''))
                             else m3);
                       m5 = (if \<not> is_world_solid wx y (wz + 1) then
                               add_quad m4 (lx + 1, lz + 1, y) (lx, lz + 1, y)
                                 (lx, lz + 1, y + 1) (lx + 1, lz + 1, y + 1)
                                 (0.0, 1.0, 0.0)
                                 (face_color env block_id ''side'' biome)
                                 (lookup_uvs env (get_block_texture_name env block_id ''side''))
                             else m4);
                       m6 = (if \<not> is_world_solid wx y (wz - 1) then
                               add_quad m5 (lx, lz, y) (lx + 1, lz, y)
                                 (lx + 1, lz, y + 1) (lx, lz, y + 1)
                                 (0.0, - 1.0, 0.0)
                                 (face_color env block_id ''side'' biome)
                                 (lookup_uvs env (get_block_texture_name env block_id ''side''))
                             else m5)
                   in Inr m6)))"

text \<open>The loops: \<open>y\<close> outermost, then \<open>lz\<close>, then \<open>lx\<close>; an exception ends them.\<close>

definition mesh_cells :: "(int \<times> int \<times> int) list" where
  "mesh_cells =
     concat (map (\<lambda>y. concat (map (\<lambda>lz. map (\<lambda>lx. (lx, y, lz)) [0..CHUNK_SIZE_X - 1])
                                  [0..CHUNK_SIZE_Z - 1]))
                 [0..CHUNK_SIZE_Y - 1])"

fun mesh_loop ::
  "mesh_env \<Rightarrow> (int \<Rightarrow> int \<Rightarrow> int \<Rightarrow> bool) \<Rightarrow> Chunk \<Rightarrow> mesh \<Rightarrow> (int \<times> int \<times> int) list \<Rightarrow> error + mesh" where
  "mesh_loop env is_world_solid c m [] = Inr m"
| "mesh_loop env is_world_solid c m (cell # cells) =
     (case mesh_cell env is_world_solid c cell m of
        Inl e \<Rightarrow> Inl e
      | Inr m' \<Rightarrow> mesh_loop env is_world_solid c m' cells)"

text \<open>
  \<open>build_mesh\<close> returns the mesh, or \<open>None\<close> when it has no triangle, and the chunk:
  \<open>dirty\<close> is cleared only when a mesh was built.
\<close>

definition build_mesh ::
  "mesh_env \<Rightarrow> (int \<Rightarrow> int \<Rightarrow> int \<Rightarrow> bool) \<Rightarrow> Chunk \<Rightarrow> error + (mesh option \<times> Chunk)" where
  "build_mesh env is_world_solid c =
     (case mesh_loop env is_world_solid c empty_mesh mesh_cells of
        Inl e \<Rightarrow> Inl e
      | Inr m \<Rightarrow>
          if length (triangles m) = 0 then Inr (None, c)
          else Inr (Some m, c\<lparr> dirty := False \<rparr>))"

section \<open>util.py: seeded noise, column height and biome\<close>

subsection \<open>settings.py: world generation constants\<close>

definition BASE_HEIGHT :: real where "BASE_HEIGHT = 18"
definition HILL_AMPLITUDE :: real where "HILL_AMPLITUDE = 8"
definition HILL_FREQ_X :: real where "HILL_FREQ_X = 0.02"
definition HILL_FREQ_Z :: real where "HILL_FREQ_Z = 0.02"
definition SEMI_FLAT_LARGE_FREQ :: real where "SEMI_FLAT_LARGE_FREQ = 0.005"
definition SEMI_FLAT_MEDIUM_FREQ :: real where "SEMI_FLAT_MEDIUM_FREQ = 0.015"
definition SEMI_FLAT_SMALL_FREQ :: real where "SEMI_FLAT_SMALL_FREQ = 0.04"
definition SEMI_FLAT_THRESHOLD :: real where "SEMI_FLAT_THRESHOLD = 0.2"
definition SEMI_FLAT_FACTOR :: real where "SEMI_FLAT_FACTOR = 0.23"
definition SMALL_MOUNTAIN_FREQ :: real where "SMALL_MOUNTAIN_FREQ = 0.015"
definition SMALL_MOUNTAIN_AMP :: real where "SMALL_MOUNTAIN_AMP = 15"
definition BIG_MOUNTAIN_FREQ :: real where "BIG_MOUNTAIN_FREQ = 0.005"
definition BIG_MOUNTAIN_AMP :: real where "BIG_MOUNTAIN_AMP = 40"
definition OCTAVE_COUNT :: nat where "OCTAVE_COUNT = 2"
definition OCTAVE_PERSISTENCE :: real where "OCTAVE_PERSISTENCE = 0.5"
definition OCTAVE_LACUNARITY :: real where "OCTAVE_LACUNARITY = 2.0"

subsection \<open>The module's global state\<close>

text \<open>
  The two globals the generator reads: the permutation table \<open>_PERM\<close> of util.py and
  \<open>settings.SEED\<close>. Python's \<open>random.Random(seed).shuffle\<close> is not modelled; it is
  passed in as a function \<open>shuffle seed xs\<close> of the seed and the list.
\<close>

record noise_state =
  PERM :: "int list"
  SEED :: int

text \<open>The state right after the module is imported, before \<open>_init_simplex_noise()\<close>.\<close>

definition module_state :: noise_state where
  "module_state = \<lparr> PERM = [0..255], SEED = 1337 \<rparr>"

definition init_simplex_noise ::
  "(int \<Rightarrow> int list \<Rightarrow> int list) \<Rightarrow> int option \<Rightarrow> noise_state \<Rightarrow> noise_state" where
  "init_simplex_noise shuffle seed_arg s =
     (let seed = (case seed_arg of None \<Rightarrow> SEED s | Some v \<Rightarrow> v);
          perm = shuffle seed [0..255]
      in s\<lparr> PERM := perm @ perm \<rparr>)"

definition set_world_seed ::
  "(int \<Rightarrow> int list \<Rightarrow> int list) \<Rightarrow> int \<Rightarrow> noise_state \<Rightarrow> noise_state" where
  "set_world_seed shuffle seed s = init_simplex_noise shuffle (Some seed) (s\<lparr> SEED := seed \<rparr>)"

subsection \<open>Simplex noise\<close>

definition bind_err :: "error + 'a \<Rightarrow> ('a \<Rightarrow> error + 'b) \<Rightarrow> error + 'b" where
  "bind_err r f = (case r of Inl e \<Rightarrow> Inl e | Inr v \<Rightarrow> f v)"

text \<open>
  Indexing a Python list: positions \<open>0 .. len - 1\<close> from the front, \<open>-1 .. -len\<close>
  from the back, anything else raises.
\<close>

definition list_get :: "int list \<Rightarrow> int \<Rightarrow> error + int" where
  "list_get xs i =
     (if 0 \<le> i \<and> i < int (length xs) then Inr (xs ! nat i)
      else if i < 0 \<and> - int (length xs) \<le> i then Inr (xs ! nat (int (length xs) + i))
      else Inl IndexError)"

definition GRAD3 :: "(real \<times> real \<times> real) list" where
  "GRAD3 =
     [(1, 1, 0), (- 1, 1, 0), (1, - 1, 0), (- 1, - 1, 0),
      (1, 0, 1), (- 1, 0, 1), (1, 0, - 1), (- 1, 0, - 1),
      (0, 1, 1), (0, - 1, 1), (0, 1, - 1), (0, - 1, - 1)]"

definition dot2 :: "real \<times> real \<times> real \<Rightarrow> real \<Rightarrow> real \<Rightarrow> real" where
  "dot2 g x y = fst g * x + fst (snd g) * y"

text \<open>\<open>int(v) if v > 0 else int(v) - 1\<close>\<close>

definition cell_index :: "real \<Rightarrow> int" where
  "cell_index v = (if v > 0 then py_int v else py_int v - 1)"

text \<open>\<open>_PERM[a + _PERM[b]] % 12\<close>; the inner lookup first.\<close>

definition gradient_index :: "int list \<Rightarrow> int \<Rightarrow> int \<Rightarrow> error + nat" where
  "gradient_index perm a b =
     bind_err (list_get perm b) (\<lambda>pb.
     bind_err (list_get perm (a + pb)) (\<lambda>v. Inr (nat (v mod 12))))"

text \<open>The contribution of one corner: \<open>t *= t; n = t * t * dot\<close> unless \<open>t < 0\<close>.\<close>

definition corner2 :: "nat \<Rightarrow> real \<Rightarrow> real \<Rightarrow> real" where
  "corner2 gi x y =
     (let t = 0.5 - x * x - y * y in
      if t < 0 then 0.0
      else (let t2 = t * t in t2 * t2 * dot2 (GRAD3 ! gi) x y))"

definition simplex_noise_2d :: "noise_state \<Rightarrow> real \<Rightarrow> real \<Rightarrow> error + real" where
  "simplex_noise_2d s x y =
     (let F2 = 0.5 * (sqrt 3.0 - 1.0);
          G2 = (3.0 - sqrt 3.0) / 6.0;
          sk = (x + y) * F2;
          i = cell_index (x + sk);
          j = cell_index (y + sk);
          t = of_int (i + j) * G2;
          X0 = of_int i - t;
          Y0 = of_int j - t;
          x0 = x - X0;
          y0 = y - Y0;
          (i1, j1) = (if x0 > y0 then (1, 0) else (0, 1));
          x1 = x0 - of_int i1 + G2;
          y1 = y0 - of_int j1 + G2;
          x2 = x0 - 1.0 + 2.0 * G2;
          y2 = y0 - 1.0 + 2.0 * G2;
          ii = i mod 256;
          jj = j mod 256
      in bind_err (gradient_index (PERM s) ii jj) (\<lambda>gi0.
         bind_err (gradient_index (PERM s) (ii + i1) (jj + j1)) (\<lambda>gi1.
         bind_err (gradient_index (PERM s) (ii + 1) (jj + 1)) (\<lambda>gi2.
         Inr (70.0 * (corner2 gi0 x0 y0 + corner2 gi1 x1 y1 + corner2 gi2 x2 y2))))))"

subsection \<open>\<open>terrain_height\<close> and \<open>get_biome\<close>\<close>

text \<open>The octave loop: \<open>n\<close> rounds left, running total \<open>tot\<close>, \<open>amplitude\<close>, \<open>frequency\<close>, \<open>max_value\<close>.\<close>

fun octaves ::
  "noise_state \<Rightarrow> real \<Rightarrow> real \<Rightarrow> nat \<Rightarrow> real \<Rightarrow> real \<Rightarrow> real \<Rightarrow> real \<Rightarrow> error + (real \<times> real)" where
  "octaves s x z 0 tot amplitude frequency max_value = Inr (tot, max_value)"
| "octaves s x z (Suc n) tot amplitude frequency max_value =
     bind_err (simplex_noise_2d s (x * frequency) (z * frequency)) (\<lambda>v.
       octaves s x z n (tot + v * amplitude) (amplitude * OCTAVE_PERSISTENCE)
         (frequency * OCTAVE_LACUNARITY) (max_value + amplitude))"

text \<open>The mountain overlay added to the blended height.\<close>

definition mountain_height :: "noise_state \<Rightarrow> int \<Rightarrow> int \<Rightarrow> error + real" where
  "mountain_height s wx wz =
     bind_err (simplex_noise_2d s (of_int wx * 0.004) (of_int wz * 0.004)) (\<lambda>mountain_mask.
       let threshold = 0.2 in
       if mountain_mask > threshold then
         (let mask_strength = (mountain_mask - threshold) / (1.0 - threshold) in
          bind_err (simplex_noise_2d s (of_int wx * SMALL_MOUNTAIN_FREQ) (of_int wz * SMALL_MOUNTAIN_FREQ)) (\<lambda>sm.
          let small_m = (sm + 1.0) * 0.5 * SMALL_MOUNTAIN_AMP in
          bind_err (simplex_noise_2d s (of_int wx * BIG_MOUNTAIN_FREQ) (of_int wz * BIG_MOUNTAIN_FREQ)) (\<lambda>bm.
          let big_m0 = (bm + 1.0) * 0.5;
              big_m = big_m0 * big_m0 * big_m0 * BIG_MOUNTAIN_AMP;
              mask_strength1 = mask_strength * mask_strength * (3 - 2 * mask_strength)
          in Inr ((small_m + big_m) * mask_strength1))))
       else Inr 0)"

text \<open>The semi-flat damping applied to the height so far.\<close>

definition semi_flat :: "noise_state \<Rightarrow> int \<Rightarrow> int \<Rightarrow> real \<Rightarrow> error + real" where
  "semi_flat s wx wz blended_height =
     bind_err (simplex_noise_2d s (of_int wx * SEMI_FLAT_LARGE_FREQ) (of_int wz * SEMI_FLAT_LARGE_FREQ)) (\<lambda>large_flat.
     bind_err (simplex_noise_2d s (of_int wx * SEMI_FLAT_MEDIUM_FREQ) (of_int wz * SEMI_FLAT_MEDIUM_FREQ)) (\<lambda>medium_flat.
     bind_err (simplex_noise_2d s (of_int wx * SEMI_FLAT_SMALL_FREQ) (of_int wz * SEMI_FLAT_SMALL_FREQ)) (\<lambda>small_flat.
       let f0 = 0.0;
           f1 = (if large_flat > SEMI_FLAT_THRESHOLD then max f0 (large_flat - SEMI_FLAT_THRESHOLD) else f0);
           f2 = (if medium_flat > SEMI_FLAT_THRESHOLD then max f1 (medium_flat - SEMI_FLAT_THRESHOLD) else f1);
           flatness_strength =
             (if small_flat > SEMI_FLAT_THRESHOLD then max f2 (small_flat - SEMI_FLAT_THRESHOLD) else f2)
       in if flatness_strength > 0.0 then
            (let blend_factor = min (flatness_strength * 3.0) 1.0;
                 current_deviation = blended_height - BASE_HEIGHT;
                 dampened_deviation = current_deviation * SEMI_FLAT_FACTOR;
                 semi_flat_height = BASE_HEIGHT + dampened_deviation
             in Inr (blended_height * (1.0 - blend_factor) + semi_flat_height * blend_factor))
          else Inr blended_height)))"

definition terrain_height :: "noise_state \<Rightarrow> int \<Rightarrow> int \<Rightarrow> string \<Rightarrow> real \<Rightarrow> error + int" where
  "terrain_height s wx wz biome desert_weight =
     (let x = of_int wx * HILL_FREQ_X;
          z = of_int wz * HILL_FREQ_Z
      in bind_err (octaves s x z OCTAVE_COUNT 0.0 1.0 1.0 0.0) (\<lambda>(tot0, max_value).
         let tot = tot0 / max_value;
             plains_height = BASE_HEIGHT + HILL_AMPLITUDE * tot;
             desert_base = BASE_HEIGHT * 0.98;
             desert_amplitude = HILL_AMPLITUDE * 0.92;
             desert_tot = tot * 0.95;
             desert_height = desert_base + desert_amplitude * desert_tot;
             blended0 = plains_height * (1.0 - desert_weight) + desert_height * desert_weight;
             blended1 = (if biome = ''jungle''
                         then BASE_HEIGHT * 1.05 + (HILL_AMPLITUDE * 1.5) * tot
                         else blended0)
         in bind_err (mountain_height s wx wz) (\<lambda>mh.
            bind_err (semi_flat s wx wz (blended1 + mh)) (\<lambda>blended_height.
            let height = py_int blended_height;
                height1 = (if height < 1 then 1 else height)
            in Inr (if height1 \<ge> CHUNK_SIZE_Y then CHUNK_SIZE_Y - 1 else height1)))))"

definition get_biome :: "noise_state \<Rightarrow> int \<Rightarrow> int \<Rightarrow> error + string" where
  "get_biome s wx wz =
     bind_err (simplex_noise_2d s (of_int wx * 0.003) (of_int wz * 0.003)) (\<lambda>continental_noise.
     bind_err (simplex_noise_2d s (of_int wx * 0.008) (of_int wz * 0.008)) (\<lambda>regional_noise.
     bind_err (simplex_noise_2d s (of_int wx * 0.02) (of_int wz * 0.02)) (\<lambda>local_noise.
     bind_err (simplex_noise_2d s (of_int wx * 0.012 + 100.0) (of_int wz * 0.012 + 100.0)) (\<lambda>variation_noise.
     let combined_noise = continental_noise * 0.5 + regional_noise * 0.25
                          + local_noise * 0.15 + variation_noise * 0.1
     in bind_err (simplex_noise_2d s (of_int wx * 0.001) (of_int wz * 0.001)) (\<lambda>tv.
        let threshold_variation = tv * 0.1;
            desert_threshold = - 0.5 + threshold_variation
        in if combined_noise < desert_threshold then Inr ''desert''
           else (let jungle_threshold = 0.3 + threshold_variation in
                 if combined_noise > jungle_threshold then Inr ''jungle''
                 else Inr ''plains''))))))"

subsection \<open>Caves: \<open>get_chunk_worms\<close> and \<open>generate_chunk_caves\<close>\<close>

text \<open>
  A worm as \<open>get_chunk_worms\<close> returns it. The worms that start in a chunk are drawn
  from a \<open>random.Random\<close> seeded by the chunk coordinates; that generator is not
  modelled, and \<open>get_chunk_worms\<close> is passed in as a function of the chunk coordinates.
\<close>

record worm =
  worm_x :: real
  worm_y :: real
  worm_z :: real
  worm_yaw :: real
  worm_pitch :: real
  worm_length :: int
  worm_radius :: real
  worm_seed :: int

text \<open>A \<open>for\<close> loop over a list whose body may raise: the first exception ends it.\<close>

fun fold_err :: "('a \<Rightarrow> 'b \<Rightarrow> error + 'b) \<Rightarrow> 'a list \<Rightarrow> 'b \<Rightarrow> error + 'b" where
  "fold_err f [] acc = Inr acc"
| "fold_err f (x # xs) acc = bind_err (f x acc) (fold_err f xs)"

text \<open>
  The cells one step carves: the blocks of the sphere around the worm that lie in the
  target chunk and in the rows \<open>1 .. SY - 2\<close>, as local coordinates, in loop order.
\<close>

definition sphere_cells ::
  "int \<Rightarrow> int \<Rightarrow> int \<Rightarrow> int \<Rightarrow> real \<Rightarrow> real \<Rightarrow> real \<Rightarrow> real \<Rightarrow> (int \<times> int \<times> int) list" where
  "sphere_cells min_wx max_wx min_wz max_wz wx wy wz radius =
     (let s_min_x = py_int (wx - radius);
          s_max_x = py_int (wx + radius + 1);
          s_min_z = py_int (wz - radius);
          s_max_z = py_int (wz + radius + 1);
          s_min_y = py_int (wy - radius);
          s_max_y = py_int (wy + radius + 1)
      in if s_max_x \<ge> min_wx \<and> s_min_x < max_wx \<and> s_max_z \<ge> min_wz \<and> s_min_z < max_wz then
           (let iter_min_x = max s_min_x min_wx;
                iter_max_x = min s_max_x max_wx;
                iter_min_z = max s_min_z min_wz;
                iter_max_z = min s_max_z max_wz;
                iter_min_y = max s_min_y 1;
                iter_max_y = min s_max_y (CHUNK_SIZE_Y - 1);
                r_sq = radius * radius
            in concat (map (\<lambda>bx.
                 concat (map (\<lambda>bz.
                   concat (map (\<lambda>by.
                     let dx = of_int bx - wx;
                         dy = of_int by - wy;
                         dz = of_int bz - wz
                     in if dx * dx + dy * dy + dz * dz < r_sq
                        then [(bx - min_wx, by, bz - min_wz)]
                        else [])
                   [iter_min_y..iter_max_y - 1]))
                 [iter_min_z..iter_max_z - 1]))
               [iter_min_x..iter_max_x - 1]))
         else [])"

text \<open>The loop state of one worm: the set carved so far, position and heading.\<close>

record walk =
  carved :: "(int \<times> int \<times> int) set"
  at_x :: real
  at_y :: real
  at_z :: real
  heading_yaw :: real
  heading_pitch :: real

text \<open>One iteration of \<open>for step in range(length)\<close>: carve, then turn and move.\<close>

definition worm_step ::
  "noise_state \<Rightarrow> int \<Rightarrow> int \<Rightarrow> int \<Rightarrow> int \<Rightarrow> real \<Rightarrow> int \<Rightarrow> int \<Rightarrow> walk \<Rightarrow> error + walk" where
  "worm_step s min_wx max_wx min_wz max_wz radius w_seed step w =
     (let carved1 = carved w \<union>
            set (sphere_cells min_wx max_wx min_wz max_wz (at_x w) (at_y w) (at_z w) radius);
          noise_scale = 0.1
      in bind_err (simplex_noise_2d s (of_int step * noise_scale) (of_int w_seed * 0.01)) (\<lambda>n1.
         bind_err (simplex_noise_2d s (of_int step * noise_scale) (of_int w_seed * 0.01 + 100)) (\<lambda>n2.
         let yaw_change = n1 * 0.4;
             pitch_change = n2 * 0.4;
             yaw1 = heading_yaw w + yaw_change;
             pitch1 = max (- 1.0) (min 1.0 (heading_pitch w + pitch_change));
             speed = 1.0
         in Inr \<lparr> carved = carved1,
                  at_x = at_x w + cos yaw1 * cos pitch1 * speed,
                  at_y = at_y w + sin pitch1 * speed,
                  at_z = at_z w + sin yaw1 * cos pitch1 * speed,
                  heading_yaw = yaw1,
                  heading_pitch = pitch1 \<rparr>)))"

text \<open>The body of \<open>for worm in worms\<close>: the distance check, then the walk.\<close>

definition worm_carve ::
  "noise_state \<Rightarrow> int \<Rightarrow> int \<Rightarrow> int \<Rightarrow> int \<Rightarrow> worm \<Rightarrow> (int \<times> int \<times> int) set
     \<Rightarrow> error + (int \<times> int \<times> int) set" where
  "worm_carve s min_wx max_wx min_wz max_wz wm acc =
     (let ccx = min_wx + 8;
          ccz = min_wz + 8;
          dist = \<bar>worm_x wm - of_int ccx\<bar> + \<bar>worm_z wm - of_int ccz\<bar>
      in if dist > of_int (worm_length wm + 20) then Inr acc
         else bind_err
                (fold_err (worm_step s min_wx max_wx min_wz max_wz (worm_radius wm) (worm_seed wm))
                   [0..worm_length wm - 1]
                   \<lparr> carved = acc, at_x = worm_x wm, at_y = worm_y wm, at_z = worm_z wm,
                     heading_yaw = worm_yaw wm, heading_pitch = worm_pitch wm \<rparr>)
                (\<lambda>w. Inr (carved w)))"

definition generate_chunk_caves ::
  "noise_state \<Rightarrow> (int \<Rightarrow> int \<Rightarrow> worm list) \<Rightarrow> int \<Rightarrow> int \<Rightarrow> error + (int \<times> int \<times> int) set" where
  "generate_chunk_caves s get_chunk_worms cx cz =
     (let neighbor_radius = 3;
          min_wx = cx * CHUNK_SIZE_X;
          max_wx = min_wx + CHUNK_SIZE_X;
          min_wz = cz * CHUNK_SIZE_Z;
          max_wz = min_wz + CHUNK_SIZE_Z
      in fold_err (\<lambda>ncx.
           fold_err (\<lambda>ncz.
             fold_err (worm_carve s min_wx max_wx min_wz max_wz) (get_chunk_worms ncx ncz))
           [cz - neighbor_radius..cz + neighbor_radius])
         [cx - neighbor_radius..cx + neighbor_radius] {})"

subsection \<open>Calls as state transitions\<close>

text \<open>
  A call of the module from outside: reseeding, or one of the two queries. A call
  returns its result, if any, and the state it leaves.
\<close>

datatype call =
  SetWorldSeed int
| TerrainHeight int int string real
| GetBiome int int

datatype answer = NoAnswer | Height "error + int" | Biome "error + string"

fun exec_call ::
  "(int \<Rightarrow> int list \<Rightarrow> int list) \<Rightarrow> call \<Rightarrow> noise_state \<Rightarrow> answer \<times> noise_state" where
  "exec_call shuffle (SetWorldSeed seed) s = (NoAnswer, set_world_seed shuffle seed s)"
| "exec_call shuffle (TerrainHeight wx wz biome desert_weight) s =
     (Height (terrain_height s wx wz biome desert_weight), s)"
| "exec_call shuffle (GetBiome wx wz) s = (Biome (get_biome s wx wz), s)"

text \<open>A sequence of calls, from the left; the state after the last one.\<close>

fun run_calls ::
  "(int \<Rightarrow> int list \<Rightarrow> int list) \<Rightarrow> call list \<Rightarrow> noise_state \<Rightarrow> noise_state" where
  "run_calls shuffle [] s = s"
| "run_calls shuffle (c # cs) s = run_calls shuffle cs (snd (exec_call shuffle c s))"

text \<open>A process: the module is imported and initialised, then the calls are made.\<close>

definition process_run ::
  "(int \<Rightarrow> int list \<Rightarrow> int list) \<Rightarrow> call list \<Rightarrow> noise_state" where
  "process_run shuffle cs = run_calls shuffle cs (init_simplex_noise shuffle None module_state)"

text \<open>A call that leaves the seed at \<open>seed\<close>: a query, or reseeding with \<open>seed\<close> itself.\<close>

fun keeps_seed :: "int \<Rightarrow> call \<Rightarrow> bool" where
  "keeps_seed seed (SetWorldSeed v) = (v = seed)"
| "keeps_seed seed (TerrainHeight wx wz biome desert_weight) = True"
| "keeps_seed seed (GetBiome wx wz) = True"


subsection \<open>Auxiliary notions used to state the properties\<close>

text \<open>
  The cell of world coordinate \<open>(wx, wy, wz)\<close> holds \<open>b\<close>: the chunk that contains the
  coordinate, \<open>(wx div SX, wz div SZ)\<close>, is loaded and reading its grid at the local
  coordinate \<open>(wx mod SX, wy, wz mod SZ)\<close> gives \<open>b\<close>.
\<close>

definition cell_holds :: "World \<Rightarrow> int \<Rightarrow> int \<Rightarrow> int \<Rightarrow> int \<Rightarrow> bool" where
  "cell_holds w wx wy wz b =
     (case chunks w (wx div CHUNK_SIZE_X, wz div CHUNK_SIZE_Z) of
        None \<Rightarrow> False
      | Some chunk \<Rightarrow>
          get_block_local chunk (wx mod CHUNK_SIZE_X) wy (wz mod CHUNK_SIZE_Z) = Inr b)"

text \<open>Every loaded chunk has a grid of exactly \<open>SX * SY * SZ\<close> cells.\<close>

definition grids_ok :: "World \<Rightarrow> bool" where
  "grids_ok w =
     (\<forall>k c. chunks w k = Some c \<longrightarrow>
        length (blocks c) = nat (CHUNK_SIZE_X * CHUNK_SIZE_Y * CHUNK_SIZE_Z))"

text \<open>
  A box with \<open>min \<le> max\<close> on each axis and every coordinate of magnitude at most
  \<open>2 ^ 30\<close>.
\<close>

definition box_in_range :: "AABB \<Rightarrow> bool" where
  "box_in_range aabb =
     (min_x aabb \<le> max_x aabb \<and> min_y aabb \<le> max_y aabb \<and> min_z aabb \<le> max_z aabb
      \<and> - (2 ^ 30) \<le> min_x aabb \<and> max_x aabb \<le> 2 ^ 30
      \<and> - (2 ^ 30) \<le> min_y aabb \<and> max_y aabb \<le> 2 ^ 30
      \<and> - (2 ^ 30) \<le> min_z aabb \<and> max_z aabb \<le> 2 ^ 30)"

text \<open>
  The unit cube of block \<open>(bx, by, bz)\<close> lies in the path of the box: on the two other
  axes the cube \<open>[b, b + 1]\<close> and the box overlap in more than a face, and along the axis
  of the displacement the cube's near face is at or beyond the box's leading face and
  strictly before the place where the full displacement \<open>delta\<close> would take that face.
\<close>

definition ahead :: "real \<Rightarrow> real \<Rightarrow> real \<Rightarrow> int \<Rightarrow> bool" where
  "ahead lo hi delta b =
     ((0 < delta \<and> hi \<le> of_int b \<and> of_int b < hi + delta)
      \<or> (delta < 0 \<and> of_int b + 1 \<le> lo \<and> lo + delta < of_int b + 1))"

definition beside :: "real \<Rightarrow> real \<Rightarrow> int \<Rightarrow> bool" where
  "beside lo hi b = (lo < of_int b + 1 \<and> of_int b < hi)"

definition in_path :: "string \<Rightarrow> AABB \<Rightarrow> real \<Rightarrow> int \<times> int \<times> int \<Rightarrow> bool" where
  "in_path axis aabb delta b =
     (case b of (bx, by, bz) \<Rightarrow>
        if axis = ''x'' then
          ahead (min_x aabb) (max_x aabb) delta bx
          \<and> beside (min_y aabb) (max_y aabb) by \<and> beside (min_z aabb) (max_z aabb) bz
        else if axis = ''y'' then
          ahead (min_y aabb) (max_y aabb) delta by
          \<and> beside (min_x aabb) (max_x aabb) bx \<and> beside (min_z aabb) (max_z aabb) bz
        else
          ahead (min_z aabb) (max_z aabb) delta bz
          \<and> beside (min_x aabb) (max_x aabb) bx \<and> beside (min_y aabb) (max_y aabb) by)"

text \<open>
  A solid floor whose top surface is at \<open>y = 10\<close> under the box: among the columns
  of blocks that the box stands over, one has a solid block at \<open>by = 9\<close>, and none has
  a solid block higher up that starts below the upper face of the box.
\<close>

definition floor_at_10 :: "(int \<Rightarrow> int \<Rightarrow> int \<Rightarrow> bool) \<Rightarrow> AABB \<Rightarrow> bool" where
  "floor_at_10 solid_at aabb =
     ((\<exists>bx bz. solid_at bx 9 bz
          \<and> beside (min_x aabb) (max_x aabb) bx \<and> beside (min_z aabb) (max_z aabb) bz)
      \<and> (\<forall>bx by bz. solid_at bx by bz
            \<and> beside (min_x aabb) (max_x aabb) bx \<and> beside (min_z aabb) (max_z aabb) bz
            \<and> of_int by < max_y aabb
          \<longrightarrow> by \<le> 9))"

text \<open>
  The test of the loop body: the loops visit the block and its body takes the branch
  that clamps \<open>allowed\<close> and sets \<open>hit\<close>.
\<close>

definition blocks_sweep ::
  "(int \<Rightarrow> int \<Rightarrow> int \<Rightarrow> bool) \<Rightarrow> AABB \<Rightarrow> real \<Rightarrow> string \<Rightarrow> int \<times> int \<times> int \<Rightarrow> bool" where
  "blocks_sweep solid_at aabb delta axis b =
     (delta \<noteq> 0 \<and> b \<in> set (sweep_range aabb delta axis)
      \<and> snd (sweep_step axis solid_at aabb delta (delta, False) b))"

text \<open>The candidate value a blocking block contributes, per axis and direction.\<close>

definition gap_up :: "real \<Rightarrow> int \<Rightarrow> real" where
  "gap_up hi b = f64 (f64 (f64 (of_int b) - hi) - EPSILON)"

definition gap_down :: "real \<Rightarrow> int \<Rightarrow> real" where
  "gap_down lo b = f64 (f64 (f64 (f64 (of_int b) + 1) - lo) + EPSILON)"

definition face_gap :: "string \<Rightarrow> AABB \<Rightarrow> real \<Rightarrow> int \<times> int \<times> int \<Rightarrow> real" where
  "face_gap axis aabb delta b =
     (case b of (bx, by, bz) \<Rightarrow>
        if axis = ''x'' then
          (if delta > 0 then gap_up (max_x aabb) bx else gap_down (min_x aabb) bx)
        else if axis = ''y'' then
          (if delta > 0 then gap_up (max_y aabb) by else gap_down (min_y aabb) by)
        else
          (if delta > 0 then gap_up (max_z aabb) bz else gap_down (min_z aabb) bz))"


text \<open>The bounds of a carved local coordinate, and a set all of whose elements have them.\<close>

definition in_carve_bounds :: "int \<times> int \<times> int \<Rightarrow> bool" where
  "in_carve_bounds p = (case p of (lx, y, lz) \<Rightarrow>
     0 \<le> lx \<and> lx < CHUNK_SIZE_X \<and> 0 \<le> lz \<and> lz < CHUNK_SIZE_Z \<and> 1 \<le> y \<and> y \<le> CHUNK_SIZE_Y - 2)"

definition all_in_bounds :: "(int \<times> int \<times> int) set \<Rightarrow> bool" where
  "all_in_bounds C = (\<forall>p\<in>C. in_carve_bounds p)"

text \<open>A permutation table as \<open>_init_simplex_noise\<close> leaves it: 512 entries, each in \<open>0 .. 255\<close>.\<close>

definition wf_perm :: "int list \<Rightarrow> bool" where
  "wf_perm perm = (length perm = 512 \<and> (\<forall>v\<in>set perm. 0 \<le> v \<and> v \<le> 255))"

subsection \<open>Example states\<close>



text \<open>An all-air chunk with \<open>dirty\<close> cleared, as after a mesh build.\<close>

definition clean_air_chunk :: "int \<Rightarrow> int \<Rightarrow> Chunk" where
  "clean_air_chunk cx cz = (new_Chunk cx cz)\<lparr> dirty := False \<rparr>"

text \<open>
  A world with nothing loaded whose save directory holds, for every chunk, a block
  list of \<open>8 * 64 * 8\<close> entries (a file written when the chunk height was 64).
\<close>

definition stale_save_world :: World where
  "stale_save_world =
     \<lparr> chunks = Map.empty,
       save_system = Some (\<lambda>cx cz. Some (replicate 4096 BLOCK_STONE)) \<rparr>"

text \<open>
  A world with the chunks \<open>(0, 0)\<close> and \<open>(1, 0)\<close> loaded, flags cleared: the
  first all air except a stone block at local \<open>(7, 5, 3)\<close>, on its boundary with the
  second, which is all air.
\<close>

definition edge_stone_chunk :: Chunk where
  "edge_stone_chunk =
     \<lparr> chunk_cx = 0, chunk_cz = 0,
       blocks = (replicate 8192 BLOCK_AIR)[351 := BLOCK_STONE],
       dirty = False \<rparr>"

definition edge_stone_world :: World where
  "edge_stone_world =
     \<lparr> chunks = [(0, 0) \<mapsto> edge_stone_chunk, (1, 0) \<mapsto> clean_air_chunk 1 0],
       save_system = None \<rparr>"

text \<open>
  Three worlds far out on the x axis, around the world coordinate \<open>wx = 2 ^ 53 + 7\<close>,
  whose chunk is \<open>(2 ^ 50, 0)\<close> and whose local \<open>x\<close> is 7: one with that chunk loaded,
  all air except a stone block at local \<open>(7, 5, 0)\<close>; one with only the next chunk
  \<open>(2 ^ 50 + 1, 0)\<close> loaded, all air; and one with both chunks loaded, all air. Every
  flag \<open>dirty\<close> is cleared.
\<close>

definition far_stone_chunk :: Chunk where
  "far_stone_chunk =
     \<lparr> chunk_cx = 2 ^ 50, chunk_cz = 0,
       blocks = (replicate 8192 BLOCK_AIR)[327 := BLOCK_STONE],
       dirty = False \<rparr>"

definition far_stone_world :: World where
  "far_stone_world = \<lparr> chunks = [(2 ^ 50, 0) \<mapsto> far_stone_chunk], save_system = None \<rparr>"





text \<open>
  A wall of solid blocks at \<open>bx = 3\<close>, a solid ground up to \<open>y = 10\<close>, and two boxes:
  a small one left of the wall, and one 0.5 wide and 1.75 high with its lower face at
  \<open>y = 12\<close>. A wall at \<open>bx = 2 ^ 53 + 3\<close> and a box of width 1 whose leading face is
  at \<open>x = 2 ^ 53\<close>.
\<close>

definition wall_at_3 :: "int \<Rightarrow> int \<Rightarrow> int \<Rightarrow> bool" where
  "wall_at_3 bx by bz = (bx = 3)"

definition floor_below_10 :: "int \<Rightarrow> int \<Rightarrow> int \<Rightarrow> bool" where
  "floor_below_10 bx by bz = (by < 10)"

definition small_box :: AABB where
  "small_box = \<lparr> min_x = 1.0, min_y = 0.0, min_z = 0.25, max_x = 1.5, max_y = 1.75, max_z = 0.75 \<rparr>"

definition box_at_12 :: AABB where
  "box_at_12 = \<lparr> min_x = 3.75, min_y = 12.0, min_z = 3.75, max_x = 4.25, max_y = 13.75, max_z = 4.25 \<rparr>"

definition far_wall :: "int \<Rightarrow> int \<Rightarrow> int \<Rightarrow> bool" where
  "far_wall bx by bz = (bx = 2 ^ 53 + 3)"

definition far_box :: AABB where
  "far_box = \<lparr> min_x = 2 ^ 53 - 1, min_y = 0.0, min_z = 0.25,
               max_x = 2 ^ 53, max_y = 1.75, max_z = 0.75 \<rparr>"

text \<open>
  A survival-mode player in the air above the ground \<open>floor_below_10\<close>: feet at
  \<open>y = 12\<close>, falling at one unit per second, no horizontal motion, full health; and a
  C library whose sine and cosine are correctly rounded.
\<close>

definition falling_player :: Player where
  "falling_player =
     \<lparr> game_mode = ''Survival'', yaw = 0,
       position = \<lparr> vec_x = 4, vec_y = 12, vec_z = 4 \<rparr>,
       velocity = \<lparr> vec_x = 0, vec_y = - 1, vec_z = 0 \<rparr>,
       on_ground = False, is_flying = False, last_jump_time = 0, fly_speed_multiplier = 2.5,
       max_health = 20, health = 20, max_hunger = 20, hunger = 20, saturation = 5,
       fall_start_y = 12, last_on_ground = False, regen_timer = 0, hunger_timer = 0,
       keys_prev_jump = False \<rparr>"

definition rounded_libm :: libm where
  "rounded_libm = \<lparr> lib_sin = (\<lambda>x. f64 (sin x)), lib_cos = (\<lambda>x. f64 (cos x)) \<rparr>"





text \<open>
  The noise state after seeding with a shuffle that leaves the list as it is, and a
  world with a single worm: it starts in chunk \<open>(0, 0)\<close> at \<open>(4, 20, 4)\<close>, has radius 2
  and makes one step.
\<close>

definition identity_seeded :: noise_state where
  "identity_seeded = set_world_seed (\<lambda>seed xs. xs) 0 module_state"

definition one_worm :: worm where
  "one_worm = \<lparr> worm_x = 4, worm_y = 20, worm_z = 4, worm_yaw = 0, worm_pitch = 0,
                worm_length = 1, worm_radius = 2, worm_seed = 0 \<rparr>"

definition worm_at_origin :: "int \<Rightarrow> int \<Rightarrow> worm list" where
  "worm_at_origin ncx ncz = (if ncx = 0 \<and> ncz = 0 then [one_worm] else [])"

section \<open>Properties\<close>

subsection \<open>Rounding\<close>

lemma pow2_powr: "pow2 k = 2 powr (of_int k)"
proof (cases "k \<ge> 0")
  case True
  then show ?thesis
    using powr_realpow [of 2 "nat k"] by (simp add: pow2_def)
next
  case False
  then have "(2::real) powr (of_int k) = 1 / 2 powr (of_int (- k))"
    using powr_minus [of "2::real" "of_int (- k)"] by (simp add: divide_inverse)
  also have "2 powr (of_int (- k)) = (2::real) ^ nat (- k)"
    using powr_realpow [of 2 "nat (- k)"] False by simp
  finally show ?thesis using False by (simp add: pow2_def)
qed

lemma pow2_pos: "0 < pow2 k"
  by (simp add: pow2_powr)

lemma pow2_add: "pow2 (j + k) = pow2 j * pow2 k"
  by (simp add: pow2_powr powr_add)

lemma round_half_even_close: "\<bar>of_int (round_half_even v) - v\<bar> \<le> 1 / 2"
  unfolding round_half_even_def Let_def by (auto simp: abs_le_iff)

lemma round_half_even_of_int: "round_half_even (of_int n) = n"
  by (simp add: round_half_even_def)

lemma floor_log2_bounds:
  assumes "x \<noteq> 0"
  shows "pow2 \<lfloor>log 2 \<bar>x\<bar>\<rfloor> \<le> \<bar>x\<bar>" and "\<bar>x\<bar> < pow2 (\<lfloor>log 2 \<bar>x\<bar>\<rfloor> + 1)"
  using floor_log_eq_powr_iff [of "\<bar>x\<bar>" 2 "\<lfloor>log 2 \<bar>x\<bar>\<rfloor>"] assms
  by (simp_all add: pow2_powr)

lemma floor_log2_eq:
  assumes "pow2 k \<le> \<bar>x\<bar>" and "\<bar>x\<bar> < pow2 (k + 1)"
  shows "\<lfloor>log 2 \<bar>x\<bar>\<rfloor> = k"
proof -
  have "0 < \<bar>x\<bar>" using assms(1) pow2_pos [of k] by linarith
  then show ?thesis
    using floor_log_eq_powr_iff [of "\<bar>x\<bar>" 2 k] assms by (simp add: pow2_powr)
qed

text \<open>Rounding at a known binade.\<close>

lemma rnd_at:
  assumes "pow2 k \<le> \<bar>x\<bar>" and "\<bar>x\<bar> < pow2 (k + 1)"
  shows "rnd p x = of_int (round_half_even (x / pow2 (k - int p + 1))) * pow2 (k - int p + 1)"
proof -
  have "x \<noteq> 0" using assms(1) pow2_pos [of k] by auto
  then show ?thesis by (simp add: rnd_def Let_def floor_log2_eq [OF assms])
qed

text \<open>The relative error of rounding is at most \<open>2 ^ - p\<close>.\<close>

lemma rnd_error: "\<bar>rnd p x - x\<bar> \<le> \<bar>x\<bar> * pow2 (- int p)"
proof (cases "x = 0")
  case True
  then show ?thesis by (simp add: rnd_def)
next
  case False
  define e where "e = \<lfloor>log 2 \<bar>x\<bar>\<rfloor>"
  define u where "u = pow2 (e - int p + 1)"
  have u: "0 < u" by (simp add: u_def pow2_pos)
  have r: "rnd p x = of_int (round_half_even (x / u)) * u"
    using False by (simp add: rnd_def Let_def e_def u_def)
  have "rnd p x - x = (of_int (round_half_even (x / u)) - x / u) * u"
    using u by (simp add: r left_diff_distrib)
  then have "\<bar>rnd p x - x\<bar> = \<bar>of_int (round_half_even (x / u)) - x / u\<bar> * u"
    using u by (simp add: abs_mult)
  also have "\<dots> \<le> 1 / 2 * u"
    using round_half_even_close [of "x / u"] u by (intro mult_right_mono) simp_all
  also have "1 / 2 * u = pow2 e * pow2 (- int p)"
    unfolding u_def
    using pow2_add [of e "- int p + 1"] pow2_add [of "- int p" 1]
    by (simp add: pow2_def [of 1] algebra_simps)
  also have "\<dots> \<le> \<bar>x\<bar> * pow2 (- int p)"
    using floor_log2_bounds(1) [OF False] pow2_pos [of "- int p"]
    by (intro mult_right_mono) (simp_all add: e_def)
  finally show ?thesis .
qed

lemma pow2_less_iff: "pow2 a < pow2 b \<longleftrightarrow> a < b"
  by (simp add: pow2_powr)

lemma pow2_le_iff: "pow2 a \<le> pow2 b \<longleftrightarrow> a \<le> b"
  by (simp add: pow2_powr)

lemma pow2_nat: "pow2 (int n) = 2 ^ n"
  by (simp add: pow2_def)


text \<open>A number with at most \<open>p\<close> significant bits is not changed by rounding.\<close>

lemma rnd_exact:
  assumes "\<bar>m\<bar> \<le> 2 ^ p" and "1 \<le> p"
  shows "rnd p (of_int m * pow2 k) = of_int m * pow2 k"
proof (cases "m = 0")
  case True
  then show ?thesis by (simp add: rnd_def)
next
  case False
  define x where "x = of_int m * pow2 k"
  have x0: "x \<noteq> 0" using False pow2_pos [of k] by (simp add: x_def)
  define e where "e = \<lfloor>log 2 \<bar>x\<bar>\<rfloor>"
  have ax: "\<bar>x\<bar> = of_int \<bar>m\<bar> * pow2 k" using pow2_pos [of k] by (simp add: x_def abs_mult)
  have "pow2 e \<le> \<bar>x\<bar>" using floor_log2_bounds(1) [OF x0] by (simp add: e_def)
  also have "\<bar>x\<bar> \<le> 2 ^ p * pow2 k"
  proof -
    have "real_of_int \<bar>m\<bar> \<le> 2 ^ p" using assms(1) by (metis of_int_le_iff of_int_numeral of_int_power)
    then show ?thesis unfolding ax using pow2_pos [of k] by (intro mult_right_mono) simp_all
  qed
  also have "\<dots> = pow2 (int p + k)" by (simp add: pow2_add pow2_nat)
  finally have ele: "e \<le> int p + k" by (simp add: pow2_le_iff)
  define j where "j = k - (e - int p + 1)"
  have xu: "x / pow2 (e - int p + 1) = of_int m * pow2 j"
  proof -
    have "pow2 k = pow2 j * pow2 (e - int p + 1)"
      using pow2_add [of j "e - int p + 1"] by (simp add: j_def)
    then show ?thesis using pow2_pos [of "e - int p + 1"] by (simp add: x_def)
  qed
  have int_xu: "\<exists>n. x / pow2 (e - int p + 1) = of_int n"
  proof (cases "0 \<le> j")
    case True
    then have "pow2 j = of_int (2 ^ nat j)" by (simp add: pow2_def)
    then have "x / pow2 (e - int p + 1) = of_int (m * 2 ^ nat j)" by (simp add: xu)
    then show ?thesis by blast
  next
    case False
    with ele have eq: "e = int p + k" and j: "j = - 1" by (simp_all add: j_def)
    have "pow2 (int p + k) \<le> \<bar>x\<bar>" using \<open>pow2 e \<le> \<bar>x\<bar>\<close> eq by simp
    then have "2 ^ p * pow2 k \<le> of_int \<bar>m\<bar> * pow2 k" by (simp add: pow2_add pow2_nat ax)
    then have "(2::real) ^ p \<le> of_int \<bar>m\<bar>" using pow2_pos [of k] by simp
    then have "(2::int) ^ p \<le> \<bar>m\<bar>" by (metis of_int_le_iff of_int_numeral of_int_power)
    with assms(1) have am: "\<bar>m\<bar> = 2 ^ p" by simp
    obtain q where q: "p = Suc q" using assms(2) by (cases p) auto
    have "m = 2 * 2 ^ q \<or> m = - (2 * 2 ^ q)" using am by (auto simp: q abs_if split: if_splits)
    then have "of_int m * pow2 (- 1) = (of_int (2 ^ q) :: real) \<or> of_int m * pow2 (- 1) = (of_int (- (2 ^ q)) :: real)"
      by (auto simp: pow2_def)
    then show ?thesis unfolding xu j by blast
  qed
  then obtain n where n: "x / pow2 (e - int p + 1) = of_int n" by blast
  have "rnd p x = of_int (round_half_even (x / pow2 (e - int p + 1))) * pow2 (e - int p + 1)"
    using x0 by (simp add: rnd_def Let_def e_def)
  also have "\<dots> = x / pow2 (e - int p + 1) * pow2 (e - int p + 1)"
    by (simp add: n round_half_even_of_int)
  also have "\<dots> = x" using pow2_pos [of "e - int p + 1"] by simp
  finally show ?thesis by (simp add: x_def)
qed

lemma round_half_even_bounds:
  "\<lfloor>v\<rfloor> \<le> round_half_even v" "round_half_even v \<le> \<lfloor>v\<rfloor> + 1"
  by (simp_all add: round_half_even_def Let_def)

lemma round_half_even_mono:
  assumes "v \<le> w"
  shows "round_half_even v \<le> round_half_even w"
proof (cases "\<lfloor>v\<rfloor> < \<lfloor>w\<rfloor>")
  case True
  then show ?thesis
    using round_half_even_bounds(2) [of v] round_half_even_bounds(1) [of w] by linarith
next
  case False
  then have "\<lfloor>v\<rfloor> = \<lfloor>w\<rfloor>" using floor_mono [OF assms] by linarith
  then show ?thesis using assms by (auto simp: round_half_even_def Let_def)
qed

lemma round_half_even_near:
  assumes "\<bar>v - of_int m\<bar> < 1 / 2"
  shows "round_half_even v = m"
proof -
  have "\<lfloor>v\<rfloor> = m \<or> \<lfloor>v\<rfloor> = m - 1" using assms by linarith
  then show ?thesis
  proof
    assume f: "\<lfloor>v\<rfloor> = m"
    then have "v - of_int m < 1 / 2" using assms by linarith
    then show ?thesis by (simp add: round_half_even_def Let_def f)
  next
    assume f: "\<lfloor>v\<rfloor> = m - 1"
    have "v < of_int m" using f by linarith
    then have "v - of_int (m - 1) > 1 / 2" using assms by simp
    then show ?thesis by (simp add: round_half_even_def Let_def f)
  qed
qed

lemma round_half_even_tie:
  assumes "v = of_int m + 1 / 2"
  shows "round_half_even v = (if even m then m else m + 1)"
proof -
  have f: "\<lfloor>v\<rfloor> = m" using assms by linarith
  show ?thesis by (simp add: round_half_even_def Let_def f) (simp add: assms)
qed

lemma round_half_even_minus: "round_half_even (- v) = - round_half_even v"
proof (cases "v = of_int \<lfloor>v\<rfloor>")
  case True
  then obtain n where "v = of_int n" by blast
  then have "- v = of_int (- n)" by simp
  then show ?thesis using \<open>v = of_int n\<close> by (simp only: round_half_even_of_int)
next
  case False
  define f where "f = \<lfloor>v\<rfloor>"
  have fl: "of_int f < v" "v < of_int f + 1" using False by (simp_all add: f_def) linarith+
  have nf: "\<lfloor>- v\<rfloor> = - f - 1" using fl by linarith
  show ?thesis
    unfolding round_half_even_def Let_def nf f_def [symmetric]
    using fl by (auto simp: algebra_simps)
qed

text \<open>Evaluating \<open>rnd\<close> at a number whose binade is known.\<close>

lemma rnd_eval:
  assumes "pow2 k \<le> \<bar>x\<bar>" and "\<bar>x\<bar> < pow2 (k + 1)"
    and "\<bar>x / pow2 (k - int p + 1) - of_int m\<bar> < 1 / 2"
  shows "rnd p x = of_int m * pow2 (k - int p + 1)"
  by (simp add: rnd_at [OF assms(1,2)] round_half_even_near [OF assms(3)])

lemma rnd_eval_tie:
  assumes "pow2 k \<le> \<bar>x\<bar>" and "\<bar>x\<bar> < pow2 (k + 1)"
    and "x / pow2 (k - int p + 1) = of_int m + 1 / 2"
  shows "rnd p x = of_int (if even m then m else m + 1) * pow2 (k - int p + 1)"
  by (simp only: rnd_at [OF assms(1,2)] round_half_even_tie [OF assms(3)])

lemma rnd_minus: "rnd p (- x) = - rnd p x"
  by (simp add: rnd_def Let_def round_half_even_minus)

lemma pow2_int: "0 \<le> k \<Longrightarrow> pow2 k = of_int (2 ^ nat k)"
  by (simp add: pow2_def)

text \<open>Rounding stays inside the closed binade.\<close>

lemma rnd_binade:
  assumes "pow2 k \<le> x" and "x < pow2 (k + 1)" and "1 \<le> p"
  shows "pow2 k \<le> rnd p x" and "rnd p x \<le> pow2 (k + 1)"
proof -
  define u where "u = pow2 (k - int p + 1)"
  have u: "0 < u" by (simp add: u_def pow2_pos)
  have x0: "0 < x" using assms(1) pow2_pos [of k] by linarith
  have r: "rnd p x = of_int (round_half_even (x / u)) * u"
    using rnd_at [of k x p] assms(1,2) x0 by (simp add: u_def)
  have lo: "pow2 k = pow2 (int p - 1) * u" and hi: "pow2 (k + 1) = pow2 (int p) * u"
    using pow2_add [of "int p - 1" "k - int p + 1"] pow2_add [of "int p" "k - int p + 1"]
    by (simp_all add: u_def)
  have i1: "pow2 (int p - 1) = of_int (2 ^ nat (int p - 1))" using assms(3) by (intro pow2_int) simp
  have i2: "pow2 (int p) = of_int (2 ^ nat (int p))" by (intro pow2_int) simp
  have "pow2 (int p - 1) \<le> x / u" using assms(1) u by (simp add: lo pos_le_divide_eq)
  from round_half_even_mono [OF this]
  have "2 ^ nat (int p - 1) \<le> round_half_even (x / u)"
    by (simp only: i1 round_half_even_of_int)
  then have "pow2 (int p - 1) \<le> of_int (round_half_even (x / u))"
    unfolding i1 by (simp only: of_int_le_iff)
  then show "pow2 k \<le> rnd p x" unfolding r lo using u by (intro mult_right_mono) simp_all
  have "x / u \<le> pow2 (int p)" using assms(2) u by (simp add: hi pos_divide_le_eq)
  from round_half_even_mono [OF this]
  have "round_half_even (x / u) \<le> 2 ^ nat (int p)"
    by (simp only: i2 round_half_even_of_int)
  then have "of_int (round_half_even (x / u)) \<le> pow2 (int p)"
    unfolding i2 by (simp only: of_int_le_iff)
  then show "rnd p x \<le> pow2 (k + 1)" unfolding r hi using u by (intro mult_right_mono) simp_all
qed

lemma rnd_mono_pos:
  assumes "0 < x" and "x \<le> y" and "1 \<le> p"
  shows "rnd p x \<le> rnd p y"
proof -
  define kx where "kx = \<lfloor>log 2 \<bar>x\<bar>\<rfloor>"
  define ky where "ky = \<lfloor>log 2 \<bar>y\<bar>\<rfloor>"
  have y0: "0 < y" using assms by linarith
  have bx: "pow2 kx \<le> x" "x < pow2 (kx + 1)"
    using floor_log2_bounds [of x] assms(1) by (simp_all add: kx_def)
  have "by": "pow2 ky \<le> y" "y < pow2 (ky + 1)"
    using floor_log2_bounds [of y] y0 by (simp_all add: ky_def)
  have "pow2 kx < pow2 (ky + 1)" using bx(1) "by"(2) assms(2) by linarith
  then have kk: "kx \<le> ky" by (simp add: pow2_less_iff)
  show ?thesis
  proof (cases "kx = ky")
    case True
    define u where "u = pow2 (kx - int p + 1)"
    have u: "0 < u" by (simp add: u_def pow2_pos)
    have rx: "rnd p x = of_int (round_half_even (x / u)) * u"
      using rnd_at [of kx x p] bx assms(1) by (simp add: u_def)
    have ry: "rnd p y = of_int (round_half_even (y / u)) * u"
      using rnd_at [of ky y p] "by" y0 True by (simp add: u_def)
    have "x / u \<le> y / u" using assms(2) u by (simp add: divide_right_mono)
    from round_half_even_mono [OF this] show ?thesis
      unfolding rx ry using u by (intro mult_right_mono) simp_all
  next
    case False
    then have "kx + 1 \<le> ky" using kk by simp
    then have "pow2 (kx + 1) \<le> pow2 ky" by (simp add: pow2_le_iff)
    then show ?thesis
      using rnd_binade(2) [OF bx assms(3)] rnd_binade(1) [OF "by" assms(3)] by linarith
  qed
qed

lemma rnd_nonneg:
  assumes "0 \<le> x"
  shows "0 \<le> rnd p x"
proof (cases "x = 0")
  case True
  then show ?thesis by (simp add: rnd_def)
next
  case False
  then have "0 < x" using assms by simp
  have "0 < x / pow2 (\<lfloor>log 2 \<bar>x\<bar>\<rfloor> - int p + 1)" using \<open>0 < x\<close> pow2_pos by simp
  then have "0 \<le> round_half_even (x / pow2 (\<lfloor>log 2 \<bar>x\<bar>\<rfloor> - int p + 1))"
    using round_half_even_mono [of 0 "x / pow2 (\<lfloor>log 2 \<bar>x\<bar>\<rfloor> - int p + 1)"]
      round_half_even_of_int [of 0] by simp
  then show ?thesis using False pow2_pos [of "\<lfloor>log 2 \<bar>x\<bar>\<rfloor> - int p + 1"] by (simp add: rnd_def Let_def)
qed

text \<open>Rounding is monotone.\<close>

lemma rnd_mono:
  assumes "x \<le> y" and "1 \<le> p"
  shows "rnd p x \<le> rnd p y"
proof -
  consider "0 < x" | "x \<le> 0" "0 \<le> y" | "y < 0" by linarith
  then show ?thesis
  proof cases
    case 1
    then show ?thesis using rnd_mono_pos [OF 1 assms] by simp
  next
    case 2
    have "rnd p x \<le> 0" using rnd_nonneg [of "- x" p] 2(1) by (simp add: rnd_minus)
    then show ?thesis using rnd_nonneg [OF 2(2), of p] by linarith
  next
    case 3
    have "rnd p (- y) \<le> rnd p (- x)" using rnd_mono_pos [of "- y" "- x" p] 3 assms by simp
    then show ?thesis by (simp add: rnd_minus)
  qed
qed

text \<open>A rounded number is not changed by rounding it again.\<close>

lemma rnd_idem:
  assumes "1 \<le> p"
  shows "rnd p (rnd p x) = rnd p x"
proof (cases "x = 0")
  case True
  then show ?thesis by (simp add: rnd_def)
next
  case False
  define e where "e = \<lfloor>log 2 \<bar>x\<bar>\<rfloor>"
  define u where "u = pow2 (e - int p + 1)"
  define m where "m = round_half_even (x / u)"
  have u: "0 < u" by (simp add: u_def pow2_pos)
  have r: "rnd p x = of_int m * pow2 (e - int p + 1)"
    using False by (simp add: rnd_def Let_def e_def u_def m_def)
  have hi: "pow2 (e + 1) = pow2 (int p) * u"
    using pow2_add [of "int p" "e - int p + 1"] by (simp add: u_def)
  have i2: "pow2 (int p) = of_int (2 ^ nat (int p))" by (intro pow2_int) simp
  have ax: "\<bar>x\<bar> < pow2 (e + 1)" using floor_log2_bounds(2) [OF False] by (simp add: e_def)
  have "x / u \<le> pow2 (int p)" "- pow2 (int p) \<le> x / u"
    using ax u by (simp_all add: hi pos_divide_le_eq pos_le_divide_eq)
  then have "x / u \<le> of_int (2 ^ nat (int p))" "of_int (- (2 ^ nat (int p))) \<le> x / u"
    by (simp_all add: i2)
  from round_half_even_mono [OF this(1)] round_half_even_mono [OF this(2)]
  have "m \<le> 2 ^ nat (int p)" "- (2 ^ nat (int p)) \<le> m"
    by (simp_all only: m_def round_half_even_of_int)
  then have "\<bar>m\<bar> \<le> 2 ^ p" by simp
  from rnd_exact [OF this assms] show ?thesis by (simp add: r)
qed

subsection \<open>The two float formats\<close>

lemma f64_mono: "x \<le> y \<Longrightarrow> f64 x \<le> f64 y"
  by (simp add: f64_def rnd_mono)

lemma f32_mono: "x \<le> y \<Longrightarrow> f32 x \<le> f32 y"
  by (simp add: f32_def rnd_mono)

lemma f64_idem: "f64 (f64 x) = f64 x"
  by (simp add: f64_def rnd_idem)

lemma f64_zero: "f64 0 = 0"
  by (simp add: f64_def rnd_def)

lemma f32_zero: "f32 0 = 0"
  by (simp add: f32_def rnd_def)

lemma f64_minus: "f64 (- x) = - f64 x"
  by (simp add: f64_def rnd_minus)

lemma f64_exact: "\<bar>m\<bar> \<le> 2 ^ 53 \<Longrightarrow> f64 (of_int m * pow2 k) = of_int m * pow2 k"
  by (simp add: f64_def rnd_exact)

lemma f32_exact: "\<bar>m\<bar> \<le> 2 ^ 24 \<Longrightarrow> f32 (of_int m * pow2 k) = of_int m * pow2 k"
  by (simp add: f32_def rnd_exact)

lemma f64_of_int: "\<bar>n\<bar> \<le> 2 ^ 53 \<Longrightarrow> f64 (of_int n) = of_int n"
  using f64_exact [of n 0] by (simp add: pow2_def)

lemma f64_error: "\<bar>f64 x - x\<bar> \<le> \<bar>x\<bar> / 2 ^ 53"
  using rnd_error [of 53 x] by (simp add: f64_def pow2_def)

lemma f32_error: "\<bar>f32 x - x\<bar> \<le> \<bar>x\<bar> / 2 ^ 24"
  using rnd_error [of 24 x] by (simp add: f32_def pow2_def)

subsection \<open>Coordinates\<close>

lemmas size_defs = CHUNK_SIZE_X_def CHUNK_SIZE_Y_def CHUNK_SIZE_Z_def

text \<open>
  For an integer of magnitude at most \<open>2 ^ 53\<close> the float quotient by 8 is exact, and
  its floor is the integer quotient.
\<close>

lemma int_true_div_8:
  assumes "\<bar>a\<bar> \<le> 2 ^ 53"
  shows "int_true_div a 8 = Inr (of_int a / 8)"
proof -
  have e: "f64 (of_int a / 8) = of_int a / 8"
    using f64_exact [OF assms, of "- 3"] by (simp add: pow2_def)
  have "\<bar>real_of_int a\<bar> \<le> 2 ^ 53"
    using assms by (metis of_int_abs of_int_le_iff of_int_numeral of_int_power)
  then have "\<bar>real_of_int a / 8\<bar> < 2 ^ 1024" by simp
  then show ?thesis by (simp add: int_true_div_def e)
qed

lemma chunk_coord_x_exact: "\<bar>wx\<bar> \<le> 2 ^ 53 \<Longrightarrow> chunk_coord_x wx = Inr (wx div 8)"
  using floor_divide_of_int_eq [of wx 8, where ?'a = real]
  by (simp add: chunk_coord_x_def CHUNK_SIZE_X_def int_true_div_8)

lemma chunk_coord_z_exact: "\<bar>wz\<bar> \<le> 2 ^ 53 \<Longrightarrow> chunk_coord_z wz = Inr (wz div 8)"
  using floor_divide_of_int_eq [of wz 8, where ?'a = real]
  by (simp add: chunk_coord_z_def CHUNK_SIZE_Z_def int_true_div_8)

lemma local_mod: "(w :: int) - w div 8 * 8 = w mod 8"
  by (simp add: minus_div_mult_eq_mod)

text \<open>
  Beyond \<open>2 ^ 53\<close> the quotient is rounded: \<open>(2 ^ 53 + 7) / 8\<close> lies halfway between
  the floats \<open>2 ^ 50 + 0.75\<close> and \<open>2 ^ 50 + 1\<close> and is rounded to the latter.
\<close>

lemma far_quotient: "f64 ((2 ^ 53 + 7) / 8) = 2 ^ 50 + 1"
proof -
  have "rnd 53 ((2 ^ 53 + 7) / 8) =
      of_int (if even (2 ^ 52 + 3 :: int) then 2 ^ 52 + 3 else 2 ^ 52 + 3 + 1) * pow2 (50 - int 53 + 1)"
    by (rule rnd_eval_tie) (simp_all add: pow2_def)
  then show ?thesis by (simp add: f64_def pow2_def)
qed

lemma chunk_coord_x_far: "chunk_coord_x (2 ^ 53 + 7) = Inr (2 ^ 50 + 1)"
proof -
  have "\<lfloor>(2 :: real) ^ 50 + 1\<rfloor> = 2 ^ 50 + 1"
    by (metis floor_of_int of_int_1 of_int_add of_int_numeral of_int_power)
  then show ?thesis
    using far_quotient by (simp add: chunk_coord_x_def int_true_div_def CHUNK_SIZE_X_def)
qed

lemma chunk_coord_x_far_num: "chunk_coord_x 9007199254740999 = Inr 1125899906842625"
  using chunk_coord_x_far by simp

text \<open>An integer whose quotient by 8 is beyond the largest float: the division raises.\<close>

lemma chunk_coord_x_overflow: "chunk_coord_x (2 ^ 1027) = Inl OverflowError"
proof -
  have "f64 (of_int 1 * pow2 1024) = of_int 1 * pow2 1024" by (rule f64_exact) simp
  then have "f64 (2 ^ 1027 / 8) = 2 ^ 1024" by (simp add: pow2_def)
  then show ?thesis by (simp add: chunk_coord_x_def int_true_div_def CHUNK_SIZE_X_def)
qed

lemma chunk_coord_z_small: "chunk_coord_z 0 = Inr 0" "chunk_coord_z 3 = Inr 0"
  using chunk_coord_z_exact [of 0] chunk_coord_z_exact [of 3] by simp_all

subsection \<open>Solidity and block queries\<close>

text \<open>
  For coordinates of magnitude at most \<open>2 ^ 53\<close>: \<open>is_solid\<close> returns true below
  \<open>y = 0\<close> and false at or above \<open>SY\<close>; when the containing chunk is loaded it reads
  the block stored at the packed index of the local coordinate (and raises
  \<open>IndexError\<close> if the chunk's list is too short to have that index); when the chunk
  is not loaded it returns false.
\<close>

lemma is_solid_in_range:
  assumes "\<bar>wx\<bar> \<le> 2 ^ 53" and "\<bar>wz\<bar> \<le> 2 ^ 53"
  shows "is_solid w wx wy wz =
     (if wy < 0 then Inr True
      else if wy \<ge> CHUNK_SIZE_Y then Inr False
      else (case chunks w (wx div 8, wz div 8) of
              None \<Rightarrow> Inr False
            | Some c \<Rightarrow>
                (if nat ((wy * 8 + wz mod 8) * 8 + wx mod 8) < length (blocks c)
                 then Inr (blocks c ! nat ((wy * 8 + wz mod 8) * 8 + wx mod 8) \<noteq> 0)
                 else Inl IndexError)))"
proof -
  have b: "0 \<le> wy \<Longrightarrow> wy < CHUNK_SIZE_Y \<Longrightarrow> in_chunk_bounds (wx mod 8) wy (wz mod 8)"
    by (simp add: in_chunk_bounds_def size_defs)
  show ?thesis
    unfolding is_solid_def Let_def chunk_coord_x_exact [OF assms(1)] chunk_coord_z_exact [OF assms(2)]
    by (auto simp: local_mod get_block_local_def b index_3d_def
          is_block_solid_def BLOCK_AIR_def size_defs Let_def split: option.splits)
qed

lemma far_stone_cell: "get_block_local far_stone_chunk 7 5 0 = Inr BLOCK_STONE"
  by (simp add: far_stone_chunk_def get_block_local_def in_chunk_bounds_def index_3d_def size_defs)

text \<open>
  C4, at \<open>(2 ^ 53 + 7, 5, 0)\<close> in the world \<open>far_stone_world\<close>: the chunk that
  contains the coordinate is loaded and holds a stone block in that cell, yet
  \<open>is_solid\<close> returns false. The float quotient \<open>wx / 8\<close> is rounded up to
  \<open>2 ^ 50 + 1\<close>, so the function looks up the next chunk, which is not loaded.
\<close>

theorem is_solid_misses_loaded_cell:
  "cell_holds far_stone_world (2 ^ 53 + 7) 5 0 BLOCK_STONE
   \<and> is_block_solid BLOCK_STONE
   \<and> is_solid far_stone_world (2 ^ 53 + 7) 5 0 = Inr False"
proof -
  have "cell_holds far_stone_world (2 ^ 53 + 7) 5 0 BLOCK_STONE"
    by (simp add: cell_holds_def far_stone_world_def far_stone_cell size_defs)
  moreover have "is_solid far_stone_world (2 ^ 53 + 7) 5 0 = Inr False"
    by (simp add: is_solid_def chunk_coord_x_far_num chunk_coord_z_small far_stone_world_def size_defs)
  ultimately show ?thesis by (simp add: is_block_solid_def BLOCK_STONE_def BLOCK_AIR_def)
qed

text \<open>
  For coordinates of magnitude at most \<open>2 ^ 53\<close> with \<open>0 \<le> wy < SY\<close> whose chunk is
  not loaded, \<open>get_block\<close> returns the block id of \<open>block_id_at\<close> while \<open>is_solid\<close>
  returns false; and \<open>is_solid\<close> differs from the solidity of \<open>get_block\<close>'s result
  exactly when \<open>0 \<le> wy < SY\<close>, the chunk is not loaded and the generated block is solid.
\<close>

lemma get_block_vs_is_solid_in_range:
  assumes "\<bar>wx\<bar> \<le> 2 ^ 53" and "\<bar>wz\<bar> \<le> 2 ^ 53"
  shows "(0 \<le> wy \<and> wy < CHUNK_SIZE_Y \<and> chunks w (wx div 8, wz div 8) = None \<longrightarrow>
      get_block th w wx wy wz = Inr (block_id_at th wx wy wz) \<and> is_solid w wx wy wz = Inr False)
   \<and> ((is_solid w wx wy wz \<noteq>
          (case get_block th w wx wy wz of Inl e \<Rightarrow> Inl e | Inr b \<Rightarrow> Inr (is_block_solid b)))
        \<longleftrightarrow> (0 \<le> wy \<and> wy < CHUNK_SIZE_Y \<and> chunks w (wx div 8, wz div 8) = None
               \<and> is_block_solid (block_id_at th wx wy wz)))"
  unfolding get_block_def is_solid_def Let_def chunk_coord_x_exact [OF assms(1)]
    chunk_coord_z_exact [OF assms(2)]
  by (auto simp: is_block_solid_def BLOCK_AIR_def BLOCK_BEDROCK_def
      split: option.splits sum.splits)


subsection \<open>Block writes\<close>

lemma ensure_chunk_loaded: "chunks w (cx, cz) = Some c \<Longrightarrow> ensure_chunk gen w cx cz = Inr (c, w)"
  by (simp add: ensure_chunk_def)







lemma mark_dirty_other: "k \<noteq> key \<Longrightarrow> chunks (mark_dirty w key) k = chunks w k"
  by (simp add: mark_dirty_def split: option.splits)

lemma mark_dirty_same:
  "chunks (mark_dirty w key) key = map_option (\<lambda>n. n\<lparr>dirty := True\<rparr>) (chunks w key)"
  by (simp add: mark_dirty_def split: option.splits)

lemma mark_dirty_save: "save_system (mark_dirty w key) = save_system w"
  by (simp add: mark_dirty_def split: option.splits)

text \<open>The world after a successful write, before the neighbours are marked.\<close>

lemma write_success_form:
  assumes "\<bar>wx\<bar> \<le> 2 ^ 53" and "\<bar>wz\<bar> \<le> 2 ^ 53"
    and "r = place_block gen w wx wy wz block_type \<or> r = remove_block w wx wy wz"
    and "r = Inr (True, w')"
  shows "\<exists>w1 chunk'. w' = mark_neighbors_dirty (w1\<lparr> chunks := (chunks w1)((wx div 8, wz div 8) \<mapsto> chunk') \<rparr>)
                wx wy wz (wx div 8) (wz div 8)
            \<and> (\<forall>k. k \<noteq> (wx div 8, wz div 8) \<longrightarrow> chunks w1 k = chunks w k)"
  using assms(3,4)
  unfolding remove_block_def place_block_def Let_def chunk_coord_x_exact [OF assms(1)]
    chunk_coord_z_exact [OF assms(2)]
  by (auto simp: ensure_chunk_def Let_def
      split: if_splits option.splits sum.splits prod.splits)

text \<open>
  For coordinates of magnitude at most \<open>2 ^ 53\<close>: after a successful \<open>place_block\<close> or
  \<open>remove_block\<close> at a cell with local \<open>x = 0\<close>, a loaded neighbour chunk
  \<open>(cx - 1, cz)\<close> is the chunk it was with \<open>dirty\<close> set; likewise local \<open>x = SX - 1\<close>
  and \<open>(cx + 1, cz)\<close>, local \<open>z = 0\<close> and \<open>(cx, cz - 1)\<close>, local \<open>z = SZ - 1\<close> and
  \<open>(cx, cz + 1)\<close>. After a successful write at a cell with \<open>0 < x < SX - 1\<close> and
  \<open>0 < z < SZ - 1\<close> every chunk other than the written one is unchanged.
\<close>

lemma boundary_dirtying_in_range:
  fixes w w' :: World and n :: Chunk
  assumes "\<bar>wx\<bar> \<le> 2 ^ 53" and "\<bar>wz\<bar> \<le> 2 ^ 53"
    and "r = place_block gen w wx wy wz block_type \<or> r = remove_block w wx wy wz"
    and "r = Inr (True, w')"
  shows "(wx mod 8 = 0 \<and> chunks w (wx div 8 - 1, wz div 8) = Some n
            \<longrightarrow> chunks w' (wx div 8 - 1, wz div 8) = Some (n\<lparr>dirty := True\<rparr>))
       \<and> (wx mod 8 = 7 \<and> chunks w (wx div 8 + 1, wz div 8) = Some n
            \<longrightarrow> chunks w' (wx div 8 + 1, wz div 8) = Some (n\<lparr>dirty := True\<rparr>))
       \<and> (wz mod 8 = 0 \<and> chunks w (wx div 8, wz div 8 - 1) = Some n
            \<longrightarrow> chunks w' (wx div 8, wz div 8 - 1) = Some (n\<lparr>dirty := True\<rparr>))
       \<and> (wz mod 8 = 7 \<and> chunks w (wx div 8, wz div 8 + 1) = Some n
            \<longrightarrow> chunks w' (wx div 8, wz div 8 + 1) = Some (n\<lparr>dirty := True\<rparr>))
       \<and> (0 < wx mod 8 \<and> wx mod 8 < 7 \<and> 0 < wz mod 8 \<and> wz mod 8 < 7
            \<longrightarrow> (\<forall>k. k \<noteq> (wx div 8, wz div 8) \<longrightarrow> chunks w' k = chunks w k))"
proof -
  obtain w1 chunk' where
    w': "w' = mark_neighbors_dirty (w1\<lparr> chunks := (chunks w1)((wx div 8, wz div 8) \<mapsto> chunk') \<rparr>)
                wx wy wz (wx div 8) (wz div 8)"
    and same: "\<And>k. k \<noteq> (wx div 8, wz div 8) \<Longrightarrow> chunks w1 k = chunks w k"
    using write_success_form [OF assms] by blast
  show ?thesis
    unfolding w' mark_neighbors_dirty_def Let_def
    by (auto simp: mark_dirty_other mark_dirty_same same size_defs local_mod)
qed

text \<open>
  Two writes on a chunk boundary: \<open>remove_block\<close> of the stone block at local
  \<open>x = SX - 1\<close> of chunk \<open>(0, 0)\<close>, and \<open>place_block\<close> at local \<open>x = 0\<close> of chunk
  \<open>(1, 0)\<close>; each succeeds and leaves the chunk across the boundary with \<open>dirty\<close> set.
\<close>

lemma remove_block_dirties_neighbour:
  "(case remove_block edge_stone_world 7 5 3 of
      Inl e \<Rightarrow> False
    | Inr (ok, w') \<Rightarrow> ok \<and> chunks w' (1, 0) = Some ((clean_air_chunk 1 0)\<lparr>dirty := True\<rparr>))"
proof -
  have cc: "chunk_coord_x 7 = Inr 0" "chunk_coord_z 3 = Inr 0"
    using chunk_coord_x_exact [of 7] chunk_coord_z_exact [of 3] by simp_all
  have "\<exists>w'. remove_block edge_stone_world 7 5 3 = Inr (True, w')"
    by (simp add: remove_block_def cc edge_stone_world_def edge_stone_chunk_def get_block_local_def
        set_block_local_def in_chunk_bounds_def index_3d_def size_defs BLOCK_STONE_def BLOCK_AIR_def)
  then obtain w' where e: "remove_block edge_stone_world 7 5 3 = Inr (True, w')" by blast
  have "chunks w' (1, 0) = Some ((clean_air_chunk 1 0)\<lparr>dirty := True\<rparr>)"
    using boundary_dirtying_in_range [OF _ _ disjI2 [OF refl] e, where n = "clean_air_chunk 1 0"]
    by (simp add: edge_stone_world_def)
  then show ?thesis by (simp add: e)
qed

lemma place_block_dirties_neighbour:
  "(case place_block (\<lambda>cx cz. []) edge_stone_world 8 5 3 BLOCK_DIRT of
      Inl e \<Rightarrow> False
    | Inr (ok, w') \<Rightarrow> ok \<and> chunks w' (0, 0) = Some (edge_stone_chunk\<lparr>dirty := True\<rparr>))"
proof -
  have cc: "chunk_coord_x 8 = Inr 1" "chunk_coord_z 3 = Inr 0"
    using chunk_coord_x_exact [of 8] chunk_coord_z_exact [of 3] by simp_all
  have l: "chunks edge_stone_world (1, 0) = Some (clean_air_chunk 1 0)"
    by (simp add: edge_stone_world_def)
  have "\<exists>w'. place_block (\<lambda>cx cz. []) edge_stone_world 8 5 3 BLOCK_DIRT = Inr (True, w')"
    by (simp add: place_block_def cc ensure_chunk_loaded [OF l] clean_air_chunk_def new_Chunk_def
        get_block_local_def set_block_local_def in_chunk_bounds_def index_3d_def size_defs)
  then obtain w' where e: "place_block (\<lambda>cx cz. []) edge_stone_world 8 5 3 BLOCK_DIRT = Inr (True, w')"
    by blast
  have "chunks w' (0, 0) = Some (edge_stone_chunk\<lparr>dirty := True\<rparr>)"
    using boundary_dirtying_in_range [OF _ _ disjI1 [OF refl] e, where n = edge_stone_chunk]
    by (simp add: edge_stone_world_def)
  then show ?thesis by (simp add: e)
qed






subsection \<open>Length of the block grid\<close>

lemma new_Chunk_length: "length (blocks (new_Chunk cx cz)) = nat (CHUNK_SIZE_X * CHUNK_SIZE_Y * CHUNK_SIZE_Z)"
  by (simp add: new_Chunk_def)

lemma set_block_local_length:
  "set_block_local c lx y lz b = Inr c' \<Longrightarrow> length (blocks c') = length (blocks c)"
  by (auto simp: set_block_local_def Let_def split: if_splits)

lemma apply_writes_length:
  "apply_writes c ws = Inr c' \<Longrightarrow> length (blocks c') = length (blocks c)"
proof (induction ws arbitrary: c)
  case Nil
  then show ?case by simp
next
  case (Cons a ws)
  obtain lx y lz b where a: "a = (lx, y, lz, b)" by (cases a) auto
  from Cons.prems obtain c1 where s: "set_block_local c lx y lz b = Inr c1"
    and r: "apply_writes c1 ws = Inr c'"
    by (auto simp: a split: sum.splits)
  show ?case using Cons.IH [OF r] set_block_local_length [OF s] by simp
qed

lemma in_bounds_index:
  "in_chunk_bounds lx y lz \<Longrightarrow> nat (index_3d lx y lz) < nat (CHUNK_SIZE_X * CHUNK_SIZE_Y * CHUNK_SIZE_Z)"
  unfolding in_chunk_bounds_def index_3d_def size_defs
  by (auto simp: nat_less_iff)

lemma set_block_local_total:
  "length (blocks c) = nat (CHUNK_SIZE_X * CHUNK_SIZE_Y * CHUNK_SIZE_Z) \<Longrightarrow> \<exists>c'. set_block_local c lx y lz b = Inr c'"
  using in_bounds_index [of lx y lz]
  by (auto simp: set_block_local_def Let_def)

lemma apply_writes_total:
  "length (blocks c) = nat (CHUNK_SIZE_X * CHUNK_SIZE_Y * CHUNK_SIZE_Z) \<Longrightarrow> \<exists>c'. apply_writes c ws = Inr c'"
proof (induction ws arbitrary: c)
  case Nil
  then show ?case by simp
next
  case (Cons a ws)
  obtain lx y lz b where a: "a = (lx, y, lz, b)" by (cases a) auto
  obtain c1 where s: "set_block_local c lx y lz b = Inr c1"
    using set_block_local_total [OF Cons.prems] by blast
  have "length (blocks c1) = nat (CHUNK_SIZE_X * CHUNK_SIZE_Y * CHUNK_SIZE_Z)"
    using set_block_local_length [OF s] Cons.prems by simp
  from Cons.IH [OF this] show ?case by (simp add: a s)
qed

text \<open>Generation alone gives a grid of the right length.\<close>

lemma populate_length:
  "\<exists>c. populate_chunk_blocks gen (new_Chunk cx cz) cx cz = Inr c
       \<and> length (blocks c) = nat (CHUNK_SIZE_X * CHUNK_SIZE_Y * CHUNK_SIZE_Z)"
proof -
  obtain c where c: "apply_writes (new_Chunk cx cz) (gen cx cz) = Inr c"
    using apply_writes_total [OF new_Chunk_length] by blast
  show ?thesis
    using apply_writes_length [OF c] c by (simp add: populate_chunk_blocks_def new_Chunk_length)
qed

lemma mark_dirty_grids_ok: "grids_ok w \<Longrightarrow> grids_ok (mark_dirty w key)"
  by (auto simp: grids_ok_def mark_dirty_def split: option.splits if_splits)

lemma mark_neighbors_grids_ok: "grids_ok w \<Longrightarrow> grids_ok (mark_neighbors_dirty w wx wy wz cx cz)"
  by (simp add: mark_neighbors_dirty_def Let_def mark_dirty_grids_ok)

lemma grids_ok_update:
  "grids_ok w \<Longrightarrow> length (blocks c) = nat (CHUNK_SIZE_X * CHUNK_SIZE_Y * CHUNK_SIZE_Z)
     \<Longrightarrow> grids_ok (w\<lparr> chunks := (chunks w)(k \<mapsto> c) \<rparr>)"
  by (auto simp: grids_ok_def)

lemma remove_block_grids_ok:
  assumes "grids_ok w" and "remove_block w wx wy wz = Inr (ok, w')"
  shows "grids_ok w'"
proof (cases ok)
  case False
  with assms(2) have "w' = w"
    by (auto simp: remove_block_def Let_def split: if_splits option.splits sum.splits)
  with assms(1) show ?thesis by simp
next
  case True
  with assms(2) obtain cx cz c c' lx lz where c: "chunks w (cx, cz) = Some c"
    and s: "set_block_local c lx wy lz BLOCK_AIR = Inr c'"
    and w': "w' = mark_neighbors_dirty (w\<lparr> chunks := (chunks w)((cx, cz) \<mapsto> c') \<rparr>) wx wy wz cx cz"
    by (auto simp: remove_block_def Let_def split: if_splits option.splits sum.splits)
  have "length (blocks c') = nat (CHUNK_SIZE_X * CHUNK_SIZE_Y * CHUNK_SIZE_Z)"
    using set_block_local_length [OF s] assms(1) c by (auto simp: grids_ok_def)
  then show ?thesis
    unfolding w' by (intro mark_neighbors_grids_ok grids_ok_update assms(1))
qed

lemma ensure_chunk_grids_ok:
  assumes "grids_ok w" and "save_system w = None" and "ensure_chunk gen w cx cz = Inr (c, w')"
  shows "grids_ok w' \<and> chunks w' (cx, cz) = Some c \<and> save_system w' = None"
proof (cases "chunks w (cx, cz)")
  case None
  obtain c0 where c0: "populate_chunk_blocks gen (new_Chunk cx cz) cx cz = Inr c0"
    and l: "length (blocks c0) = nat (CHUNK_SIZE_X * CHUNK_SIZE_Y * CHUNK_SIZE_Z)"
    using populate_length by blast
  show ?thesis
    using assms None c0 l
    by (auto simp: ensure_chunk_def apply_saved_modifications_def intro!: grids_ok_update)
next
  case (Some a)
  then show ?thesis using assms by (auto simp: ensure_chunk_def)
qed

lemma place_block_grids_ok:
  assumes "grids_ok w" and "save_system w = None" and "place_block gen w wx wy wz b = Inr (ok, w')"
  shows "grids_ok w'"
proof (cases "wy \<le> 0 \<or> wy \<ge> CHUNK_SIZE_Y")
  case True
  then show ?thesis using assms by (auto simp: place_block_def)
next
  case False
  from assms(3) False obtain cx cz where cx: "chunk_coord_x wx = Inr cx" and cz: "chunk_coord_z wz = Inr cz"
    by (auto simp: place_block_def split: sum.splits)
  from assms(3) False obtain c w1 where e: "ensure_chunk gen w cx cz = Inr (c, w1)"
    by (auto simp: place_block_def cx cz Let_def split: sum.splits)
  note ok1 = ensure_chunk_grids_ok [OF assms(1,2) e]
  then have lc: "length (blocks c) = nat (CHUNK_SIZE_X * CHUNK_SIZE_Y * CHUNK_SIZE_Z)"
    by (auto simp: grids_ok_def)
  show ?thesis
  proof (cases ok)
    case False
    with assms(3) \<open>\<not> (wy \<le> 0 \<or> wy \<ge> CHUNK_SIZE_Y)\<close> have "w' = w1"
      by (auto simp: place_block_def cx cz Let_def e split: if_splits sum.splits)
    with ok1 show ?thesis by simp
  next
    case True
    with assms(3) \<open>\<not> (wy \<le> 0 \<or> wy \<ge> CHUNK_SIZE_Y)\<close> obtain c' lx lz where
      s: "set_block_local c lx wy lz b = Inr c'"
      and w': "w' = mark_neighbors_dirty (w1\<lparr> chunks := (chunks w1)((cx, cz) \<mapsto> c') \<rparr>) wx wy wz cx cz"
      by (auto simp: place_block_def cx cz Let_def e split: if_splits sum.splits)
    have "length (blocks c') = nat (CHUNK_SIZE_X * CHUNK_SIZE_Y * CHUNK_SIZE_Z)"
      using set_block_local_length [OF s] lc by simp
    then show ?thesis
      unfolding w' using ok1 by (intro mark_neighbors_grids_ok grids_ok_update) simp_all
  qed
qed

lemma chunk_coord_origin: "chunk_coord_x 0 = Inr 0" "chunk_coord_z 0 = Inr 0"
  using chunk_coord_x_exact [of 0] chunk_coord_z_exact [of 0] by simp_all

text \<open>
  C7. The grid of a chunk that \<open>ensure_chunk\<close> creates while the save system holds a
  block list of another length (here 4096 entries) has that length, not
  \<open>SX * SY * SZ = 8192\<close>; a later solidity query above the stored rows raises
  \<open>IndexError\<close>. Creation, generation and block writes keep the length
  (\<open>populate_length\<close>, \<open>remove_block_grids_ok\<close>, \<open>place_block_grids_ok\<close>).
\<close>

theorem saved_blocks_break_grid_length:
  "(case ensure_chunk (\<lambda>cx cz. []) stale_save_world 0 0 of
      Inl e \<Rightarrow> False
    | Inr (c, w') \<Rightarrow>
        chunks w' (0, 0) = Some c \<and> length (blocks c) = 4096
        \<and> length (blocks c) \<noteq> nat (CHUNK_SIZE_X * CHUNK_SIZE_Y * CHUNK_SIZE_Z)
        \<and> is_solid w' 0 100 0 = Inl IndexError)"
  by (simp add: ensure_chunk_def stale_save_world_def populate_chunk_blocks_def
      apply_saved_modifications_def is_solid_def get_block_local_def in_chunk_bounds_def
      index_3d_def chunk_coord_origin size_defs Let_def)

section \<open>Properties of the sweep\<close>

lemma foldl_clamp_min:
  fixes step :: "real \<times> bool \<Rightarrow> 'b \<Rightarrow> real \<times> bool"
  assumes step: "\<And>acc b. step acc b = (if P b then (min (fst acc) (c b), True) else acc)"
  shows "fst (foldl step (a, h) bs) \<le> a \<and> (\<forall>b\<in>set bs. P b \<longrightarrow> fst (foldl step (a, h) bs) \<le> c b)"
proof (induction bs arbitrary: a h)
  case Nil
  then show ?case by simp
next
  case (Cons b bs)
  show ?case
  proof (cases "P b")
    case True
    then have s: "step (a, h) b = (min a (c b), True)" by (simp add: step)
    from Cons.IH [of "min a (c b)" True] show ?thesis
      by (auto simp: s)
  next
    case False
    then have s: "step (a, h) b = (a, h)" by (simp add: step)
    from Cons.IH [of a h] False show ?thesis
      by (auto simp: s)
  qed
qed

lemma foldl_clamp_max:
  fixes step :: "real \<times> bool \<Rightarrow> 'b \<Rightarrow> real \<times> bool"
  assumes step: "\<And>acc b. step acc b = (if P b then (max (fst acc) (c b), True) else acc)"
  shows "a \<le> fst (foldl step (a, h) bs) \<and> (\<forall>b\<in>set bs. P b \<longrightarrow> c b \<le> fst (foldl step (a, h) bs))"
proof (induction bs arbitrary: a h)
  case Nil
  then show ?case by simp
next
  case (Cons b bs)
  show ?case
  proof (cases "P b")
    case True
    then have s: "step (a, h) b = (max a (c b), True)" by (simp add: step)
    from Cons.IH [of "max a (c b)" True] show ?thesis
      by (auto simp: s)
  next
    case False
    then have s: "step (a, h) b = (a, h)" by (simp add: step)
    from Cons.IH [of a h] False show ?thesis
      by (auto simp: s)
  qed
qed

text \<open>The result of a clamping loop is the start value or one of the candidates.\<close>

lemma foldl_clamp_mem:
  fixes step :: "real \<times> bool \<Rightarrow> 'b \<Rightarrow> real \<times> bool"
  assumes step: "\<And>acc b. step acc b = (if P b then (m (fst acc) (c b), True) else acc)"
    and m: "\<And>u v. m u v = u \<or> m u v = v"
  shows "fst (foldl step (a, h) bs) = a \<or> (\<exists>b\<in>set bs. P b \<and> fst (foldl step (a, h) bs) = c b)"
proof (induction bs arbitrary: a h)
  case Nil
  then show ?case by simp
next
  case (Cons b bs)
  show ?case
  proof (cases "P b")
    case True
    then have s: "step (a, h) b = (m a (c b), True)" by (simp add: step)
    from Cons.IH [of "m a (c b)" True] m [of a "c b"] True show ?thesis
      by (auto simp: s)
  next
    case False
    then have s: "step (a, h) b = (a, h)" by (simp add: step)
    from Cons.IH [of a h] show ?thesis
      by (auto simp: s)
  qed
qed

lemma foldl_clamp_hit:
  fixes step :: "real \<times> bool \<Rightarrow> 'b \<Rightarrow> real \<times> bool"
  assumes step: "\<And>acc b. step acc b = (if P b then (m (fst acc) (c b), True) else acc)"
  shows "snd (foldl step (a, h) bs) = (h \<or> (\<exists>b\<in>set bs. P b))"
proof (induction bs arbitrary: a h)
  case Nil
  then show ?case by simp
next
  case (Cons b bs)
  show ?case
    using Cons.IH [of "m a (c b)" True] Cons.IH [of a h]
    by (cases "P b") (auto simp: step)
qed

lemma sweep_step_form:
  "sweep_step axis solid_at aabb delta acc b =
     (if snd (sweep_step axis solid_at aabb delta (delta, False) b)
      then ((if delta > 0 then min else max) (fst acc) (face_gap axis aabb delta b), True)
      else acc)"
  by (cases b)
     (simp add: sweep_step_def sweep_step_x_def sweep_step_y_def sweep_step_z_def face_gap_def
        gap_up_def gap_down_def block_aabb_def Let_def)

lemma sweep_allowed_up:
  assumes "delta > 0"
  shows "fst (sweep_axis solid_at aabb delta axis) \<le> delta"
    and "blocks_sweep solid_at aabb delta axis b
         \<Longrightarrow> fst (sweep_axis solid_at aabb delta axis) \<le> face_gap axis aabb delta b"
proof -
  have step: "\<And>acc b. sweep_step axis solid_at aabb delta acc b =
     (if snd (sweep_step axis solid_at aabb delta (delta, False) b)
      then (min (fst acc) (face_gap axis aabb delta b), True) else acc)"
    by (rule trans [OF sweep_step_form]) (simp add: assms(1))
  note f = foldl_clamp_min [of "sweep_step axis solid_at aabb delta", OF step, of delta False
      "sweep_range aabb delta axis"]
  show "fst (sweep_axis solid_at aabb delta axis) \<le> delta"
    using f assms by (auto simp: sweep_axis_def)
  show "blocks_sweep solid_at aabb delta axis b
         \<Longrightarrow> fst (sweep_axis solid_at aabb delta axis) \<le> face_gap axis aabb delta b"
    using f assms by (auto simp: sweep_axis_def blocks_sweep_def)
qed

lemma sweep_allowed_down:
  assumes "delta < 0"
  shows "delta \<le> fst (sweep_axis solid_at aabb delta axis)"
    and "blocks_sweep solid_at aabb delta axis b
         \<Longrightarrow> face_gap axis aabb delta b \<le> fst (sweep_axis solid_at aabb delta axis)"
proof -
  have nd: "\<not> 0 < delta" using assms(1) by simp
  have step: "\<And>acc b. sweep_step axis solid_at aabb delta acc b =
     (if snd (sweep_step axis solid_at aabb delta (delta, False) b)
      then (max (fst acc) (face_gap axis aabb delta b), True) else acc)"
    by (rule trans [OF sweep_step_form]) (simp add: nd)
  note f = foldl_clamp_max [of "sweep_step axis solid_at aabb delta", OF step, of delta False
      "sweep_range aabb delta axis"]
  show "delta \<le> fst (sweep_axis solid_at aabb delta axis)"
    using f assms by (auto simp: sweep_axis_def)
  show "blocks_sweep solid_at aabb delta axis b
         \<Longrightarrow> face_gap axis aabb delta b \<le> fst (sweep_axis solid_at aabb delta axis)"
    using f assms by (auto simp: sweep_axis_def blocks_sweep_def)
qed

lemma set_sweep_coords:
  "set (sweep_coords x0 x1 y0 y1 z0 z1) =
     {(bx, by, bz). x0 \<le> bx \<and> bx \<le> x1 \<and> y0 \<le> by \<and> by \<le> y1 \<and> z0 \<le> bz \<and> bz \<le> z1}"
  by (auto simp: sweep_coords_def image_iff)

subsection \<open>Rounding in the clamp\<close>

lemma f64_between: "x - \<bar>x\<bar> / 2 ^ 53 \<le> f64 x" "f64 x \<le> x + \<bar>x\<bar> / 2 ^ 53"
  using f64_error [of x] by linarith+

lemma f32_between: "x - \<bar>x\<bar> / 2 ^ 24 \<le> f32 x" "f32 x \<le> x + \<bar>x\<bar> / 2 ^ 24"
  using f32_error [of x] by linarith+

lemma EPSILON_bounds: "999 / 1000000 \<le> EPSILON" "EPSILON \<le> 1001 / 1000000"
  using f64_between [of "1 / 1000"] by (simp_all add: EPSILON_def)

lemma real_of_int_abs_le:
  fixes b :: int
  assumes "\<bar>b\<bar> \<le> n"
  shows "\<bar>real_of_int b\<bar> \<le> of_int n"
  using assms by (metis of_int_abs of_int_le_iff)

text \<open>The upper corner of a block's box is exact for a block coordinate within \<open>2 ^ 52\<close>.\<close>

lemma block_top: "\<bar>b\<bar> \<le> 2 ^ 52 \<Longrightarrow> f64 (f64 (of_int b) + 1) = of_int b + 1"
  using f64_of_int [of b] f64_of_int [of "b + 1"] by simp

text \<open>
  With a gap of at most \<open>2 ^ 31\<close> the candidate stays short of the block's face by more
  than half of \<open>EPSILON\<close>, in both directions.
\<close>

lemma gap_up_below:
  assumes "hi \<le> of_int b" and "of_int b - hi \<le> 2 ^ 31" and "\<bar>b\<bar> \<le> 2 ^ 52"
  shows "gap_up hi b \<le> of_int b - hi - 1 / 2000"
proof -
  define g where "g = of_int b - hi"
  define t where "t = f64 g"
  define s where "s = t - EPSILON"
  have fb: "f64 (of_int b) = of_int b" using assms(3) by (intro f64_of_int) simp
  have c: "gap_up hi b = f64 s" by (simp add: gap_up_def fb g_def t_def s_def)
  have g: "0 \<le> g" "g \<le> 2147483648" using assms(1,2) by (simp_all add: g_def)
  have 1: "t \<le> g + g / 9007199254740992" "0 \<le> t"
    using f64_between(2) [of g] f64_mono [of 0 g] g(1) by (simp_all add: t_def f64_zero)
  have 2: "\<bar>s\<bar> \<le> 2147483650" using 1 g EPSILON_bounds unfolding s_def by linarith
  have 3: "f64 s \<le> s + \<bar>s\<bar> / 9007199254740992" using f64_between(2) [of s] by simp
  have 4: "\<bar>s\<bar> / 9007199254740992 \<le> 2147483650 / 9007199254740992"
    using 2 by (simp add: divide_right_mono)
  have 5: "g / 9007199254740992 \<le> 2147483648 / 9007199254740992" using g by simp
  have "f64 s \<le> g - 1 / 2000"
    using 1 3 4 5 EPSILON_bounds unfolding s_def by linarith
  then show ?thesis by (simp add: c g_def)
qed

lemma gap_down_above:
  assumes "of_int b + 1 \<le> lo" and "lo - (of_int b + 1) \<le> 2 ^ 31" and "\<bar>b\<bar> \<le> 2 ^ 52"
  shows "of_int b + 1 - lo + 1 / 2000 \<le> gap_down lo b"
proof -
  define g where "g = of_int b + 1 - lo"
  define t where "t = f64 g"
  define s where "s = t + EPSILON"
  have c: "gap_down lo b = f64 s" by (simp add: gap_down_def block_top [OF assms(3)] g_def t_def s_def)
  have g: "g \<le> 0" "- 2147483648 \<le> g" using assms(1,2) by (simp_all add: g_def)
  have 1: "g + g / 9007199254740992 \<le> t" "t \<le> 0"
    using f64_between(1) [of g] f64_mono [of g 0] g(1) by (simp_all add: t_def f64_zero)
  have 2: "\<bar>s\<bar> \<le> 2147483650" using 1 g EPSILON_bounds unfolding s_def by linarith
  have 3: "s - \<bar>s\<bar> / 9007199254740992 \<le> f64 s" using f64_between(1) [of s] by simp
  have 4: "\<bar>s\<bar> / 9007199254740992 \<le> 2147483650 / 9007199254740992"
    using 2 by (simp add: divide_right_mono)
  have 5: "- 2147483648 / 9007199254740992 \<le> g / 9007199254740992" using g by simp
  have "g + 1 / 2000 \<le> f64 s"
    using 1 3 4 5 EPSILON_bounds unfolding s_def by linarith
  then show ?thesis by (simp add: c g_def)
qed

text \<open>
  One axis, moving up: a face at \<open>b\<close> at or beyond the leading face \<open>hi\<close>. If the
  displacement applied is at most \<open>delta\<close>, and at most the candidate of \<open>b\<close> whenever
  the rounded sum \<open>hi + delta\<close> passes \<open>b\<close>, then the moved face does not pass \<open>b\<close>.
  Moving down likewise.
\<close>

lemma clear_up:
  assumes "hi \<le> of_int b" and "of_int b - hi \<le> 2 ^ 31" and "\<bar>b\<bar> \<le> 2 ^ 52" and "a \<le> delta"
    and "f64 (hi + delta) > of_int b \<Longrightarrow> a \<le> gap_up hi b"
  shows "f64 (hi + a) \<le> of_int b"
proof -
  have fb: "f64 (of_int b) = of_int b" using assms(3) by (intro f64_of_int) simp
  show ?thesis
  proof (cases "f64 (hi + delta) > of_int b")
    case True
    then have "hi + a \<le> of_int b" using assms(5) gap_up_below [OF assms(1-3)] by linarith
    from f64_mono [OF this] show ?thesis by (simp add: fb)
  next
    case False
    then show ?thesis using f64_mono [of "hi + a" "hi + delta"] assms(4) by linarith
  qed
qed

lemma clear_down:
  assumes "of_int b + 1 \<le> lo" and "lo - (of_int b + 1) \<le> 2 ^ 31" and "\<bar>b\<bar> \<le> 2 ^ 52" and "delta \<le> a"
    and "f64 (lo + delta) < of_int b + 1 \<Longrightarrow> gap_down lo b \<le> a"
  shows "of_int b + 1 \<le> f64 (lo + a)"
proof -
  have fb: "f64 (of_int b + 1) = of_int b + 1"
    using f64_of_int [of "b + 1"] assms(3) by simp
  show ?thesis
  proof (cases "f64 (lo + delta) < of_int b + 1")
    case True
    then have "of_int b + 1 \<le> lo + a" using assms(5) gap_down_above [OF assms(1-3)] by linarith
    from f64_mono [OF this] show ?thesis by (simp add: fb)
  next
    case False
    then show ?thesis using f64_mono [of "lo + delta" "lo + a"] assms(4) by linarith
  qed
qed

subsection \<open>The loops miss no block\<close>

lemma small_int:
  assumes "- 2147483649 \<le> real_of_int b" and "real_of_int b \<le> 2147483649"
  shows "\<bar>b\<bar> \<le> 2 ^ 52"
proof -
  have "- 2147483649 \<le> b" "b \<le> 2147483649" using assms by linarith+
  then show ?thesis by simp
qed

lemma beside_range:
  assumes "beside lo hi b" and "- (2 ^ 30) \<le> lo" and "hi \<le> 2 ^ 30"
  shows "\<bar>b\<bar> \<le> 2 ^ 52" and "\<lfloor>lo\<rfloor> \<le> b" and "b \<le> \<lfloor>hi\<rfloor> + 1"
    and "\<not> (hi \<le> of_int b \<or> lo \<ge> f64 (f64 (of_int b) + 1))"
proof -
  have r: "lo < of_int b + 1" "of_int b < hi" using assms(1) by (simp_all add: beside_def)
  show b: "\<bar>b\<bar> \<le> 2 ^ 52" using r assms(2,3) by (intro small_int) simp_all
  show "\<lfloor>lo\<rfloor> \<le> b" "b \<le> \<lfloor>hi\<rfloor> + 1" using r by linarith+
  show "\<not> (hi \<le> of_int b \<or> lo \<ge> f64 (f64 (of_int b) + 1))"
    using r by (simp add: block_top [OF b])
qed

text \<open>
  A solid block beside the box on the two other axes, whose near face is at or beyond
  the box's leading face and is passed by the rounded sum of that face and \<open>delta\<close>, is
  visited by the loops and takes the clamping branch.
\<close>

lemma hit_x:
  assumes "solid_at bx by bz"
    and "beside (min_y aabb) (max_y aabb) by" and "beside (min_z aabb) (max_z aabb) bz"
    and "box_in_range aabb" and "\<bar>bx\<bar> \<le> 2 ^ 52"
    and "(0 < delta \<and> max_x aabb \<le> of_int bx \<and> of_int bx < f64 (max_x aabb + delta))
       \<or> (delta < 0 \<and> of_int bx + 1 \<le> min_x aabb \<and> f64 (min_x aabb + delta) < of_int bx + 1)"
  shows "blocks_sweep solid_at aabb delta ''x'' (bx, by, bz)"
proof -
  have rng: "min_x aabb \<le> max_x aabb" "- (2 ^ 30) \<le> min_y aabb" "max_y aabb \<le> 2 ^ 30"
    "- (2 ^ 30) \<le> min_z aabb" "max_z aabb \<le> 2 ^ 30"
    using assms(4) by (simp_all add: box_in_range_def)
  note y = beside_range [OF assms(2) rng(2,3)]
  note z = beside_range [OF assms(3) rng(4,5)]
  from assms(6) show ?thesis
  proof
    assume a: "0 < delta \<and> max_x aabb \<le> of_int bx \<and> of_int bx < f64 (max_x aabb + delta)"
    then have "\<lfloor>min_x aabb\<rfloor> \<le> bx" "bx \<le> \<lfloor>f64 (max_x aabb + delta)\<rfloor> + 1"
      using rng(1) by linarith+
    with a y z assms(1) show ?thesis
      by (simp add: blocks_sweep_def sweep_range_def set_sweep_coords sweep_step_def
          sweep_step_x_def block_aabb_def Let_def)
  next
    assume a: "delta < 0 \<and> of_int bx + 1 \<le> min_x aabb \<and> f64 (min_x aabb + delta) < of_int bx + 1"
    then have "\<lfloor>f64 (min_x aabb + delta)\<rfloor> \<le> bx" "bx \<le> \<lfloor>max_x aabb\<rfloor> + 1"
      using rng(1) by linarith+
    with a y z assms(1) show ?thesis
      by (simp add: blocks_sweep_def sweep_range_def set_sweep_coords sweep_step_def
          sweep_step_x_def block_aabb_def Let_def block_top [OF assms(5)])
  qed
qed

lemma hit_y:
  assumes "solid_at bx by bz"
    and "beside (min_x aabb) (max_x aabb) bx" and "beside (min_z aabb) (max_z aabb) bz"
    and "box_in_range aabb" and "\<bar>by\<bar> \<le> 2 ^ 52"
    and "(0 < delta \<and> max_y aabb \<le> of_int by \<and> of_int by < f64 (max_y aabb + delta))
       \<or> (delta < 0 \<and> of_int by + 1 \<le> min_y aabb \<and> f64 (min_y aabb + delta) < of_int by + 1)"
  shows "blocks_sweep solid_at aabb delta ''y'' (bx, by, bz)"
proof -
  have rng: "min_y aabb \<le> max_y aabb" "- (2 ^ 30) \<le> min_x aabb" "max_x aabb \<le> 2 ^ 30"
    "- (2 ^ 30) \<le> min_z aabb" "max_z aabb \<le> 2 ^ 30"
    using assms(4) by (simp_all add: box_in_range_def)
  note x = beside_range [OF assms(2) rng(2,3)]
  note z = beside_range [OF assms(3) rng(4,5)]
  from assms(6) show ?thesis
  proof
    assume a: "0 < delta \<and> max_y aabb \<le> of_int by \<and> of_int by < f64 (max_y aabb + delta)"
    then have "\<lfloor>min_y aabb\<rfloor> \<le> by" "by \<le> \<lfloor>f64 (max_y aabb + delta)\<rfloor> + 1"
      using rng(1) by linarith+
    with a x z assms(1) show ?thesis
      by (simp add: blocks_sweep_def sweep_range_def set_sweep_coords sweep_step_def
          sweep_step_y_def block_aabb_def Let_def)
  next
    assume a: "delta < 0 \<and> of_int by + 1 \<le> min_y aabb \<and> f64 (min_y aabb + delta) < of_int by + 1"
    then have "\<lfloor>f64 (min_y aabb + delta)\<rfloor> \<le> by" "by \<le> \<lfloor>max_y aabb\<rfloor> + 1"
      using rng(1) by linarith+
    with a x z assms(1) show ?thesis
      by (simp add: blocks_sweep_def sweep_range_def set_sweep_coords sweep_step_def
          sweep_step_y_def block_aabb_def Let_def block_top [OF assms(5)])
  qed
qed

lemma hit_z:
  assumes "solid_at bx by bz"
    and "beside (min_x aabb) (max_x aabb) bx" and "beside (min_y aabb) (max_y aabb) by"
    and "box_in_range aabb" and "\<bar>bz\<bar> \<le> 2 ^ 52" and "axis \<noteq> ''x''" and "axis \<noteq> ''y''"
    and "(0 < delta \<and> max_z aabb \<le> of_int bz \<and> of_int bz < f64 (max_z aabb + delta))
       \<or> (delta < 0 \<and> of_int bz + 1 \<le> min_z aabb \<and> f64 (min_z aabb + delta) < of_int bz + 1)"
  shows "blocks_sweep solid_at aabb delta axis (bx, by, bz)"
proof -
  have rng: "min_z aabb \<le> max_z aabb" "- (2 ^ 30) \<le> min_x aabb" "max_x aabb \<le> 2 ^ 30"
    "- (2 ^ 30) \<le> min_y aabb" "max_y aabb \<le> 2 ^ 30"
    using assms(4) by (simp_all add: box_in_range_def)
  note x = beside_range [OF assms(2) rng(2,3)]
  note y = beside_range [OF assms(3) rng(4,5)]
  from assms(8) show ?thesis
  proof
    assume a: "0 < delta \<and> max_z aabb \<le> of_int bz \<and> of_int bz < f64 (max_z aabb + delta)"
    then have "\<lfloor>min_z aabb\<rfloor> \<le> bz" "bz \<le> \<lfloor>f64 (max_z aabb + delta)\<rfloor> + 1"
      using rng(1) by linarith+
    with a x y assms(1,6,7) show ?thesis
      by (simp add: blocks_sweep_def sweep_range_def set_sweep_coords sweep_step_def
          sweep_step_z_def block_aabb_def Let_def)
  next
    assume a: "delta < 0 \<and> of_int bz + 1 \<le> min_z aabb \<and> f64 (min_z aabb + delta) < of_int bz + 1"
    then have "\<lfloor>f64 (min_z aabb + delta)\<rfloor> \<le> bz" "bz \<le> \<lfloor>max_z aabb\<rfloor> + 1"
      using rng(1) by linarith+
    with a x y assms(1,6,7) show ?thesis
      by (simp add: blocks_sweep_def sweep_range_def set_sweep_coords sweep_step_def
          sweep_step_z_def block_aabb_def Let_def block_top [OF assms(5)])
  qed
qed

lemma ahead_clear:
  assumes ah: "ahead lo hi delta b"
    and rng: "- (2 ^ 30) \<le> lo" "lo \<le> hi" "hi \<le> 2 ^ 30" "\<bar>delta\<bar> \<le> 2 ^ 30"
    and le: "0 < delta \<Longrightarrow> a \<le> delta" and ge: "delta < 0 \<Longrightarrow> delta \<le> a"
    and up: "0 < delta \<Longrightarrow> of_int b < f64 (hi + delta) \<Longrightarrow> a \<le> gap_up hi b"
    and down: "delta < 0 \<Longrightarrow> f64 (lo + delta) < of_int b + 1 \<Longrightarrow> gap_down lo b \<le> a"
  shows "f64 (hi + a) \<le> of_int b \<or> f64 (f64 (of_int b) + 1) \<le> f64 (lo + a)"
proof -
  have rng': "- 1073741824 \<le> lo" "lo \<le> hi" "hi \<le> 1073741824" "\<bar>delta\<bar> \<le> 1073741824"
    using rng by simp_all
  from ah consider
      (u) "0 < delta" "hi \<le> of_int b" "of_int b < hi + delta"
    | (d) "delta < 0" "of_int b + 1 \<le> lo" "lo + delta < of_int b + 1"
    by (auto simp: ahead_def)
  then show ?thesis
  proof cases
    case u
    have b: "\<bar>b\<bar> \<le> 2 ^ 52" using u rng' by (intro small_int) linarith+
    have "of_int b - hi \<le> 2147483648" using u rng' by linarith
    then have g: "of_int b - hi \<le> 2 ^ 31" by simp
    have "f64 (hi + a) \<le> of_int b"
      using clear_up [OF u(2) g b le [OF u(1)]] up [OF u(1)] by blast
    then show ?thesis ..
  next
    case d
    have b: "\<bar>b\<bar> \<le> 2 ^ 52" using d rng' by (intro small_int) linarith+
    have "lo - (of_int b + 1) \<le> 2147483648" using d rng' by linarith
    then have g: "lo - (of_int b + 1) \<le> 2 ^ 31" by simp
    have "of_int b + 1 \<le> f64 (lo + a)"
      using clear_down [OF d(2) g b ge [OF d(1)]] down [OF d(1)] by blast
    then show ?thesis by (simp add: block_top [OF b])
  qed
qed

lemma ahead_small:
  assumes "ahead lo hi delta b" and "- (2 ^ 30) \<le> lo" "lo \<le> hi" "hi \<le> 2 ^ 30" "\<bar>delta\<bar> \<le> 2 ^ 30"
  shows "\<bar>b\<bar> \<le> 2 ^ 52"
proof -
  have rng': "- 1073741824 \<le> lo" "lo \<le> hi" "hi \<le> 1073741824" "\<bar>delta\<bar> \<le> 1073741824"
    using assms(2-5) by simp_all
  from assms(1) consider
      (u) "0 < delta" "hi \<le> of_int b" "of_int b < hi + delta"
    | (d) "delta < 0" "of_int b + 1 \<le> lo" "lo + delta < of_int b + 1"
    by (auto simp: ahead_def)
  then show ?thesis
  proof cases
    case u
    then show ?thesis using rng' by (intro small_int) linarith+
  next
    case d
    then show ?thesis using rng' by (intro small_int) linarith+
  qed
qed

lemma clear_x:
  assumes "solid_at bx by bz" and "in_path ''x'' aabb delta (bx, by, bz)"
    and "box_in_range aabb" and "\<bar>delta\<bar> \<le> 2 ^ 30"
  shows "\<not> intersects (moved aabb (fst (sweep_axis solid_at aabb delta ''x'')) 0 0) (block_aabb bx by bz)"
proof -
  let ?a = "fst (sweep_axis solid_at aabb delta ''x'')"
  have p: "ahead (min_x aabb) (max_x aabb) delta bx"
    "beside (min_y aabb) (max_y aabb) by" "beside (min_z aabb) (max_z aabb) bz"
    using assms(2) by (simp_all add: in_path_def)
  have rng: "- (2 ^ 30) \<le> min_x aabb" "min_x aabb \<le> max_x aabb" "max_x aabb \<le> 2 ^ 30"
    using assms(3) by (simp_all add: box_in_range_def)
  note b = ahead_small [OF p(1) rng assms(4)]
  have "f64 (max_x aabb + ?a) \<le> of_int bx \<or> f64 (f64 (of_int bx) + 1) \<le> f64 (min_x aabb + ?a)"
  proof (rule ahead_clear [OF p(1) rng assms(4)])
    show "0 < delta \<Longrightarrow> ?a \<le> delta" by (rule sweep_allowed_up(1))
    show "delta < 0 \<Longrightarrow> delta \<le> ?a" by (rule sweep_allowed_down(1))
    show "?a \<le> gap_up (max_x aabb) bx" if "0 < delta" "of_int bx < f64 (max_x aabb + delta)"
      using sweep_allowed_up(2) [OF that(1) hit_x [of solid_at bx "by" bz aabb delta, OF assms(1) p(2,3) assms(3) b]] that p(1)
      by (simp add: face_gap_def ahead_def)
    show "gap_down (min_x aabb) bx \<le> ?a" if "delta < 0" "f64 (min_x aabb + delta) < of_int bx + 1"
      using sweep_allowed_down(2) [OF that(1) hit_x [of solid_at bx "by" bz aabb delta, OF assms(1) p(2,3) assms(3) b]] that p(1)
      by (simp add: face_gap_def ahead_def)
  qed
  then show ?thesis by (auto simp: intersects_def moved_def block_aabb_def)
qed

lemma clear_y:
  assumes "solid_at bx by bz" and "in_path ''y'' aabb delta (bx, by, bz)"
    and "box_in_range aabb" and "\<bar>delta\<bar> \<le> 2 ^ 30"
  shows "\<not> intersects (moved aabb 0 (fst (sweep_axis solid_at aabb delta ''y'')) 0) (block_aabb bx by bz)"
proof -
  let ?a = "fst (sweep_axis solid_at aabb delta ''y'')"
  have p: "ahead (min_y aabb) (max_y aabb) delta by"
    "beside (min_x aabb) (max_x aabb) bx" "beside (min_z aabb) (max_z aabb) bz"
    using assms(2) by (simp_all add: in_path_def)
  have rng: "- (2 ^ 30) \<le> min_y aabb" "min_y aabb \<le> max_y aabb" "max_y aabb \<le> 2 ^ 30"
    using assms(3) by (simp_all add: box_in_range_def)
  note b = ahead_small [OF p(1) rng assms(4)]
  have "f64 (max_y aabb + ?a) \<le> of_int by \<or> f64 (f64 (of_int by) + 1) \<le> f64 (min_y aabb + ?a)"
  proof (rule ahead_clear [OF p(1) rng assms(4)])
    show "0 < delta \<Longrightarrow> ?a \<le> delta" by (rule sweep_allowed_up(1))
    show "delta < 0 \<Longrightarrow> delta \<le> ?a" by (rule sweep_allowed_down(1))
    show "?a \<le> gap_up (max_y aabb) by" if "0 < delta" "of_int by < f64 (max_y aabb + delta)"
      using sweep_allowed_up(2) [OF that(1) hit_y [of solid_at bx "by" bz aabb delta, OF assms(1) p(2,3) assms(3) b]] that p(1)
      by (simp add: face_gap_def ahead_def)
    show "gap_down (min_y aabb) by \<le> ?a" if "delta < 0" "f64 (min_y aabb + delta) < of_int by + 1"
      using sweep_allowed_down(2) [OF that(1) hit_y [of solid_at bx "by" bz aabb delta, OF assms(1) p(2,3) assms(3) b]] that p(1)
      by (simp add: face_gap_def ahead_def)
  qed
  then show ?thesis by (auto simp: intersects_def moved_def block_aabb_def)
qed

lemma clear_z:
  assumes "solid_at bx by bz" and "in_path axis aabb delta (bx, by, bz)"
    and "box_in_range aabb" and "\<bar>delta\<bar> \<le> 2 ^ 30" and "axis \<noteq> ''x''" and "axis \<noteq> ''y''"
  shows "\<not> intersects (moved aabb 0 0 (fst (sweep_axis solid_at aabb delta axis))) (block_aabb bx by bz)"
proof -
  let ?a = "fst (sweep_axis solid_at aabb delta axis)"
  have p: "ahead (min_z aabb) (max_z aabb) delta bz"
    "beside (min_x aabb) (max_x aabb) bx" "beside (min_y aabb) (max_y aabb) by"
    using assms(2,5,6) by (simp_all add: in_path_def)
  have rng: "- (2 ^ 30) \<le> min_z aabb" "min_z aabb \<le> max_z aabb" "max_z aabb \<le> 2 ^ 30"
    using assms(3) by (simp_all add: box_in_range_def)
  note b = ahead_small [OF p(1) rng assms(4)]
  have "f64 (max_z aabb + ?a) \<le> of_int bz \<or> f64 (f64 (of_int bz) + 1) \<le> f64 (min_z aabb + ?a)"
  proof (rule ahead_clear [OF p(1) rng assms(4)])
    show "0 < delta \<Longrightarrow> ?a \<le> delta" by (rule sweep_allowed_up(1))
    show "delta < 0 \<Longrightarrow> delta \<le> ?a" by (rule sweep_allowed_down(1))
    show "?a \<le> gap_up (max_z aabb) bz" if "0 < delta" "of_int bz < f64 (max_z aabb + delta)"
      using sweep_allowed_up(2) [OF that(1) hit_z [of solid_at bx "by" bz aabb axis delta, OF assms(1) p(2,3) assms(3) b assms(5,6)]] that p(1)
        assms(5,6)
      by (simp add: face_gap_def ahead_def)
    show "gap_down (min_z aabb) bz \<le> ?a" if "delta < 0" "f64 (min_z aabb + delta) < of_int bz + 1"
      using sweep_allowed_down(2) [OF that(1) hit_z [of solid_at bx "by" bz aabb axis delta, OF assms(1) p(2,3) assms(3) b assms(5,6)]] that p(1)
        assms(5,6)
      by (simp add: face_gap_def ahead_def)
  qed
  then show ?thesis by (auto simp: intersects_def moved_def block_aabb_def)
qed

subsection \<open>A box beyond \<open>2 ^ 53\<close>\<close>

text \<open>
  Between \<open>2 ^ 53\<close> and \<open>2 ^ 54\<close> the floats are the even integers: \<open>2 ^ 53 + 3\<close> and
  \<open>2 ^ 53 + 5\<close> are both rounded to \<open>2 ^ 53 + 4\<close>.
\<close>

lemma f64_far:
  "f64 9007199254740995 = 9007199254740996"
  "f64 9007199254740997 = 9007199254740996"
  "f64 9007199254740998 = 9007199254740998"
  "f64 (9007199254740992 + 7 / 2) = 9007199254740996"
  "f64 (9007199254740992 + 29995 / 10000) = 9007199254740994"
proof -
  have "rnd 53 9007199254740995 =
      of_int (if even (4503599627370497 :: int) then 4503599627370497 else 4503599627370497 + 1)
        * pow2 (53 - int 53 + 1)"
    by (rule rnd_eval_tie) (simp_all add: pow2_def)
  then show "f64 9007199254740995 = 9007199254740996" by (simp add: f64_def pow2_def)
  have "rnd 53 9007199254740997 =
      of_int (if even (4503599627370498 :: int) then 4503599627370498 else 4503599627370498 + 1)
        * pow2 (53 - int 53 + 1)"
    by (rule rnd_eval_tie) (simp_all add: pow2_def)
  then show "f64 9007199254740997 = 9007199254740996" by (simp add: f64_def pow2_def)
  show "f64 9007199254740998 = 9007199254740998"
    using f64_exact [of 4503599627370499 1] by (simp add: pow2_def)
  have "rnd 53 (9007199254740992 + 7 / 2) = of_int 4503599627370498 * pow2 (53 - int 53 + 1)"
    by (rule rnd_eval) (simp_all add: pow2_def)
  then show "f64 (9007199254740992 + 7 / 2) = 9007199254740996" by (simp add: f64_def pow2_def)
  have "rnd 53 (9007199254740992 + 29995 / 10000) = of_int 4503599627370497 * pow2 (53 - int 53 + 1)"
    by (rule rnd_eval) (simp_all add: pow2_def)
  then show "f64 (9007199254740992 + 29995 / 10000) = 9007199254740994" by (simp add: f64_def pow2_def)
qed

lemma f64_small: "f64 1 = 1" "f64 4 = 4" "f64 6 = 6"
  using f64_of_int [of 1] f64_of_int [of 4] f64_of_int [of 6] by simp_all

text \<open>The candidate of the wall at \<open>2 ^ 53 + 3\<close>: the float next to \<open>4 - 0.001\<close>.\<close>

lemma far_gap:
  "gap_up 9007199254740992 9007199254740995 = f64 (4 - EPSILON)"
  "7 / 2 \<le> f64 (4 - EPSILON)" "f64 (4 - EPSILON) \<le> 39995 / 10000"
proof -
  show "gap_up 9007199254740992 9007199254740995 = f64 (4 - EPSILON)"
    by (simp add: gap_up_def f64_far f64_small)
  define A where "A = \<bar>4 - EPSILON\<bar> / 2 ^ 53"
  have "\<bar>4 - EPSILON\<bar> \<le> 4" using EPSILON_bounds by linarith
  then have "\<bar>4 - EPSILON\<bar> / 2 ^ 53 \<le> 4 / 2 ^ 53" by (rule divide_right_mono) simp
  then have A: "A \<le> 1 / 1000000" by (simp add: A_def)
  have b: "4 - EPSILON - A \<le> f64 (4 - EPSILON)" "f64 (4 - EPSILON) \<le> 4 - EPSILON + A"
    using f64_between [of "4 - EPSILON"] by (simp_all only: A_def)
  show "7 / 2 \<le> f64 (4 - EPSILON)" "f64 (4 - EPSILON) \<le> 39995 / 10000"
    using A b EPSILON_bounds by linarith+
qed

lemma far_block_hit: "blocks_sweep far_wall far_box 6 ''x'' (9007199254740995, 0, 0)"
  by (simp add: blocks_sweep_def sweep_range_def set_sweep_coords sweep_step_def sweep_step_x_def
      far_box_def far_wall_def block_aabb_def Let_def f64_far f64_small f64_zero)

lemma far_sweep_result: "sweep_axis far_wall far_box 6 ''x'' = (f64 (4 - EPSILON), True)"
proof -
  let ?step = "sweep_step ''x'' far_wall far_box 6"
  let ?bs = "sweep_range far_box 6 ''x''"
  let ?P = "\<lambda>b. snd (?step (6, False) b)"
  let ?c = "face_gap ''x'' far_box 6"
  let ?b0 = "(9007199254740995, 0, 0) :: int \<times> int \<times> int"
  have step: "\<And>acc b. ?step acc b = (if ?P b then (min (fst acc) (?c b), True) else acc)"
    by (rule trans [OF sweep_step_form]) simp
  have b0: "?b0 \<in> set ?bs" "?P ?b0" using far_block_hit by (simp_all add: blocks_sweep_def)
  have c: "?c b = f64 (4 - EPSILON)" if "?P b" for b
  proof -
    obtain bx "by" bz where b: "b = (bx, by, bz)" by (cases b) auto
    have "far_wall bx by bz"
      using that by (auto simp: b sweep_step_def sweep_step_x_def Let_def split: if_splits)
    then have "bx = 9007199254740995" by (simp add: far_wall_def)
    then show ?thesis using far_gap(1) by (simp add: b face_gap_def far_box_def)
  qed
  have le: "fst (foldl ?step (6, False) ?bs) \<le> f64 (4 - EPSILON)"
    using foldl_clamp_min [of ?step ?P ?c 6 False ?bs, OF step] b0 c [OF b0(2)] by auto
  have m: "\<And>u v :: real. min u v = u \<or> min u v = v" by (simp add: min_def)
  from foldl_clamp_mem [of ?step ?P min ?c 6 False ?bs, OF step m]
  have "fst (foldl ?step (6, False) ?bs) = 6 \<or> fst (foldl ?step (6, False) ?bs) = f64 (4 - EPSILON)"
    using c by auto
  then have v: "fst (foldl ?step (6, False) ?bs) = f64 (4 - EPSILON)"
    using le far_gap(3) by linarith
  have h: "snd (foldl ?step (6, False) ?bs)"
    using foldl_clamp_hit [of ?step ?P min ?c 6 False ?bs, OF step] b0 by auto
  show ?thesis using v h by (simp add: sweep_axis_def prod_eq_iff)
qed

text \<open>
  C1, as stated, for the box \<open>far_box\<close>, \<open>delta = 6\<close> along \<open>x\<close> and the wall at
  \<open>bx = 2 ^ 53 + 3\<close>: the block \<open>(2 ^ 53 + 3, 0, 0)\<close> is solid, lies in the path of the
  box and takes the clamping branch of the loop, the sweep reports a hit, and the box
  moved by the returned displacement intersects the block's box. The returned
  displacement is the float next to \<open>3.999\<close>; added to the faces \<open>2 ^ 53 - 1\<close> and
  \<open>2 ^ 53\<close> it gives \<open>2 ^ 53 + 2\<close> and \<open>2 ^ 53 + 4\<close>, the block's box spans
  \<open>2 ^ 53 + 3\<close> to \<open>2 ^ 53 + 4\<close>.
\<close>

theorem far_sweep_penetrates:
  "far_wall (2 ^ 53 + 3) 0 0
   \<and> in_path ''x'' far_box 6 (2 ^ 53 + 3, 0, 0)
   \<and> blocks_sweep far_wall far_box 6 ''x'' (2 ^ 53 + 3, 0, 0)
   \<and> snd (sweep_axis far_wall far_box 6 ''x'')
   \<and> intersects (moved_along ''x'' far_box (fst (sweep_axis far_wall far_box 6 ''x'')))
        (block_aabb (2 ^ 53 + 3) 0 0)"
proof -
  let ?a = "f64 (4 - EPSILON)"
  have p: "in_path ''x'' far_box 6 (9007199254740995, 0, 0)"
    by (simp add: in_path_def ahead_def beside_def far_box_def)
  have "f64 (9007199254740992 + 7 / 2) \<le> f64 (9007199254740992 + ?a)"
    by (rule f64_mono) (use far_gap(2) in linarith)
  then have hi: "9007199254740996 \<le> f64 (9007199254740992 + ?a)"
    by (simp only: f64_far)
  have "f64 (9007199254740991 + ?a) \<le> f64 (9007199254740992 + 29995 / 10000)"
    by (rule f64_mono) (use far_gap(3) in linarith)
  then have lo: "f64 (9007199254740991 + ?a) \<le> 9007199254740994"
    by (simp only: f64_far)
  have y: "f64 (7 / 4) = 7 / 4" "f64 (1 / 4) = 1 / 4" "f64 (3 / 4) = 3 / 4"
    using f64_exact [of 7 "- 2"] f64_exact [of 1 "- 2"] f64_exact [of 3 "- 2"]
    by (simp_all add: pow2_def)
  have i: "intersects (moved far_box ?a 0 0) (block_aabb 9007199254740995 0 0)"
    using hi lo
    by (simp add: intersects_def moved_def block_aabb_def far_box_def f64_far f64_small f64_zero y)
  show ?thesis
    using p far_block_hit i
    by (simp add: far_wall_def far_sweep_result moved_along_def)
qed

lemma wall_sweep_clamped: "fst (sweep_axis wall_at_3 small_box 5 ''x'') \<le> 3 / 2 - 1 / 2000"
proof -
  have r: "box_in_range small_box" by (simp add: box_in_range_def small_box_def)
  have e: "f64 (13 / 2) = 13 / 2" using f64_exact [of 13 "- 1"] by (simp add: pow2_def)
  have h: "blocks_sweep wall_at_3 small_box 5 ''x'' (3, 0, 0)"
    by (rule hit_x [OF _ _ _ r]) (simp_all add: wall_at_3_def beside_def small_box_def e)
  have "fst (sweep_axis wall_at_3 small_box 5 ''x'') \<le> gap_up (3 / 2) 3"
    using sweep_allowed_up(2) [OF _ h] by (simp add: face_gap_def small_box_def)
  moreover have "gap_up (3 / 2) 3 \<le> of_int 3 - 3 / 2 - 1 / 2000"
    by (rule gap_up_below) simp_all
  ultimately show ?thesis by simp
qed

text \<open>
  C1, amended. For every box with \<open>min \<le> max\<close> on each axis and coordinates of
  magnitude at most \<open>2 ^ 30\<close>, every displacement \<open>delta\<close> of magnitude at most
  \<open>2 ^ 30\<close> along one axis and every solidity function: the box moved along that axis
  by the \<open>allowed_delta\<close> that the sweep returns does not intersect the unit cube of any
  solid block that lies in the path of the box (\<open>in_path\<close>).
\<close>

theorem sweep_clears_block_in_path:
  assumes "solid_at bx by bz"
    and "in_path axis aabb delta (bx, by, bz)"
    and "box_in_range aabb"
    and "\<bar>delta\<bar> \<le> 2 ^ 30"
  shows "\<not> intersects (moved_along axis aabb (fst (sweep_axis solid_at aabb delta axis)))
           (block_aabb bx by bz)"
proof -
  consider "axis = ''x''" | "axis = ''y''" | "axis \<noteq> ''x''" "axis \<noteq> ''y''" by blast
  then show ?thesis
  proof cases
    case 1
    then show ?thesis using clear_x [of solid_at bx "by" bz aabb delta] assms
      by (simp add: moved_along_def)
  next
    case 2
    then show ?thesis using clear_y [of solid_at bx "by" bz aabb delta] assms
      by (simp add: moved_along_def)
  next
    case 3
    then show ?thesis using clear_z [of solid_at bx "by" bz axis aabb delta] assms
      by (simp add: moved_along_def)
  qed
qed

theorem sweep_clears_block_in_path_witness:
  "wall_at_3 3 0 0 \<and> in_path ''x'' small_box 5 (3, 0, 0) \<and> box_in_range small_box
   \<and> \<bar>5 :: real\<bar> \<le> 2 ^ 30
   \<and> fst (sweep_axis wall_at_3 small_box 5 ''x'') < 5
   \<and> \<not> intersects (moved_along ''x'' small_box (fst (sweep_axis wall_at_3 small_box 5 ''x'')))
         (block_aabb 3 0 0)
   \<and> floor_below_10 4 9 4 \<and> in_path ''y'' box_at_12 (- 27) (4, 9, 4) \<and> box_in_range box_at_12
   \<and> \<bar>- 27 :: real\<bar> \<le> 2 ^ 30
   \<and> \<not> intersects
         (moved_along ''y'' box_at_12 (fst (sweep_axis floor_below_10 box_at_12 (- 27) ''y'')))
         (block_aabb 4 9 4)"
  using sweep_clears_block_in_path [of wall_at_3 3 0 0 "''x''" small_box 5]
    sweep_clears_block_in_path [of floor_below_10 4 9 4 "''y''" box_at_12 "- 27"]
    wall_sweep_clamped
  by (simp add: wall_at_3_def floor_below_10_def in_path_def ahead_def beside_def box_in_range_def
      small_box_def box_at_12_def)

section \<open>Properties of the physics step\<close>

lemma f64_pos: "0 < x \<Longrightarrow> 0 < f64 x"
proof -
  assume x: "0 < x"
  have "\<bar>x\<bar> / 2 ^ 53 \<le> \<bar>x\<bar> / 2" by (rule divide_left_mono) simp_all
  then show ?thesis using f64_between(1) [of x] x by linarith
qed

lemma f64_neg: "x < 0 \<Longrightarrow> f64 x < 0"
  using f64_pos [of "- x"] by (simp add: f64_minus)

lemma f32_neg: "x < 0 \<Longrightarrow> f32 x < 0"
proof -
  assume x: "x < 0"
  have "\<bar>x\<bar> / 2 ^ 24 \<le> \<bar>x\<bar> / 2" by (rule divide_left_mono) simp_all
  then show ?thesis using f32_between(2) [of x] x by linarith
qed

lemma heal_fields:
  "position (heal p a) = position p" "velocity (heal p a) = velocity p"
  "on_ground (heal p a) = on_ground p" "is_flying (heal p a) = is_flying p"
  "hunger (heal p a) = hunger p" "saturation (heal p a) = saturation p"
  by (simp_all add: heal_def Let_def)

lemma consume_hunger_fields:
  "position (consume_hunger p a) = position p" "velocity (consume_hunger p a) = velocity p"
  "on_ground (consume_hunger p a) = on_ground p" "is_flying (consume_hunger p a) = is_flying p"
  "health (consume_hunger p a) = health p"
  by (simp_all add: consume_hunger_def Let_def split: prod.splits)

lemma heal_positive:
  assumes "0 < health p" and "health p < max_health p"
  shows "0 < health (heal p 1)"
  using assms f64_pos [of "health p + 1"] by (simp add: heal_def Let_def)

text \<open>
  In creative mode, or with positive health, the survival update leaves the position,
  the velocity and the two flags as they are: the player does not respawn.
\<close>

lemma update_survival_keeps:
  assumes "game_mode p = ''Creative'' \<or> 0 < health p"
  shows "position (update_survival th p dt) = position p"
    and "velocity (update_survival th p dt) = velocity p"
    and "on_ground (update_survival th p dt) = on_ground p"
    and "is_flying (update_survival th p dt) = is_flying p"
proof -
  have "position (update_survival th p dt) = position p
      \<and> velocity (update_survival th p dt) = velocity p
      \<and> on_ground (update_survival th p dt) = on_ground p
      \<and> is_flying (update_survival th p dt) = is_flying p"
  proof (cases "game_mode p = ''Creative''")
    case True
    then show ?thesis by (simp add: update_survival_def)
  next
    case False
    with assms have h: "0 < health p" by simp
    show ?thesis
      using h heal_positive [of "p\<lparr> regen_timer := f64 (regen_timer p + dt) \<rparr>"]
      by (auto simp: update_survival_def Let_def False heal_fields consume_hunger_fields)
  qed
  then show "position (update_survival th p dt) = position p"
    and "velocity (update_survival th p dt) = velocity p"
    and "on_ground (update_survival th p dt) = on_ground p"
    and "is_flying (update_survival th p dt) = is_flying p"
    by simp_all
qed

lemma update_horizontal_idle:
  assumes "\<not> keys ''forward''" and "\<not> keys ''back''" and "\<not> keys ''left''" and "\<not> keys ''right''"
    and "vec_x (velocity p) = 0" and "vec_z (velocity p) = 0"
  shows "vec_x (velocity (update_horizontal lm p keys dt None)) = 0"
    and "vec_y (velocity (update_horizontal lm p keys dt None)) = vec_y (velocity p)"
    and "vec_z (velocity (update_horizontal lm p keys dt None)) = 0"
    and "position (update_horizontal lm p keys dt None) = position p"
    and "on_ground (update_horizontal lm p keys dt None) = on_ground p"
    and "is_flying (update_horizontal lm p keys dt None) = is_flying p"
  using assms by (simp_all add: update_horizontal_def Let_def approach_def f64_zero f32_zero)

lemma update_vertical_idle:
  assumes "\<not> keys ''jump''" and "\<not> is_flying p"
  shows "vec_y (velocity (update_vertical p keys dt now))
           = f32 (f64 (vec_y (velocity p) - f64 (GRAVITY * dt)))"
    and "vec_x (velocity (update_vertical p keys dt now)) = vec_x (velocity p)"
    and "vec_z (velocity (update_vertical p keys dt now)) = vec_z (velocity p)"
    and "position (update_vertical p keys dt now) = position p"
    and "on_ground (update_vertical p keys dt now) = on_ground p"
    and "is_flying (update_vertical p keys dt now) = is_flying p"
  using assms by (simp_all add: update_vertical_def Let_def)

lemma integrate_x_still:
  "integrate_x solid_at p aabb 0 =
     (p\<lparr> position := (position p)\<lparr> vec_x := f32 (f64 (vec_x (position p))) \<rparr> \<rparr>, moved aabb 0 0 0)"
  by (simp add: integrate_x_def sweep_axis_def)

lemma integrate_z_still:
  "integrate_z solid_at p aabb 0 =
     (p\<lparr> position := (position p)\<lparr> vec_z := f32 (f64 (vec_z (position p))) \<rparr> \<rparr>, moved aabb 0 0 0)"
  by (simp add: integrate_z_def sweep_axis_def)

text \<open>
  Moving the player's box by zero changes no face but the lower one, which is the
  position's \<open>y\<close> passed through one float addition.
\<close>

lemma moved_zero_player:
  "moved (player_aabb p) 0 0 0 = (player_aabb p)\<lparr> min_y := f64 (vec_y (position p)) \<rparr>"
  by (simp add: moved_def player_aabb_def Let_def f64_idem)

subsection \<open>The downward sweep onto a floor\<close>

lemma beside_from_test:
  assumes "\<not> (hi \<le> of_int b \<or> lo \<ge> f64 (f64 (of_int b) + 1))"
    and "\<lfloor>lo\<rfloor> \<le> b" and "b \<le> \<lfloor>hi\<rfloor> + 1" and "- (2 ^ 30) \<le> lo" and "hi \<le> 2 ^ 30"
  shows "beside lo hi b"
proof -
  have r: "- 1073741824 \<le> lo" "hi \<le> 1073741824" using assms(4,5) by simp_all
  have "real_of_int \<lfloor>lo\<rfloor> \<le> of_int b" "real_of_int b \<le> of_int (\<lfloor>hi\<rfloor> + 1)"
    using assms(2,3) by (simp_all only: of_int_le_iff)
  then have "- 2147483649 \<le> real_of_int b" "real_of_int b \<le> 2147483649"
    using r by linarith+
  then have b: "\<bar>b\<bar> \<le> 2 ^ 52" by (rule small_int)
  show ?thesis using assms(1) by (simp add: beside_def block_top [OF b])
qed

lemma gap_down_mono: "b \<le> c \<Longrightarrow> gap_down lo b \<le> gap_down lo c"
  unfolding gap_down_def by (intro f64_mono add_mono diff_mono) simp_all

lemma sweep_step_y_facts:
  assumes "snd (sweep_step ''y'' solid_at aabb delta (delta, False) (bx, by, bz))"
  shows "solid_at bx by bz"
    and "\<not> (max_x aabb \<le> of_int bx \<or> min_x aabb \<ge> f64 (f64 (of_int bx) + 1))"
    and "\<not> (max_z aabb \<le> of_int bz \<or> min_z aabb \<ge> f64 (f64 (of_int bz) + 1))"
    and "delta < 0 \<Longrightarrow> f64 (f64 (of_int by) + 1) \<le> min_y aabb"
  using assms
  by (auto simp: sweep_step_def sweep_step_y_def block_aabb_def Let_def split: if_splits)

text \<open>
  A box at or above \<open>y = 10\<close> over a floor whose top surface is at \<open>y = 10\<close>, and a
  downward displacement whose rounded end is below 10: the sweep returns the candidate
  of the floor block, which is above the displacement asked for, and reports a hit.
\<close>

lemma sweep_y_floor:
  assumes neg: "dy < 0" and rng: "box_in_range aabb" and fl: "floor_at_10 solid_at aabb"
    and hi: "10 \<le> min_y aabb" and lo: "f64 (min_y aabb + dy) < 10"
  shows "sweep_axis solid_at aabb dy ''y'' = (gap_down (min_y aabb) 9, True)"
    and "dy < gap_down (min_y aabb) 9"
proof -
  let ?step = "sweep_step ''y'' solid_at aabb dy"
  let ?bs = "sweep_range aabb dy ''y''"
  let ?P = "\<lambda>b. snd (?step (dy, False) b)"
  let ?c = "face_gap ''y'' aabb dy"
  have nd: "\<not> 0 < dy" using neg by simp
  have step: "\<And>acc b. ?step acc b = (if ?P b then (max (fst acc) (?c b), True) else acc)"
    by (rule trans [OF sweep_step_form]) (simp add: nd)
  have r: "- (2 ^ 30) \<le> min_x aabb" "max_x aabb \<le> 2 ^ 30" "- (2 ^ 30) \<le> min_z aabb"
    "max_z aabb \<le> 2 ^ 30" "min_y aabb \<le> 2 ^ 30" "min_y aabb \<le> max_y aabb"
    "max_y aabb \<le> 1073741824"
    using rng by (simp_all add: box_in_range_def)
  from fl obtain fx fz where under: "solid_at fx 9 fz"
    "beside (min_x aabb) (max_x aabb) fx" "beside (min_z aabb) (max_z aabb) fz"
    by (auto simp: floor_at_10_def)
  have above: "by \<le> 9" if "solid_at bx by bz" "beside (min_x aabb) (max_x aabb) bx"
    "beside (min_z aabb) (max_z aabb) bz" "of_int by < max_y aabb" for bx "by" bz
    using fl that by (auto simp: floor_at_10_def)
  have b0: "blocks_sweep solid_at aabb dy ''y'' (fx, 9, fz)"
    by (rule hit_y [of solid_at fx 9 fz aabb dy, OF under rng]) (use neg hi lo in simp_all)
  then have mem: "(fx, 9, fz) \<in> set ?bs" and P: "?P (fx, 9, fz)"
    by (simp_all add: blocks_sweep_def)
  have gap: "?c (bx, by, bz) = gap_down (min_y aabb) by" for bx "by" bz
    using nd by (simp add: face_gap_def)
  have "min_y aabb - 10 \<le> 1073741824" using r(5) by simp
  then have "min_y aabb - (of_int 9 + 1) \<le> 2 ^ 31" by simp
  from gap_down_above [of 9 "min_y aabb", OF _ this]
  have g9: "10 - min_y aabb + 1 / 2000 \<le> gap_down (min_y aabb) 9" using hi by simp
  have "min_y aabb + dy < 10"
  proof (rule ccontr)
    assume "\<not> min_y aabb + dy < 10"
    then have "f64 10 \<le> f64 (min_y aabb + dy)" by (intro f64_mono) simp
    then show False using lo f64_of_int [of 10] by simp
  qed
  then show dlt: "dy < gap_down (min_y aabb) 9" using g9 by linarith
  have lower: "gap_down (min_y aabb) 9 \<le> fst (foldl ?step (dy, False) ?bs)"
    using foldl_clamp_max [of ?step ?P ?c dy False ?bs, OF step] mem P gap by auto
  have m: "\<And>u v :: real. max u v = u \<or> max u v = v" by (simp add: max_def)
  have upper: "fst (foldl ?step (dy, False) ?bs) \<le> gap_down (min_y aabb) 9"
  proof -
    from foldl_clamp_mem [of ?step ?P max ?c dy False ?bs, OF step m]
    consider "fst (foldl ?step (dy, False) ?bs) = dy"
      | b where "b \<in> set ?bs" "?P b" "fst (foldl ?step (dy, False) ?bs) = ?c b"
      by blast
    then show ?thesis
    proof cases
      case 1
      then show ?thesis using dlt by simp
    next
      case 2
      obtain bx "by" bz where b: "b = (bx, by, bz)" by (cases b) auto
      note f = sweep_step_y_facts [OF 2(2) [unfolded b]]
      have inr: "\<lfloor>min_x aabb\<rfloor> \<le> bx" "bx \<le> \<lfloor>max_x aabb\<rfloor> + 1"
        "\<lfloor>min_z aabb\<rfloor> \<le> bz" "bz \<le> \<lfloor>max_z aabb\<rfloor> + 1"
        using 2(1) by (simp_all add: b sweep_range_def set_sweep_coords Let_def)
      have "beside (min_x aabb) (max_x aabb) bx"
        by (rule beside_from_test [OF f(2) inr(1,2) r(1,2)])
      moreover have "beside (min_z aabb) (max_z aabb) bz"
        by (rule beside_from_test [OF f(3) inr(3,4) r(3,4)])
      ultimately have ab: "real_of_int by < max_y aabb \<Longrightarrow> by \<le> 9" using above f(1) by blast
      have "by \<le> 9"
      proof (rule ccontr)
        assume "\<not> by \<le> 9"
        then have lo9: "10 \<le> by" by simp
        have "by \<le> \<lfloor>max_y aabb\<rfloor> + 1"
          using 2(1) nd by (simp add: b sweep_range_def set_sweep_coords Let_def)
        then have "real_of_int by \<le> of_int (\<lfloor>max_y aabb\<rfloor> + 1)" by (simp only: of_int_le_iff)
        then have "real_of_int by \<le> 2147483649" using r(7) by linarith
        moreover have "- 2147483649 \<le> real_of_int by" using lo9 by linarith
        ultimately have "\<bar>by\<bar> \<le> 2 ^ 52" by (intro small_int)
        from f(4) [OF neg, unfolded block_top [OF this]]
        have "real_of_int by < max_y aabb" using r(6) by linarith
        from ab [OF this] show False using lo9 by simp
      qed
      then have "?c b \<le> gap_down (min_y aabb) 9" by (simp add: b gap gap_down_mono)
      with 2(3) show ?thesis by simp
    qed
  qed
  have hit: "snd (foldl ?step (dy, False) ?bs)"
    using foldl_clamp_hit [of ?step ?P max ?c dy False ?bs, OF step] mem P by auto
  have "dy \<noteq> 0" using neg by simp
  then show "sweep_axis solid_at aabb dy ''y'' = (gap_down (min_y aabb) 9, True)"
    using lower upper hit by (simp add: sweep_axis_def prod_eq_iff)
qed

subsection \<open>Rounding in the fall\<close>

lemma div_bound:
  fixes x c :: real
  assumes "\<bar>x\<bar> \<le> c" and "0 < n"
  shows "\<bar>x\<bar> / n \<le> c / n"
  using assms by (simp add: divide_right_mono)

text \<open>
  The displacement \<open>dy\<close> that the step computes from a downward velocity of at most
  1024 and a time step of at most 64 is negative, and if the exact end of the free fall
  is at or below \<open>y = 9\<close> then the rounded end is below 10.
\<close>

lemma fall_displacement:
  fixes vy dt py :: real
  assumes v: "- 1024 \<le> vy" "vy < 0" and t: "0 < dt" "dt \<le> 64"
    and p: "10 \<le> py" "py \<le> 2 ^ 30" and e: "py + (vy - GRAVITY * dt) * dt \<le> 9"
  shows "f64 (f32 (f64 (vy - f64 (GRAVITY * dt))) * dt) < 0"
    and "f64 (f64 py + f64 (f32 (f64 (vy - f64 (GRAVITY * dt))) * dt)) < 10"
proof -
  define a where "a = f64 (26 * dt)"
  define w where "w = vy - a"
  define v1 where "v1 = f64 w"
  define v2 where "v2 = f32 v1"
  define Q where "Q = (vy - 26 * dt) * dt"
  define dy where "dy = f64 (v2 * dt)"
  have g: "f32 (f64 (vy - f64 (GRAVITY * dt))) = v2"
    by (simp add: GRAVITY_def a_def w_def v1_def v2_def)
  have td: "0 < 26 * dt" "26 * dt \<le> 1664" using t by simp_all
  then have "\<bar>26 * dt\<bar> \<le> 1664" by simp
  from div_bound [OF this, of "2 ^ 53"]
  have a1: "\<bar>26 * dt\<bar> / 2 ^ 53 \<le> 1 / 1000000" by simp
  have a2: "26 * dt - \<bar>26 * dt\<bar> / 2 ^ 53 \<le> a" "a \<le> 26 * dt + \<bar>26 * dt\<bar> / 2 ^ 53"
    using f64_between [of "26 * dt"] by (simp_all add: a_def)
  have a0: "0 < a" using f64_pos [OF td(1)] by (simp add: a_def)
  have w0: "w < 0" "- 2689 \<le> w" using v a0 a1 a2 td unfolding w_def by linarith+
  then have "\<bar>w\<bar> \<le> 2689" by simp
  from div_bound [OF this, of "2 ^ 53"]
  have w1: "\<bar>w\<bar> / 2 ^ 53 \<le> 1 / 1000000" by simp
  have w2: "w - \<bar>w\<bar> / 2 ^ 53 \<le> v1" "v1 \<le> w + \<bar>w\<bar> / 2 ^ 53"
    using f64_between [of w] by (simp_all add: v1_def)
  have v10: "v1 < 0" using f64_neg [OF w0(1)] by (simp add: v1_def)
  have "\<bar>v1\<bar> \<le> 2690" using w0 w1 w2 v10 by linarith
  from div_bound [OF this, of "2 ^ 24"]
  have v11: "\<bar>v1\<bar> / 2 ^ 24 \<le> 17 / 100000" by simp
  have v12: "v1 - \<bar>v1\<bar> / 2 ^ 24 \<le> v2" "v2 \<le> v1 + \<bar>v1\<bar> / 2 ^ 24"
    using f32_between [of v1] by (simp_all add: v2_def)
  have v20: "v2 < 0" using f32_neg [OF v10] by (simp add: v2_def)
  have eps: "\<bar>v2 - (vy - 26 * dt)\<bar> \<le> 1 / 5000"
    using a1 a2 w1 w2 v11 v12 unfolding w_def by linarith
  have "\<bar>(v2 - (vy - 26 * dt)) * dt\<bar> \<le> 1 / 5000 * 64"
    unfolding abs_mult using eps t by (intro mult_mono) simp_all
  moreover have "v2 * dt = Q + (v2 - (vy - 26 * dt)) * dt"
    by (simp add: Q_def algebra_simps)
  ultimately have q: "v2 * dt \<le> Q + 64 / 5000" by linarith
  have neg: "v2 * dt < 0" using v20 t(1) by (rule mult_neg_pos)
  show "f64 (f32 (f64 (vy - f64 (GRAVITY * dt))) * dt) < 0"
    unfolding g using f64_neg [OF neg] .
  have "\<bar>v2\<bar> \<le> 2691" using v12 v11 \<open>\<bar>v1\<bar> \<le> 2690\<close> by linarith
  then have "\<bar>v2 * dt\<bar> \<le> 2691 * 64"
    unfolding abs_mult using t by (intro mult_mono) simp_all
  from div_bound [OF this, of "2 ^ 53"]
  have d1: "\<bar>v2 * dt\<bar> / 2 ^ 53 \<le> 1 / 1000000" by simp
  have d2: "dy \<le> v2 * dt + \<bar>v2 * dt\<bar> / 2 ^ 53"
    using f64_between(2) [of "v2 * dt"] by (simp add: dy_def)
  have "\<bar>py\<bar> \<le> 2 ^ 30" using p by simp
  from div_bound [OF this, of "2 ^ 53"]
  have p1: "\<bar>py\<bar> / 2 ^ 53 \<le> 1 / 1000000" by simp
  have p2: "f64 py \<le> py + \<bar>py\<bar> / 2 ^ 53" using f64_between(2) [of py] .
  have "py + Q \<le> 9" using e by (simp add: Q_def GRAVITY_def)
  then have "f64 py + dy \<le> 19 / 2" using q d1 d2 p1 p2 by linarith
  from f64_mono [OF this] have "f64 (f64 py + dy) \<le> 19 / 2"
    using f64_exact [of 19 "- 1"] by (simp add: pow2_def)
  then show "f64 (f64 py + f64 (f32 (f64 (vy - f64 (GRAVITY * dt))) * dt)) < 10"
    unfolding g dy_def by simp
qed

lemma EPSILON_close: "\<bar>EPSILON - 1 / 1000\<bar> \<le> 1 / 1000000000"
proof -
  have e: "EPSILON = f64 (1 / 1000)" by (simp add: EPSILON_def)
  have "\<bar>1 / 1000 :: real\<bar> / 2 ^ 53 \<le> 1 / 1000000000" by simp
  then show ?thesis using f64_error [of "1 / 1000"] unfolding e by linarith
qed

text \<open>
  The height at which the step puts a player that lands on the floor from \<open>py\<close>: within
  a millionth of \<open>10 + 0.001\<close>.
\<close>

lemma landing_height:
  assumes "10 \<le> py" and "py \<le> 2 ^ 30"
  shows "\<bar>f32 (f64 (py + gap_down (f64 py) 9)) - (10 + 1 / 1000)\<bar> \<le> 1 / 1000000"
proof -
  define m where "m = f64 py"
  define t where "t = f64 (10 - m)"
  define g where "g = f64 (t + EPSILON)"
  define s where "s = f64 (py + g)"
  have ten: "f64 (f64 9 + 1) = 10" using block_top [of 9] by simp
  have gd: "gap_down (f64 py) 9 = g" by (simp add: gap_down_def ten m_def t_def g_def)
  have py: "10 \<le> py" "py \<le> 1073741824" using assms by simp_all
  then have "\<bar>py\<bar> \<le> 1073741824" by linarith
  from div_bound [OF this, of "2 ^ 53"]
  have p1: "\<bar>py\<bar> / 2 ^ 53 \<le> 12 / 100000000" by simp
  have p2: "py - \<bar>py\<bar> / 2 ^ 53 \<le> m" "m \<le> py + \<bar>py\<bar> / 2 ^ 53"
    using f64_between [of py] by (simp_all add: m_def)
  have "\<bar>10 - m\<bar> \<le> 1073741824" using py p1 p2 by linarith
  from div_bound [OF this, of "2 ^ 53"]
  have t1: "\<bar>10 - m\<bar> / 2 ^ 53 \<le> 12 / 100000000" by simp
  have t2: "10 - m - \<bar>10 - m\<bar> / 2 ^ 53 \<le> t" "t \<le> 10 - m + \<bar>10 - m\<bar> / 2 ^ 53"
    using f64_between [of "10 - m"] by (simp_all add: t_def)
  have ec: "1 / 1000 - 1 / 1000000000 \<le> EPSILON" "EPSILON \<le> 1 / 1000 + 1 / 1000000000"
    using EPSILON_close by linarith+
  have "\<bar>t + EPSILON\<bar> \<le> 1073741824" using py p1 p2 t1 t2 ec by linarith
  from div_bound [OF this, of "2 ^ 53"]
  have g1: "\<bar>t + EPSILON\<bar> / 2 ^ 53 \<le> 12 / 100000000" by simp
  have g2: "t + EPSILON - \<bar>t + EPSILON\<bar> / 2 ^ 53 \<le> g" "g \<le> t + EPSILON + \<bar>t + EPSILON\<bar> / 2 ^ 53"
    using f64_between [of "t + EPSILON"] by (simp_all add: g_def)
  have q: "10 + 1 / 1000 - 37 / 100000000 \<le> py + g" "py + g \<le> 10 + 1 / 1000 + 37 / 100000000"
    using p1 p2 t1 t2 g1 g2 ec by linarith+
  then have "\<bar>py + g\<bar> \<le> 11" by linarith
  from div_bound [OF this, of "2 ^ 53"]
  have s1: "\<bar>py + g\<bar> / 2 ^ 53 \<le> 1 / 100000000" by simp
  have s2: "py + g - \<bar>py + g\<bar> / 2 ^ 53 \<le> s" "s \<le> py + g + \<bar>py + g\<bar> / 2 ^ 53"
    using f64_between [of "py + g"] by (simp_all add: s_def)
  have sb: "10 + 1 / 1000 - 38 / 100000000 \<le> s" "s \<le> 10 + 1 / 1000 + 38 / 100000000"
    using q s1 s2 by linarith+
  then have "\<bar>s\<bar> \<le> 100011 / 10000" by linarith
  from div_bound [OF this, of "2 ^ 24"]
  have r1: "\<bar>s\<bar> / 2 ^ 24 \<le> 60 / 100000000" by simp
  have r2: "s - \<bar>s\<bar> / 2 ^ 24 \<le> f32 s" "f32 s \<le> s + \<bar>s\<bar> / 2 ^ 24"
    using f32_between [of s] by simp_all
  have "\<bar>f32 s - (10 + 1 / 1000)\<bar> \<le> 1 / 1000000" using sb r1 r2 by linarith
  then show ?thesis by (simp add: gd s_def)
qed

subsection \<open>Landing\<close>

lemma integrate_y_landing:
  assumes sw: "sweep_axis solid_at aabb dy ''y'' = (a, True)" and "a \<noteq> dy" and "dy < 0"
  shows "vec_y (position (fst (integrate_y solid_at p aabb dy))) = f32 (f64 (vec_y (position p) + a))"
    and "on_ground (fst (integrate_y solid_at p aabb dy))"
    and "vec_y (velocity (fst (integrate_y solid_at p aabb dy))) = 0"
  using assms(2,3)
  by (simp_all add: integrate_y_def sw Let_def take_damage_def)

lemma PLAYER_HEIGHT_ge: "1 \<le> PLAYER_HEIGHT"
  using f64_mono [of 1 "18 / 10"] f64_of_int [of 1] by (simp add: PLAYER_HEIGHT_def)

lemma player_box_height:
  assumes "box_in_range (player_aabb p)"
  shows "vec_y (position p) \<le> 2 ^ 30"
proof (rule ccontr)
  assume "\<not> vec_y (position p) \<le> 2 ^ 30"
  then have "1073741825 \<le> vec_y (position p) + PLAYER_HEIGHT" using PLAYER_HEIGHT_ge by simp
  from f64_mono [OF this] have "1073741825 \<le> f64 (vec_y (position p) + PLAYER_HEIGHT)"
    using f64_of_int [of 1073741825] by simp
  then show False using assms by (simp add: box_in_range_def player_aabb_def Let_def)
qed

text \<open>
  The step of a player that falls straight down onto a floor whose top surface is at
  \<open>y = 10\<close>: the new height is the old one plus the floor block's candidate, each
  addition rounded and the sum stored in single precision.
\<close>

lemma landing:
  assumes fly: "\<not> is_flying p"
    and keys: "\<not> keys ''forward''" "\<not> keys ''back''" "\<not> keys ''left''" "\<not> keys ''right''"
      "\<not> keys ''jump''"
    and alive: "game_mode p = ''Creative'' \<or> 0 < health p"
    and vel: "vec_x (velocity p) = 0" "vec_z (velocity p) = 0"
      "- 1024 \<le> vec_y (velocity p)" "vec_y (velocity p) < 0"
    and pos: "10 \<le> vec_y (position p)"
    and dt: "0 < dt" "dt \<le> 64"
      "vec_y (position p) + (vec_y (velocity p) - GRAVITY * dt) * dt \<le> 9"
    and rng: "box_in_range (player_aabb p)"
    and fl: "floor_at_10 solid_at (player_aabb p)"
  shows "vec_y (position (update lm th solid_at now p keys dt None))
           = f32 (f64 (vec_y (position p) + gap_down (f64 (vec_y (position p))) 9))"
    and "on_ground (update lm th solid_at now p keys dt None)"
    and "vec_y (velocity (update lm th solid_at now p keys dt None)) = 0"
proof -
  define py where "py = vec_y (position p)"
  define p1 where "p1 = update_survival th p dt"
  define p2 where "p2 = update_horizontal lm p1 keys dt None"
  define p3 where "p3 = update_vertical p2 keys dt now"
  define dy where "dy = f64 (vec_y (velocity p3) * dt)"
  have f1: "position p1 = position p" "velocity p1 = velocity p" "is_flying p1 = is_flying p"
    unfolding p1_def using update_survival_keeps [OF alive] by simp_all
  have f2: "position p2 = position p" "vec_x (velocity p2) = 0" "vec_z (velocity p2) = 0"
    "vec_y (velocity p2) = vec_y (velocity p)" "is_flying p2 = is_flying p"
    unfolding p2_def using update_horizontal_idle [of keys p1 lm dt] keys vel f1 by simp_all
  have f3: "position p3 = position p" "vec_x (velocity p3) = 0" "vec_z (velocity p3) = 0"
    "vec_y (velocity p3) = f32 (f64 (vec_y (velocity p) - f64 (GRAVITY * dt)))"
    unfolding p3_def using update_vertical_idle [of keys p2 dt now] keys fly f2 by simp_all
  have pyr: "py \<le> 2 ^ 30" unfolding py_def by (rule player_box_height [OF rng])
  have dyneg: "dy < 0" and below: "f64 (f64 py + dy) < 10"
    unfolding dy_def f3
    using fall_displacement [OF vel(3,4) dt(1,2) pos [folded py_def] pyr dt(3) [folded py_def]]
    by simp_all
  let ?A = "player_aabb p"
  have A3: "player_aabb p3 = ?A" by (simp add: player_aabb_def f3)
  define a1 where "a1 = ?A\<lparr> min_y := f64 py \<rparr>"
  define p4 where "p4 = p3\<lparr> position := (position p3)\<lparr> vec_x := f32 (f64 (vec_x (position p3))) \<rparr> \<rparr>"
  have ix: "integrate_x solid_at p3 (player_aabb p3) 0 = (p4, a1)"
    by (simp add: integrate_x_still p4_def a1_def A3 moved_zero_player py_def)
  have ten: "f64 10 = 10" using f64_of_int [of 10] by simp
  have h0: "0 \<le> PLAYER_HEIGHT" using PLAYER_HEIGHT_ge by simp
  have m10: "10 \<le> f64 py" using f64_mono [of 10 py] pos by (simp add: ten py_def)
  have mtop: "f64 py \<le> max_y ?A"
    using f64_mono [of py "py + PLAYER_HEIGHT"] h0 by (simp add: player_aabb_def Let_def py_def)
  have r1: "box_in_range a1"
    using rng m10 mtop by (simp add: box_in_range_def a1_def)
  have fl1: "floor_at_10 solid_at a1" using fl by (simp add: floor_at_10_def a1_def)
  have my: "min_y a1 = f64 py" by (simp add: a1_def)
  note sw = sweep_y_floor [OF dyneg r1 fl1, unfolded my, OF m10 below]
  have ne: "gap_down (f64 py) 9 \<noteq> dy" using sw(2) by simp
  define p5 where "p5 = fst (integrate_y solid_at p4 a1 dy)"
  have dxz: "f64 (vec_x (velocity p3) * dt) = 0" "f64 (vec_z (velocity p3) * dt) = 0"
    by (simp_all add: f3 f64_zero)
  have upd: "update lm th solid_at now p keys dt None
      = fst (integrate_z solid_at p5 (snd (integrate_y solid_at p4 a1 dy)) 0)"
    unfolding update_def Let_def p5_def
    by (simp add: p1_def [symmetric] p2_def [symmetric] p3_def [symmetric] dxz dy_def [symmetric]
        ix split: prod.splits)
  have p4y: "vec_y (position p4) = py" by (simp add: p4_def f3 py_def)
  have res: "vec_y (position p5) = f32 (f64 (py + gap_down (f64 py) 9))" "on_ground p5"
    "vec_y (velocity p5) = 0"
    unfolding p5_def using integrate_y_landing [OF sw(1) ne dyneg, of p4] by (simp_all add: p4y)
  show "vec_y (position (update lm th solid_at now p keys dt None))
           = f32 (f64 (vec_y (position p) + gap_down (f64 (vec_y (position p))) 9))"
    and "on_ground (update lm th solid_at now p keys dt None)"
    and "vec_y (velocity (update lm th solid_at now p keys dt None)) = 0"
    unfolding upd using res by (simp_all add: integrate_z_still py_def)
qed

subsection \<open>A fall from \<open>y = 12\<close>\<close>

lemma EPSILON_value: "EPSILON = 1152921504606847 / 1152921504606846976"
proof -
  have "rnd 53 (1 / 1000) = of_int 4611686018427388 * pow2 (- 10 - int 53 + 1)"
    by (rule rnd_eval) (simp_all add: pow2_def)
  then show ?thesis by (simp add: EPSILON_def f64_def pow2_def)
qed

lemma landing_from_12: "f32 (f64 (12 + gap_down (f64 12) 9)) = 10486809 / 1048576"
proof -
  have a: "f64 9 = 9" "f64 10 = 10" "f64 12 = 12" "f64 (- 2) = - 2"
    using f64_of_int [of 9] f64_of_int [of 10] f64_of_int [of 12] f64_of_int [of "- 2"]
    by simp_all
  have r1: "rnd 53 (- 2 + 1152921504606847 / 1152921504606846976)
      = of_int (- 9002695655113622) * pow2 (0 - int 53 + 1)"
    by (rule rnd_eval) (simp_all add: pow2_def)
  have "gap_down (f64 12) 9 = f64 (- 2 + EPSILON)" by (simp add: gap_down_def a)
  also have "\<dots> = - (4501347827556811 / 2251799813685248)"
    unfolding EPSILON_value f64_def using r1 by (simp add: pow2_def)
  finally have g: "gap_down (f64 12) 9 = - (4501347827556811 / 2251799813685248)" .
  have r2: "rnd 53 (12 + - (4501347827556811 / 2251799813685248))
      = of_int 5630062484166541 * pow2 (3 - int 53 + 1)"
    by (rule rnd_eval) (simp_all add: pow2_def)
  have "f64 (12 + gap_down (f64 12) 9) = f64 (12 + - (4501347827556811 / 2251799813685248))"
    by (simp only: g)
  also have "\<dots> = 5630062484166541 / 562949953421312"
    unfolding f64_def using r2 by (simp add: pow2_def)
  finally have s: "f64 (12 + gap_down (f64 12) 9) = 5630062484166541 / 562949953421312" .
  have r3: "rnd 24 (5630062484166541 / 562949953421312) = of_int 10486809 * pow2 (3 - int 24 + 1)"
    by (rule rnd_eval) (simp_all add: pow2_def)
  have "f32 (f64 (12 + gap_down (f64 12) 9)) = f32 (5630062484166541 / 562949953421312)"
    by (simp only: s)
  also have "\<dots> = 10486809 / 1048576"
    unfolding f32_def using r3 by (simp add: pow2_def)
  finally show ?thesis .
qed

text \<open>The box of \<open>falling_player\<close>: half a block around \<open>(4, 4)\<close>, from 12 to below 14.\<close>

lemma falling_player_box:
  "3 \<le> min_x (player_aabb falling_player)" "min_x (player_aabb falling_player) \<le> 4"
  "17 / 4 \<le> max_x (player_aabb falling_player)" "max_x (player_aabb falling_player) \<le> 5"
  "3 \<le> min_z (player_aabb falling_player)" "min_z (player_aabb falling_player) \<le> 4"
  "17 / 4 \<le> max_z (player_aabb falling_player)" "max_z (player_aabb falling_player) \<le> 5"
  "min_y (player_aabb falling_player) = 12"
  "13 \<le> max_y (player_aabb falling_player)" "max_y (player_aabb falling_player) \<le> 14"
proof -
  have i: "f64 1 = 1" "f64 2 = 2" "f64 3 = 3" "f64 4 = 4" "f64 5 = 5" "f64 13 = 13" "f64 14 = 14"
    using f64_of_int [of 1] f64_of_int [of 2] f64_of_int [of 3] f64_of_int [of 4]
      f64_of_int [of 5] f64_of_int [of 13] f64_of_int [of 14]
    by simp_all
  have d: "f64 (1 / 2) = 1 / 2" "f64 (1 / 4) = 1 / 4" "f64 (17 / 4) = 17 / 4"
    using f64_exact [of 1 "- 1"] f64_exact [of 1 "- 2"] f64_exact [of 17 "- 2"]
    by (simp_all add: pow2_def)
  have w: "1 / 2 \<le> PLAYER_WIDTH" "PLAYER_WIDTH \<le> 1"
    using f64_mono [of "1 / 2" "6 / 10"] f64_mono [of "6 / 10" 1]
    by (simp_all add: PLAYER_WIDTH_def d i)
  define hw where "hw = f64 (PLAYER_WIDTH * (1 / 2))"
  have hw: "1 / 4 \<le> hw" "hw \<le> 1"
    using f64_mono [of "1 / 4" "PLAYER_WIDTH * (1 / 2)"] f64_mono [of "PLAYER_WIDTH * (1 / 2)" 1] w
    by (simp_all add: hw_def d i)
  have h: "1 \<le> PLAYER_HEIGHT" "PLAYER_HEIGHT \<le> 2"
    using f64_mono [of 1 "18 / 10"] f64_mono [of "18 / 10" 2]
    by (simp_all add: PLAYER_HEIGHT_def i)
  have lo: "3 \<le> f64 (4 - hw)" "f64 (4 - hw) \<le> 4"
    using f64_mono [of 3 "4 - hw"] f64_mono [of "4 - hw" 4] hw by (simp_all add: i)
  have hi: "17 / 4 \<le> f64 (4 + hw)" "f64 (4 + hw) \<le> 5"
    using f64_mono [of "17 / 4" "4 + hw"] f64_mono [of "4 + hw" 5] hw by (simp_all add: i d)
  have top: "13 \<le> f64 (12 + PLAYER_HEIGHT)" "f64 (12 + PLAYER_HEIGHT) \<le> 14"
    using f64_mono [of 13 "12 + PLAYER_HEIGHT"] f64_mono [of "12 + PLAYER_HEIGHT" 14] h
    by (simp_all add: i)
  have A: "player_aabb falling_player =
      \<lparr> min_x = f64 (4 - hw), min_y = 12, min_z = f64 (4 - hw),
        max_x = f64 (4 + hw), max_y = f64 (12 + PLAYER_HEIGHT), max_z = f64 (4 + hw) \<rparr>"
    by (simp add: player_aabb_def falling_player_def Let_def hw_def PLAYER_DEPTH_def PLAYER_WIDTH_def)
  show "3 \<le> min_x (player_aabb falling_player)" "min_x (player_aabb falling_player) \<le> 4"
    "17 / 4 \<le> max_x (player_aabb falling_player)" "max_x (player_aabb falling_player) \<le> 5"
    "3 \<le> min_z (player_aabb falling_player)" "min_z (player_aabb falling_player) \<le> 4"
    "17 / 4 \<le> max_z (player_aabb falling_player)" "max_z (player_aabb falling_player) \<le> 5"
    "min_y (player_aabb falling_player) = 12"
    "13 \<le> max_y (player_aabb falling_player)" "max_y (player_aabb falling_player) \<le> 14"
    using lo hi top by (simp_all add: A)
qed

lemma falling_player_in_range: "box_in_range (player_aabb falling_player)"
  using falling_player_box by (simp add: box_in_range_def)

lemma falling_player_floor: "floor_at_10 floor_below_10 (player_aabb falling_player)"
proof -
  have "floor_below_10 4 9 4 \<and> beside (min_x (player_aabb falling_player)) (max_x (player_aabb falling_player)) 4
      \<and> beside (min_z (player_aabb falling_player)) (max_z (player_aabb falling_player)) 4"
    using falling_player_box by (simp add: beside_def floor_below_10_def)
  then show ?thesis unfolding floor_at_10_def by (auto simp: floor_below_10_def)
qed

lemma falling_player_lands:
  "vec_y (position (update lm (\<lambda>wx wz. 18) floor_below_10 0 falling_player (\<lambda>k. False) 1 None))
     = 10486809 / 1048576"
  "on_ground (update lm (\<lambda>wx wz. 18) floor_below_10 0 falling_player (\<lambda>k. False) 1 None)"
  "vec_y (velocity (update lm (\<lambda>wx wz. 18) floor_below_10 0 falling_player (\<lambda>k. False) 1 None)) = 0"
proof -
  note l = landing [of falling_player "\<lambda>k. False" 1 floor_below_10 lm "\<lambda>wx wz. 18" 0,
      OF _ _ _ _ _ _ _ _ _ _ _ _ _ _ _ falling_player_in_range falling_player_floor]
  have y: "vec_y (position falling_player) = 12" by (simp add: falling_player_def)
  show "vec_y (position (update lm (\<lambda>wx wz. 18) floor_below_10 0 falling_player (\<lambda>k. False) 1 None))
     = 10486809 / 1048576"
    unfolding landing_from_12 [symmetric] y [symmetric]
    by (rule l(1)) (simp_all add: falling_player_def GRAVITY_def)
  show "on_ground (update lm (\<lambda>wx wz. 18) floor_below_10 0 falling_player (\<lambda>k. False) 1 None)"
    by (rule l(2)) (simp_all add: falling_player_def GRAVITY_def)
  show "vec_y (velocity (update lm (\<lambda>wx wz. 18) floor_below_10 0 falling_player (\<lambda>k. False) 1 None)) = 0"
    by (rule l(3)) (simp_all add: falling_player_def GRAVITY_def)
qed

text \<open>
  C9, as stated: after the step the box's \<open>min_y\<close> equals 10. For the player
  \<open>falling_player\<close> above a floor whose top surface is at \<open>y = 10\<close> and \<open>dt = 1\<close> the
  step ends on the ground with vertical velocity 0, but with
  \<open>min_y = 10486809 / 2 ^ 20 = 10.00100040435791015625\<close>: the sweep keeps the box
  \<open>EPSILON\<close> above the floor, and the sum is stored in a single-precision component.
\<close>

theorem fall_min_y_not_10:
  "on_ground (update rounded_libm (\<lambda>wx wz. 18) floor_below_10 0 falling_player (\<lambda>k. False) 1 None)
   \<and> vec_y (velocity (update rounded_libm (\<lambda>wx wz. 18) floor_below_10 0 falling_player (\<lambda>k. False) 1 None)) = 0
   \<and> min_y (player_aabb (update rounded_libm (\<lambda>wx wz. 18) floor_below_10 0 falling_player (\<lambda>k. False) 1 None))
       = 10486809 / 1048576
   \<and> min_y (player_aabb (update rounded_libm (\<lambda>wx wz. 18) floor_below_10 0 falling_player (\<lambda>k. False) 1 None))
       \<noteq> 10"
  using falling_player_lands [of rounded_libm] by (simp add: player_aabb_def Let_def)

text \<open>
  C9, amended. A player that is not flying, in creative mode or with positive health,
  with none of the keys forward, back, left, right and jump held and no analog input,
  zero horizontal velocity and a downward velocity of at most 1024, with its feet at or
  above \<open>y = 10\<close>, its box within \<open>2 ^ 30\<close> of the origin, over a solid floor whose top
  surface is at \<open>y = 10\<close>: after one \<open>update\<close> with a \<open>dt\<close> of at most 64 that is large
  enough for the free fall \<open>y + (velocity.y - GRAVITY * dt) * dt\<close> to end at or below
  \<open>y = 9\<close>, the box's \<open>min_y\<close> is within \<open>0.000001\<close> of \<open>10 + 0.001\<close>, \<open>on_ground\<close> is
  true and \<open>velocity.y\<close> is 0.
\<close>

theorem fall_lands_epsilon_above_floor:
  assumes "\<not> is_flying p"
    and "\<not> keys ''forward''" and "\<not> keys ''back''" and "\<not> keys ''left''" and "\<not> keys ''right''"
    and "\<not> keys ''jump''"
    and "game_mode p = ''Creative'' \<or> 0 < health p"
    and "vec_x (velocity p) = 0" and "vec_z (velocity p) = 0"
    and "- 1024 \<le> vec_y (velocity p)" and "vec_y (velocity p) < 0"
    and "10 \<le> vec_y (position p)"
    and "0 < dt" and "dt \<le> 64"
    and "vec_y (position p) + (vec_y (velocity p) - GRAVITY * dt) * dt \<le> 9"
    and "box_in_range (player_aabb p)"
    and "floor_at_10 solid_at (player_aabb p)"
  shows "\<bar>min_y (player_aabb (update lm th solid_at now p keys dt None)) - (10 + 1 / 1000)\<bar>
           \<le> 1 / 1000000
       \<and> on_ground (update lm th solid_at now p keys dt None)
       \<and> vec_y (velocity (update lm th solid_at now p keys dt None)) = 0"
proof -
  note l = landing [OF assms, of lm th now]
  have "min_y (player_aabb (update lm th solid_at now p keys dt None))
      = f32 (f64 (vec_y (position p) + gap_down (f64 (vec_y (position p))) 9))"
    using l(1) by (simp add: player_aabb_def Let_def)
  then show ?thesis
    using landing_height [OF assms(12) player_box_height [OF assms(16)]] l(2,3) by simp
qed

theorem fall_lands_epsilon_above_floor_witness:
  "\<not> is_flying falling_player
   \<and> 0 < health falling_player
   \<and> vec_x (velocity falling_player) = 0 \<and> vec_z (velocity falling_player) = 0
   \<and> - 1024 \<le> vec_y (velocity falling_player) \<and> vec_y (velocity falling_player) < 0
   \<and> 10 \<le> vec_y (position falling_player)
   \<and> vec_y (position falling_player) + (vec_y (velocity falling_player) - GRAVITY * 1) * 1 \<le> 9
   \<and> box_in_range (player_aabb falling_player)
   \<and> floor_at_10 floor_below_10 (player_aabb falling_player)
   \<and> \<bar>min_y (player_aabb (update rounded_libm (\<lambda>wx wz. 18) floor_below_10 0 falling_player (\<lambda>k. False) 1 None))
        - (10 + 1 / 1000)\<bar> \<le> 1 / 1000000
   \<and> on_ground (update rounded_libm (\<lambda>wx wz. 18) floor_below_10 0 falling_player (\<lambda>k. False) 1 None)
   \<and> vec_y (velocity (update rounded_libm (\<lambda>wx wz. 18) floor_below_10 0 falling_player (\<lambda>k. False) 1 None)) = 0"
  using fall_lands_epsilon_above_floor [of falling_player "\<lambda>k. False" 1 floor_below_10
      rounded_libm "\<lambda>wx wz. 18" 0]
    falling_player_in_range falling_player_floor
  by (simp add: falling_player_def GRAVITY_def)

section \<open>Properties of the mesher\<close>










section \<open>Properties of the terrain sampler\<close>

lemma PERM_set_world_seed:
  "PERM (set_world_seed shuffle seed s) = shuffle seed [0..255] @ shuffle seed [0..255]"
  by (simp add: set_world_seed_def init_simplex_noise_def Let_def)

lemma exec_call_keeps_PERM:
  assumes "keeps_seed seed c" and "PERM s = shuffle seed [0..255] @ shuffle seed [0..255]"
  shows "PERM (snd (exec_call shuffle c s)) = shuffle seed [0..255] @ shuffle seed [0..255]"
  using assms by (cases c) (simp_all add: PERM_set_world_seed)

lemma run_calls_keeps_PERM:
  assumes "list_all (keeps_seed seed) cs" and "PERM s = shuffle seed [0..255] @ shuffle seed [0..255]"
  shows "PERM (run_calls shuffle cs s) = shuffle seed [0..255] @ shuffle seed [0..255]"
  using assms
proof (induction cs arbitrary: s)
  case Nil
  then show ?case by simp
next
  case (Cons c cs)
  from Cons.prems have k: "keeps_seed seed c" and ks: "list_all (keeps_seed seed) cs" by simp_all
  show ?case
    using Cons.IH [OF ks exec_call_keeps_PERM [of seed c s shuffle, OF k Cons.prems(2)]] by simp
qed

lemma run_calls_append:
  "run_calls shuffle (cs @ ds) s = run_calls shuffle ds (run_calls shuffle cs s)"
  by (induction cs arbitrary: s) simp_all

lemma PERM_after_seed:
  assumes "list_all (keeps_seed seed) cs"
  shows "PERM (run_calls shuffle (pre @ SetWorldSeed seed # cs) s)
           = shuffle seed [0..255] @ shuffle seed [0..255]"
  using run_calls_keeps_PERM [of seed cs "set_world_seed shuffle seed (run_calls shuffle pre s)" shuffle,
      OF assms PERM_set_world_seed]
  by (simp add: run_calls_append)

text \<open>The queries read the state through \<open>_PERM\<close> only.\<close>

lemma simplex_noise_2d_PERM:
  "PERM s = PERM s' \<Longrightarrow> simplex_noise_2d s x y = simplex_noise_2d s' x y"
  by (simp add: simplex_noise_2d_def)

lemma octaves_PERM:
  "PERM s = PERM s' \<Longrightarrow> octaves s x z n tot a f mv = octaves s' x z n tot a f mv"
  by (induction n arbitrary: tot a f mv) (simp_all add: simplex_noise_2d_PERM [of s s'])

lemma mountain_height_PERM:
  assumes "PERM s = PERM s'"
  shows "mountain_height s wx wz = mountain_height s' wx wz"
  unfolding mountain_height_def simplex_noise_2d_PERM [OF assms] ..

lemma semi_flat_PERM:
  assumes "PERM s = PERM s'"
  shows "semi_flat s wx wz h = semi_flat s' wx wz h"
  unfolding semi_flat_def simplex_noise_2d_PERM [OF assms] ..

lemma terrain_height_PERM:
  assumes "PERM s = PERM s'"
  shows "terrain_height s wx wz biome desert_weight = terrain_height s' wx wz biome desert_weight"
  unfolding terrain_height_def octaves_PERM [OF assms] mountain_height_PERM [OF assms]
    semi_flat_PERM [OF assms] ..

lemma get_biome_PERM:
  assumes "PERM s = PERM s'"
  shows "get_biome s wx wz = get_biome s' wx wz"
  unfolding get_biome_def simplex_noise_2d_PERM [OF assms] ..

lemma answer_PERM:
  assumes "PERM s = PERM s'"
  shows "fst (exec_call shuffle q s) = fst (exec_call shuffle q s')"
  by (cases q) (simp_all add: terrain_height_PERM [OF assms] get_biome_PERM [OF assms])

text \<open>
  C6. Fix a seed. Take two runs of the module, each from any state and after any earlier
  calls, in which \<open>set_world_seed seed\<close> is called and followed only by queries and by
  reseeding with the same seed. Then a \<open>terrain_height\<close> or \<open>get_biome\<close> query with the
  same arguments returns the same result in both runs: the result depends on the seed
  and the arguments only, not on the order or number of earlier calls, nor on the state
  the process started from. (The shuffle of the standard library is a function of the
  seed; floats are exact reals.)
\<close>

theorem seeded_queries_deterministic:
  assumes "list_all (keeps_seed seed) cs1" and "list_all (keeps_seed seed) cs2"
  shows "fst (exec_call shuffle q (run_calls shuffle (pre1 @ SetWorldSeed seed # cs1) s1))
       = fst (exec_call shuffle q (run_calls shuffle (pre2 @ SetWorldSeed seed # cs2) s2))"
  by (rule answer_PERM) (simp add: PERM_after_seed [OF assms(1)] PERM_after_seed [OF assms(2)])

theorem seeded_queries_deterministic_witness:
  "list_all (keeps_seed 7) [GetBiome 0 0, TerrainHeight 3 4 ''plains'' 0]
   \<and> list_all (keeps_seed 7) []
   \<and> fst (exec_call (\<lambda>seed xs. rev xs) (TerrainHeight 0 0 ''plains'' 0)
            (process_run (\<lambda>seed xs. rev xs)
               ([SetWorldSeed 1, GetBiome 5 5] @ SetWorldSeed 7 # [GetBiome 0 0, TerrainHeight 3 4 ''plains'' 0])))
     = fst (exec_call (\<lambda>seed xs. rev xs) (TerrainHeight 0 0 ''plains'' 0)
            (process_run (\<lambda>seed xs. rev xs) ([] @ SetWorldSeed 7 # [])))"
  unfolding process_run_def
  using seeded_queries_deterministic [of 7 "[GetBiome 0 0, TerrainHeight 3 4 ''plains'' 0]" "[]"
      "\<lambda>seed xs. rev xs" "TerrainHeight 0 0 ''plains'' 0" "[SetWorldSeed 1, GetBiome 5 5]"
      "init_simplex_noise (\<lambda>seed xs. rev xs) None module_state" "[]"
      "init_simplex_noise (\<lambda>seed xs. rev xs) None module_state"]
  by simp

section \<open>Properties of the cave generator\<close>

lemma fold_err_invariant:
  assumes "\<And>x acc acc'. P acc \<Longrightarrow> f x acc = Inr acc' \<Longrightarrow> P acc'"
    and "P acc" and "fold_err f xs acc = Inr r"
  shows "P r"
  using assms(2,3)
proof (induction xs arbitrary: acc)
  case Nil
  then show ?case by simp
next
  case (Cons x xs)
  from Cons.prems(2) obtain a where a: "f x acc = Inr a" and r: "fold_err f xs a = Inr r"
    by (auto simp: bind_err_def split: sum.splits)
  show ?case by (rule Cons.IH [OF assms(1) [OF Cons.prems(1) a] r])
qed

lemma sphere_cells_bounds:
  assumes "p \<in> set (sphere_cells min_wx (min_wx + CHUNK_SIZE_X) min_wz (min_wz + CHUNK_SIZE_Z) wx wy wz radius)"
  shows "in_carve_bounds p"
  using assms
  by (auto simp: sphere_cells_def Let_def in_carve_bounds_def split: if_splits)

lemma worm_step_bounds:
  assumes "all_in_bounds (carved w)"
    and "worm_step s min_wx (min_wx + CHUNK_SIZE_X) min_wz (min_wz + CHUNK_SIZE_Z) radius w_seed step w = Inr w'"
  shows "all_in_bounds (carved w')"
  using assms sphere_cells_bounds
  by (auto simp: worm_step_def Let_def bind_err_def all_in_bounds_def split: sum.splits)

lemma worm_carve_bounds:
  assumes "all_in_bounds acc"
    and "worm_carve s min_wx (min_wx + CHUNK_SIZE_X) min_wz (min_wz + CHUNK_SIZE_Z) wm acc = Inr acc'"
  shows "all_in_bounds acc'"
proof (cases "\<bar>worm_x wm - of_int (min_wx + 8)\<bar> + \<bar>worm_z wm - of_int (min_wz + 8)\<bar> > of_int (worm_length wm + 20)")
  case True
  with assms show ?thesis by (simp add: worm_carve_def Let_def)
next
  case False
  with assms(2) obtain w where
    f: "fold_err (worm_step s min_wx (min_wx + CHUNK_SIZE_X) min_wz (min_wz + CHUNK_SIZE_Z) (worm_radius wm) (worm_seed wm))
          [0..worm_length wm - 1]
          \<lparr> carved = acc, at_x = worm_x wm, at_y = worm_y wm, at_z = worm_z wm,
            heading_yaw = worm_yaw wm, heading_pitch = worm_pitch wm \<rparr> = Inr w"
    and acc': "acc' = carved w"
    by (auto simp: worm_carve_def Let_def bind_err_def split: sum.splits)
  have "all_in_bounds (carved w)"
    by (rule fold_err_invariant [where P = "\<lambda>w. all_in_bounds (carved w)", OF _ _ f])
       (auto intro: worm_step_bounds simp: assms(1))
  then show ?thesis by (simp add: acc')
qed

lemma list_get_wf:
  assumes "wf_perm perm" and "0 \<le> i" and "i < 512"
  shows "\<exists>v. list_get perm i = Inr v \<and> 0 \<le> v \<and> v \<le> 255"
proof -
  have "nat i < length perm" using assms by (simp add: wf_perm_def)
  then have "perm ! nat i \<in> set perm" by simp
  then show ?thesis using assms by (auto simp: list_get_def wf_perm_def Let_def)
qed

lemma gradient_index_wf:
  assumes "wf_perm perm" and "0 \<le> a" and "a \<le> 256" and "0 \<le> b" and "b \<le> 256"
  shows "\<exists>g. gradient_index perm a b = Inr g"
proof -
  obtain pb where pb: "list_get perm b = Inr pb" "0 \<le> pb" "pb \<le> 255"
    using list_get_wf [OF assms(1), of b] assms by auto
  obtain v where v: "list_get perm (a + pb) = Inr v"
    using list_get_wf [OF assms(1), of "a + pb"] assms pb by auto
  show ?thesis by (simp add: gradient_index_def bind_err_def pb v)
qed

lemma simplex_noise_2d_total:
  assumes "wf_perm (PERM s)"
  shows "\<exists>v. simplex_noise_2d s x y = Inr v"
proof -
  define i where "i = cell_index (x + (x + y) * (0.5 * (sqrt 3.0 - 1.0)))"
  define j where "j = cell_index (y + (x + y) * (0.5 * (sqrt 3.0 - 1.0)))"
  have r: "0 \<le> i mod 256" "i mod 256 \<le> 255" "0 \<le> j mod 256" "j mod 256 \<le> 255"
    by simp_all
  obtain g0 where g0: "gradient_index (PERM s) (i mod 256) (j mod 256) = Inr g0"
    using gradient_index_wf [OF assms, of "i mod 256" "j mod 256"] r by auto
  obtain g1a where g1a: "gradient_index (PERM s) (i mod 256 + 1) (j mod 256 + 0) = Inr g1a"
    using gradient_index_wf [OF assms, of "i mod 256 + 1" "j mod 256 + 0"] r by auto
  obtain g1b where g1b: "gradient_index (PERM s) (i mod 256 + 0) (j mod 256 + 1) = Inr g1b"
    using gradient_index_wf [OF assms, of "i mod 256 + 0" "j mod 256 + 1"] r by auto
  obtain g2 where g2: "gradient_index (PERM s) (i mod 256 + 1) (j mod 256 + 1) = Inr g2"
    using gradient_index_wf [OF assms, of "i mod 256 + 1" "j mod 256 + 1"] r by auto
  show ?thesis
    unfolding simplex_noise_2d_def Let_def i_def [symmetric] j_def [symmetric]
    using g0 g1a g1b g2
    by (auto simp: bind_err_def split: prod.splits if_splits)
qed

lemma fold_err_total:
  assumes "\<And>x acc. \<exists>acc'. f x acc = Inr acc'"
  shows "\<exists>r. fold_err f xs acc = Inr r"
proof (induction xs arbitrary: acc)
  case Nil
  then show ?case by simp
next
  case (Cons x xs)
  obtain a where a: "f x acc = Inr a" using assms by blast
  show ?case using Cons.IH [of a] by (simp add: bind_err_def a)
qed

lemma fold_err_reach:
  assumes keep: "\<And>y acc acc'. Q acc \<Longrightarrow> f y acc = Inr acc' \<Longrightarrow> Q acc'"
    and hit: "\<And>acc acc'. f x acc = Inr acc' \<Longrightarrow> Q acc'"
    and "x \<in> set xs" and "fold_err f xs acc = Inr r"
  shows "Q r"
  using assms(3,4)
proof (induction xs arbitrary: acc)
  case Nil
  then show ?case by simp
next
  case (Cons z zs)
  from Cons.prems(2) obtain a where a: "f z acc = Inr a" and r: "fold_err f zs a = Inr r"
    by (auto simp: bind_err_def split: sum.splits)
  show ?case
  proof (cases "x = z")
    case True
    have "Q a" using hit a True by blast
    then show ?thesis using fold_err_invariant [of Q f a zs r] keep r by blast
  next
    case False
    with Cons.prems(1) have "x \<in> set zs" by simp
    from Cons.IH [OF this r] show ?thesis .
  qed
qed

lemma worm_step_total:
  assumes "wf_perm (PERM s)"
  shows "\<exists>w'. worm_step s min_wx max_wx min_wz max_wz radius w_seed step w = Inr w'"
proof -
  obtain n1 where n1: "simplex_noise_2d s (of_int step * 0.1) (of_int w_seed * 0.01) = Inr n1"
    using simplex_noise_2d_total [OF assms] by blast
  obtain n2 where n2: "simplex_noise_2d s (of_int step * 0.1) (of_int w_seed * 0.01 + 100) = Inr n2"
    using simplex_noise_2d_total [OF assms] by blast
  show ?thesis unfolding worm_step_def Let_def n1 n2 by (simp add: bind_err_def)
qed

lemma worm_carve_total:
  assumes "wf_perm (PERM s)"
  shows "\<exists>acc'. worm_carve s min_wx max_wx min_wz max_wz wm acc = Inr acc'"
proof -
  obtain w where "fold_err (worm_step s min_wx max_wx min_wz max_wz (worm_radius wm) (worm_seed wm))
          [0..worm_length wm - 1]
          \<lparr> carved = acc, at_x = worm_x wm, at_y = worm_y wm, at_z = worm_z wm,
            heading_yaw = worm_yaw wm, heading_pitch = worm_pitch wm \<rparr> = Inr w"
    using fold_err_total [of "worm_step s min_wx max_wx min_wz max_wz (worm_radius wm) (worm_seed wm)"]
      worm_step_total [OF assms] by blast
  then show ?thesis by (simp add: worm_carve_def Let_def bind_err_def)
qed

text \<open>With a permutation table of 512 entries in \<open>0..255\<close> the generator returns a set.\<close>

lemma generate_chunk_caves_total:
  assumes "wf_perm (PERM s)"
  shows "\<exists>C. generate_chunk_caves s get_chunk_worms cx cz = Inr C"
  unfolding generate_chunk_caves_def Let_def
  by (intro fold_err_total worm_carve_total [OF assms])

lemma worm_step_grows:
  assumes "worm_step s min_wx max_wx min_wz max_wz radius w_seed step w = Inr w'"
  shows "carved w \<subseteq> carved w'"
    and "set (sphere_cells min_wx max_wx min_wz max_wz (at_x w) (at_y w) (at_z w) radius) \<subseteq> carved w'"
  using assms
  by (auto simp: worm_step_def Let_def bind_err_def split: sum.splits)

lemma worm_step_keeps:
  assumes "p \<in> carved w" and "worm_step s min_wx max_wx min_wz max_wz radius w_seed step w = Inr w'"
  shows "p \<in> carved w'"
  using worm_step_grows(1) [OF assms(2)] assms(1) by auto

lemma worm_carve_keeps:
  assumes "p \<in> acc" and "worm_carve s min_wx max_wx min_wz max_wz wm acc = Inr acc'"
  shows "p \<in> acc'"
proof (cases "\<bar>worm_x wm - of_int (min_wx + 8)\<bar> + \<bar>worm_z wm - of_int (min_wz + 8)\<bar> > of_int (worm_length wm + 20)")
  case True
  with assms show ?thesis by (simp add: worm_carve_def Let_def)
next
  case False
  with assms(2) obtain w where
    f: "fold_err (worm_step s min_wx max_wx min_wz max_wz (worm_radius wm) (worm_seed wm))
          [0..worm_length wm - 1]
          \<lparr> carved = acc, at_x = worm_x wm, at_y = worm_y wm, at_z = worm_z wm,
            heading_yaw = worm_yaw wm, heading_pitch = worm_pitch wm \<rparr> = Inr w"
    and acc': "acc' = carved w"
    by (auto simp: worm_carve_def Let_def bind_err_def split: sum.splits)
  have "p \<in> carved w"
    by (rule fold_err_invariant [where P = "\<lambda>w. p \<in> carved w", OF _ _ f])
       (auto intro: worm_step_keeps simp: assms(1))
  then show ?thesis by (simp add: acc')
qed

lemma worm_carve_start:
  assumes "worm_carve s min_wx max_wx min_wz max_wz wm acc = Inr acc'"
    and near: "\<not> \<bar>worm_x wm - of_int (min_wx + 8)\<bar> + \<bar>worm_z wm - of_int (min_wz + 8)\<bar> > of_int (worm_length wm + 20)"
    and len: "1 \<le> worm_length wm"
    and p: "p \<in> set (sphere_cells min_wx max_wx min_wz max_wz (worm_x wm) (worm_y wm) (worm_z wm) (worm_radius wm))"
  shows "p \<in> acc'"
proof -
  let ?f = "worm_step s min_wx max_wx min_wz max_wz (worm_radius wm) (worm_seed wm)"
  let ?w0 = "\<lparr> carved = acc, at_x = worm_x wm, at_y = worm_y wm, at_z = worm_z wm,
            heading_yaw = worm_yaw wm, heading_pitch = worm_pitch wm \<rparr>"
  from assms(1) near obtain w where f: "fold_err ?f [0..worm_length wm - 1] ?w0 = Inr w"
    and acc': "acc' = carved w"
    by (auto simp: worm_carve_def Let_def bind_err_def split: sum.splits)
  have u: "[0..worm_length wm - 1] = 0 # [1..worm_length wm - 1]"
    using len by (simp add: upto_rec1)
  from f obtain w1 where w1: "?f 0 ?w0 = Inr w1" and r: "fold_err ?f [1..worm_length wm - 1] w1 = Inr w"
    unfolding u by (auto simp: bind_err_def split: sum.splits)
  have "p \<in> carved w1" using worm_step_grows(2) [OF w1] p by auto
  have keep: "\<And>x a a'. p \<in> carved a \<Longrightarrow> ?f x a = Inr a' \<Longrightarrow> p \<in> carved a'"
    by (rule worm_step_keeps)
  have "p \<in> carved w"
    by (rule fold_err_invariant [where P = "\<lambda>w. p \<in> carved w", OF keep \<open>p \<in> carved w1\<close> r])
  then show ?thesis by (simp add: acc')
qed

lemma caves_contain_start:
  assumes gen: "generate_chunk_caves s get_chunk_worms cx cz = Inr C"
    and nx: "cx - 3 \<le> ncx" "ncx \<le> cx + 3" and nz: "cz - 3 \<le> ncz" "ncz \<le> cz + 3"
    and wm: "wm \<in> set (get_chunk_worms ncx ncz)"
    and near: "\<not> \<bar>worm_x wm - of_int (cx * CHUNK_SIZE_X + 8)\<bar> + \<bar>worm_z wm - of_int (cz * CHUNK_SIZE_Z + 8)\<bar>
                 > of_int (worm_length wm + 20)"
    and len: "1 \<le> worm_length wm"
    and p: "p \<in> set (sphere_cells (cx * CHUNK_SIZE_X) (cx * CHUNK_SIZE_X + CHUNK_SIZE_X)
               (cz * CHUNK_SIZE_Z) (cz * CHUNK_SIZE_Z + CHUNK_SIZE_Z)
               (worm_x wm) (worm_y wm) (worm_z wm) (worm_radius wm))"
  shows "p \<in> C"
proof -
  let ?wc = "worm_carve s (cx * CHUNK_SIZE_X) (cx * CHUNK_SIZE_X + CHUNK_SIZE_X)
               (cz * CHUNK_SIZE_Z) (cz * CHUNK_SIZE_Z + CHUNK_SIZE_Z)"
  let ?Q = "\<lambda>acc. p \<in> acc"
  have k1: "\<And>ws acc acc'. ?Q acc \<Longrightarrow> fold_err ?wc ws acc = Inr acc' \<Longrightarrow> ?Q acc'"
    by (rule fold_err_invariant [where P = ?Q]) (auto intro: worm_carve_keeps)
  have k2: "\<And>x zs acc acc'. ?Q acc \<Longrightarrow>
      fold_err (\<lambda>z. fold_err ?wc (get_chunk_worms x z)) zs acc = Inr acc' \<Longrightarrow> ?Q acc'"
    by (rule fold_err_invariant [where P = ?Q]) (auto intro: k1)
  have h1: "\<And>acc acc'. fold_err ?wc (get_chunk_worms ncx ncz) acc = Inr acc' \<Longrightarrow> ?Q acc'"
    by (rule fold_err_reach [where Q = ?Q and x = wm, OF _ _ wm])
       (auto intro: worm_carve_keeps worm_carve_start [OF _ near len p])
  have h2: "\<And>acc acc'. fold_err (\<lambda>z. fold_err ?wc (get_chunk_worms ncx z)) [cz - 3..cz + 3] acc = Inr acc' \<Longrightarrow> ?Q acc'"
    by (rule fold_err_reach [where Q = ?Q and x = ncz]) (use nz in \<open>auto intro: k1 h1\<close>)
  show ?thesis
    by (rule fold_err_reach [where Q = ?Q and x = ncx, OF _ _ _ gen [unfolded generate_chunk_caves_def Let_def]])
       (use nx in \<open>auto intro: k2 h2\<close>)
qed

lemma identity_seeded_wf: "wf_perm (PERM identity_seeded)"
  by (auto simp: identity_seeded_def set_world_seed_def init_simplex_noise_def wf_perm_def Let_def)

lemma one_worm_cell:
  "(4, 20, 4) \<in> set (sphere_cells (0 * CHUNK_SIZE_X) (0 * CHUNK_SIZE_X + CHUNK_SIZE_X)
               (0 * CHUNK_SIZE_Z) (0 * CHUNK_SIZE_Z + CHUNK_SIZE_Z)
               (worm_x one_worm) (worm_y one_worm) (worm_z one_worm) (worm_radius one_worm))"
  by (simp add: sphere_cells_def one_worm_def py_int_def Let_def CHUNK_SIZE_X_def CHUNK_SIZE_Y_def
      CHUNK_SIZE_Z_def)

text \<open>
  C8. For every chunk coordinate, every element \<open>(lx, y, lz)\<close> of the set that
  \<open>generate_chunk_caves\<close> returns satisfies \<open>0 \<le> lx < SX\<close>, \<open>0 \<le> lz < SZ\<close> and
  \<open>1 \<le> y \<le> SY - 2\<close>, whatever the worms and the noise state are.
\<close>

theorem caves_within_chunk:
  assumes "generate_chunk_caves s get_chunk_worms cx cz = Inr C" and "(lx, y, lz) \<in> C"
  shows "0 \<le> lx \<and> lx < CHUNK_SIZE_X \<and> 0 \<le> lz \<and> lz < CHUNK_SIZE_Z \<and> 1 \<le> y \<and> y \<le> CHUNK_SIZE_Y - 2"
proof -
  let ?wc = "worm_carve s (cx * CHUNK_SIZE_X) (cx * CHUNK_SIZE_X + CHUNK_SIZE_X)
               (cz * CHUNK_SIZE_Z) (cz * CHUNK_SIZE_Z + CHUNK_SIZE_Z)"
  have inner: "\<And>ws acc acc'. all_in_bounds acc \<Longrightarrow> fold_err ?wc ws acc = Inr acc' \<Longrightarrow> all_in_bounds acc'"
    by (rule fold_err_invariant [where P = all_in_bounds]) (auto intro: worm_carve_bounds)
  have mid: "\<And>ncx zs acc acc'. all_in_bounds acc \<Longrightarrow>
      fold_err (\<lambda>ncz. fold_err ?wc (get_chunk_worms ncx ncz)) zs acc = Inr acc' \<Longrightarrow> all_in_bounds acc'"
    by (rule fold_err_invariant [where P = all_in_bounds]) (auto intro: inner)
  have e: "all_in_bounds {}" by (simp add: all_in_bounds_def)
  have "all_in_bounds C"
    by (rule fold_err_invariant [where P = all_in_bounds, OF _ e assms(1) [unfolded generate_chunk_caves_def Let_def]])
       (rule mid)
  with assms(2) show ?thesis
    by (auto simp: all_in_bounds_def in_carve_bounds_def)
qed

theorem caves_within_chunk_witness:
  "(case generate_chunk_caves identity_seeded worm_at_origin 0 0 of
      Inl e \<Rightarrow> False
    | Inr C \<Rightarrow> (4, 20, 4) \<in> C
        \<and> (0 :: int) \<le> 4 \<and> 4 < CHUNK_SIZE_X \<and> (0 :: int) \<le> 4 \<and> 4 < CHUNK_SIZE_Z
        \<and> (1 :: int) \<le> 20 \<and> 20 \<le> CHUNK_SIZE_Y - 2)"
proof -
  obtain C where gen: "generate_chunk_caves identity_seeded worm_at_origin 0 0 = Inr C"
    using generate_chunk_caves_total [OF identity_seeded_wf] by blast
  have mem: "(4, 20, 4) \<in> C"
    by (rule caves_contain_start [OF gen, of 0 0 one_worm, OF _ _ _ _ _ _ _ one_worm_cell])
       (simp_all add: worm_at_origin_def one_worm_def CHUNK_SIZE_X_def CHUNK_SIZE_Z_def)
  from caves_within_chunk [OF gen mem] mem show ?thesis
    by (simp add: gen)
qed

end
